theory Spec2Isabelle
  imports
    Complex_Main
    "HOL-Library.AList"
    "HOL-Library.Multiset"
    "HOL-Library.Char_ord"
    "HOL-Library.List_Lexorder"
    "HOL-Library.Log_Nat"
begin

section \<open>The metrics pipeline of \<^verbatim>\<open>src/lib/metrics.ts\<close>\<close>

text \<open>
  The development embeds the ingestion, merge and aggregation functions of
  \<^verbatim>\<open>src/lib/metrics.ts\<close>.  Conventions of the embedding:
  \<^item> a JavaScript \<^verbatim>\<open>number\<close> that holds a counter or a rate is a \<^typ>\<open>real\<close>: a
    finite double, with exact arithmetic on the counters (\<^verbatim>\<open>toNumber\<close> never produces
    \<^verbatim>\<open>NaN\<close> or an infinity).  Where a string is read as a number and where the date
    parser of platform B computes, a number is a \<open>JsNumber\<close>: \<^verbatim>\<open>NaN\<close>, an infinity or
    a finite double, and every operation rounds its exact result to the nearest double
    (\<open>roundToDouble\<close>).  The sign of zero is not modelled;
  \<^item> the date of a daily record is a valid date, given by its time value, an
    \<^typ>\<open>int\<close> of milliseconds since 1970-01-01T00:00:00Z.  The \<^verbatim>\<open>Date\<close> objects of posts
    and of the date parser of platform B are of the type \<open>Date\<close>, which has the Invalid
    Date; there the range limit of time values (8.64e15 ms either side of the epoch) is
    modelled by \<open>newDate\<close> and \<open>Date_UTC_value\<close>;
  \<^item> an exception is a value: a function that can throw returns \<open>Inl\<close> of the error;
  \<^item> a string is a \<^typ>\<open>string\<close> of ASCII characters;
  \<^item> a \<^verbatim>\<open>Map\<close> is an association list in insertion order: \<^verbatim>\<open>get\<close> is
    \<^const>\<open>map_of\<close>, \<^verbatim>\<open>set\<close> is \<^const>\<open>AList.update\<close> (a present key keeps its
    position, a new key goes to the end), \<^verbatim>\<open>values()\<close> is \<open>map snd\<close>;
  \<^item> \<^verbatim>\<open>Array.prototype.sort\<close> with a comparator that is the difference of two keys is
    the stable sort \<^const>\<open>sort_key\<close>.
\<close>

subsection \<open>Strings\<close>

definition isWhiteSpace :: "char \<Rightarrow> bool" where
  "isWhiteSpace c \<longleftrightarrow> c \<in> set [CHR '' '', CHR 0x09, CHR 0x0A, CHR 0x0B, CHR 0x0C, CHR 0x0D]"

text \<open>\<^verbatim>\<open>String.prototype.trim\<close>.\<close>

definition trim :: "string \<Rightarrow> string" where
  "trim s = rev (dropWhile isWhiteSpace (rev (dropWhile isWhiteSpace s)))"

definition lowerChar :: "char \<Rightarrow> char" where
  "lowerChar c = (if CHR ''A'' \<le> c \<and> c \<le> CHR ''Z'' then char_of (of_char c + (32::nat)) else c)"

definition upperChar :: "char \<Rightarrow> char" where
  "upperChar c = (if CHR ''a'' \<le> c \<and> c \<le> CHR ''z'' then char_of (of_char c - (32::nat)) else c)"

definition toLowerCase :: "string \<Rightarrow> string" where
  "toLowerCase s = map lowerChar s"

definition toUpperCase :: "string \<Rightarrow> string" where
  "toUpperCase s = map upperChar s"

text \<open>\<^verbatim>\<open>s.split(c)\<close> for a one-character separator.\<close>

primrec splitOn :: "char \<Rightarrow> string \<Rightarrow> string list" where
  "splitOn c [] = [[]]"
| "splitOn c (x # xs) =
     (if x = c then [] # splitOn c xs
      else (case splitOn c xs of [] \<Rightarrow> [[x]] | t # ts \<Rightarrow> (x # t) # ts))"

text \<open>\<^verbatim>\<open>s.split(/\s+/)\<close>.\<close>

function splitWhitespace :: "string \<Rightarrow> string list" where
  "splitWhitespace s =
     (let tok = takeWhile (\<lambda>c. \<not> isWhiteSpace c) s;
          rest = dropWhile (\<lambda>c. \<not> isWhiteSpace c) s
      in if rest = [] then [tok] else tok # splitWhitespace (dropWhile isWhiteSpace rest))"
  by pat_completeness auto
termination
proof (relation "measure length")
  fix s :: string and tok rest
  assume r: "rest = dropWhile (\<lambda>c. \<not> isWhiteSpace c) s" and ne: "rest \<noteq> []"
  from ne obtain c cs where rc: "rest = c # cs" by (cases rest) auto
  with r have "isWhiteSpace c" by (metis hd_dropWhile list.sel(1) ne)
  then have "length (dropWhile isWhiteSpace rest) \<le> length cs"
    using rc by (simp add: length_dropWhile_le)
  moreover have "length rest \<le> length s" using r by (simp add: length_dropWhile_le)
  ultimately show "(dropWhile isWhiteSpace rest, s) \<in> measure length" using rc by simp
qed simp

declare splitWhitespace.simps [simp del]

subsection \<open>Numbers\<close>

definition isDigit :: "char \<Rightarrow> bool" where
  "isDigit c \<longleftrightarrow> CHR ''0'' \<le> c \<and> c \<le> CHR ''9''"

definition digitsValue :: "string \<Rightarrow> int" where
  "digitsValue ds = foldl (\<lambda>acc c. 10 * acc + (of_char c - 48)) 0 ds"

text \<open>
  A number: \<^verbatim>\<open>NaN\<close>, an infinity, or a finite double given by its value.
\<close>

datatype JsNumber = NaN | PosInfinity | NegInfinity | Finite real

text \<open>
  Rounding of a real number to the nearest double, ties to the even significand
  (IEEE 754 binary64).  \<open>binaryExponent x\<close> is the \<open>e\<close> with \<open>2 ^ e \<le> x < 2 ^ (e + 1)\<close> for
  a positive \<open>x\<close>.  A double is a multiple \<open>m * 2 ^ q\<close> with \<open>\<bar>m\<bar> \<le> 2 ^ 53\<close>, where
  \<open>q\<close> is 52 below the binary exponent and at least -1074 (the subnormal numbers);
  the largest double is \<open>(2 ^ 53 - 1) * 2 ^ 971\<close>, and a rounded value beyond it is an
  infinity.
\<close>

definition pow2 :: "int \<Rightarrow> real" where
  "pow2 e = (if 0 \<le> e then 2 ^ nat e else 1 / 2 ^ nat (- e))"

definition binaryExponent :: "real \<Rightarrow> int" where
  "binaryExponent x = (if 1 \<le> x then bitlen \<lfloor>x\<rfloor> - 1 else - bitlen (\<lceil>1 / x\<rceil> - 1))"

definition roundTiesToEven :: "real \<Rightarrow> int" where
  "roundTiesToEven r =
     (let f = \<lfloor>r\<rfloor>; d = r - real_of_int f
      in if d < 1 / 2 then f else if 1 / 2 < d then f + 1 else if even f then f else f + 1)"

definition roundToDouble :: "real \<Rightarrow> JsNumber" where
  "roundToDouble x =
     (if x = 0 then Finite 0
      else
        let q = max (binaryExponent \<bar>x\<bar>) (- 1022) - 52;
            m = roundTiesToEven (x / pow2 q)
        in if 971 < q \<or> (q = 971 \<and> \<bar>m\<bar> = 9007199254740992)
           then (if 0 < x then PosInfinity else NegInfinity)
           else Finite (real_of_int m * pow2 q))"

text \<open>
  The arithmetic of numbers: \<^verbatim>\<open>x * y\<close>, \<^verbatim>\<open>x + y\<close>, \<^verbatim>\<open>x - y\<close> and \<^verbatim>\<open>x < y\<close>.
\<close>

fun jsSign :: "JsNumber \<Rightarrow> int" where
  "jsSign NaN = 0"
| "jsSign PosInfinity = 1"
| "jsSign NegInfinity = - 1"
| "jsSign (Finite a) = (if a < 0 then - 1 else if a = 0 then 0 else 1)"

definition jsMul :: "JsNumber \<Rightarrow> JsNumber \<Rightarrow> JsNumber" where
  "jsMul x y =
     (case (x, y) of
        (Finite a, Finite b) \<Rightarrow> roundToDouble (a * b)
      | _ \<Rightarrow>
          if jsSign x * jsSign y = 0 then NaN
          else if 0 < jsSign x * jsSign y then PosInfinity else NegInfinity)"

definition jsAdd :: "JsNumber \<Rightarrow> JsNumber \<Rightarrow> JsNumber" where
  "jsAdd x y =
     (case (x, y) of
        (Finite a, Finite b) \<Rightarrow> roundToDouble (a + b)
      | (Finite a, _) \<Rightarrow> y
      | (_, Finite b) \<Rightarrow> x
      | _ \<Rightarrow> if x = y then x else NaN)"

definition jsSub :: "JsNumber \<Rightarrow> JsNumber \<Rightarrow> JsNumber" where
  "jsSub x y =
     jsAdd x (case y of Finite b \<Rightarrow> Finite (- b) | PosInfinity \<Rightarrow> NegInfinity
                | NegInfinity \<Rightarrow> PosInfinity | NaN \<Rightarrow> NaN)"

definition jsLess :: "JsNumber \<Rightarrow> JsNumber \<Rightarrow> bool" where
  "jsLess x y =
     (case (x, y) of
        (Finite a, Finite b) \<Rightarrow> a < b
      | (NegInfinity, Finite b) \<Rightarrow> True
      | (NegInfinity, PosInfinity) \<Rightarrow> True
      | (Finite a, PosInfinity) \<Rightarrow> True
      | _ \<Rightarrow> False)"

text \<open>
  \<^verbatim>\<open>Number(s)\<close> on a string: surrounding white space is ignored and the empty string
  is 0.  A numeric string is \<^verbatim>\<open>Infinity\<close> or a decimal literal (digits with an optional
  fraction and an optional exponent), either of them with an optional sign, or an
  unsigned hexadecimal, octal or binary integer literal; its value is rounded to the
  nearest double.  Any other string is \<^verbatim>\<open>NaN\<close>.
\<close>

definition digitOf :: "char \<Rightarrow> int option" where
  "digitOf c =
     (if CHR ''0'' \<le> c \<and> c \<le> CHR ''9'' then Some (of_char c - 48)
      else if CHR ''a'' \<le> c \<and> c \<le> CHR ''f'' then Some (of_char c - 87)
      else if CHR ''A'' \<le> c \<and> c \<le> CHR ''F'' then Some (of_char c - 55)
      else None)"

definition radixValue :: "int \<Rightarrow> string \<Rightarrow> int option" where
  "radixValue b ds =
     (if ds \<noteq> [] \<and> list_all (\<lambda>c. case digitOf c of Some v \<Rightarrow> v < b | None \<Rightarrow> False) ds
      then Some (foldl (\<lambda>acc c. b * acc + (case digitOf c of Some v \<Rightarrow> v | None \<Rightarrow> 0)) 0 ds)
      else None)"

definition exponentPart :: "string \<Rightarrow> int option" where
  "exponentPart r =
     (case r of
        [] \<Rightarrow> Some 0
      | c # cs \<Rightarrow>
          if c = CHR ''e'' \<or> c = CHR ''E'' then
            (let signed = (cs \<noteq> [] \<and> (hd cs = CHR ''-'' \<or> hd cs = CHR ''+''));
                 ds = (if signed then tl cs else cs)
             in if ds \<noteq> [] \<and> list_all isDigit ds
                then Some (if signed \<and> hd cs = CHR ''-'' then - digitsValue ds else digitsValue ds)
                else None)
          else None)"

definition pow10 :: "int \<Rightarrow> real" where
  "pow10 e = (if 0 \<le> e then 10 ^ nat e else 1 / 10 ^ nat (- e))"

definition decimalLiteral :: "string \<Rightarrow> real option" where
  "decimalLiteral body =
     (let ip = takeWhile isDigit body;
          r1 = dropWhile isDigit body;
          dot = (r1 \<noteq> [] \<and> hd r1 = CHR ''.'');
          fp = (if dot then takeWhile isDigit (tl r1) else []);
          r2 = (if dot then dropWhile isDigit (tl r1) else r1)
      in if ip = [] \<and> fp = [] then None
         else
           (case exponentPart r2 of
              None \<Rightarrow> None
            | Some e \<Rightarrow>
                Some ((real_of_int (digitsValue ip) + real_of_int (digitsValue fp) / 10 ^ length fp)
                      * pow10 e)))"

definition Number :: "string \<Rightarrow> JsNumber" where
  "Number s =
     (let t = trim s in
      if t = [] then Finite 0
      else if take 2 t = ''0x'' \<or> take 2 t = ''0X'' then
        (case radixValue 16 (drop 2 t) of Some v \<Rightarrow> roundToDouble (real_of_int v) | None \<Rightarrow> NaN)
      else if take 2 t = ''0o'' \<or> take 2 t = ''0O'' then
        (case radixValue 8 (drop 2 t) of Some v \<Rightarrow> roundToDouble (real_of_int v) | None \<Rightarrow> NaN)
      else if take 2 t = ''0b'' \<or> take 2 t = ''0B'' then
        (case radixValue 2 (drop 2 t) of Some v \<Rightarrow> roundToDouble (real_of_int v) | None \<Rightarrow> NaN)
      else
        let negative = (hd t = CHR ''-'');
            body = (if hd t = CHR ''-'' \<or> hd t = CHR ''+'' then tl t else t)
        in if body = ''Infinity'' then (if negative then NegInfinity else PosInfinity)
           else
             (case decimalLiteral body of
                None \<Rightarrow> NaN
              | Some v \<Rightarrow> roundToDouble (if negative then - v else v)))"

text \<open>\<^verbatim>\<open>ToIntegerOrInfinity\<close> on a finite number: truncation towards zero.\<close>

definition ToIntegerOrInfinity :: "real \<Rightarrow> int" where
  "ToIntegerOrInfinity x = (if x < 0 then \<lceil>x\<rceil> else \<lfloor>x\<rfloor>)"

text \<open>\<^verbatim>\<open>Math.round\<close>: the nearest integer, a half rounded up.\<close>

definition Math_round :: "real \<Rightarrow> int" where
  "Math_round x = \<lfloor>x + 1 / 2\<rfloor>"

text \<open>
  \<^verbatim>\<open>String(n)\<close> for an integer (\<open>showDigits\<close> gives the decimal digits of a
  non-negative integer), and \<^verbatim>\<open>padStart(w, "0")\<close>.
\<close>

function showDigits :: "int \<Rightarrow> string" where
  "showDigits n = (if n < 10 then [char_of (48 + n)] else showDigits (n div 10) @ [char_of (48 + n mod 10)])"
  by pat_completeness auto
termination
  by (relation "measure nat") auto

declare showDigits.simps [simp del]

definition showInt :: "int \<Rightarrow> string" where
  "showInt i = (if i < 0 then CHR ''-'' # showDigits (- i) else showDigits i)"

definition padStart :: "nat \<Rightarrow> string \<Rightarrow> string" where
  "padStart w s = replicate (w - length s) CHR ''0'' @ s"

subsection \<open>Dates\<close>

definition msPerDay :: int where
  "msPerDay = 24 * 60 * 60 * 1000"

text \<open>
  The calendar functions of a time value.  \<open>civilFromDays\<close> gives the proleptic
  Gregorian year, month (1 to 12) and day of month of a day number counted from
  1970-01-01; \<open>daysFromCivil\<close> is its inverse, the day number of a civil date.
\<close>

definition civilFromDays :: "int \<Rightarrow> int \<times> int \<times> int" where
  "civilFromDays z0 =
     (let z = z0 + 719468;
          era = z div 146097;
          doe = z - era * 146097;
          yoe = (doe - doe div 1460 + doe div 36524 - doe div 146096) div 365;
          y = yoe + era * 400;
          doy = doe - (365 * yoe + yoe div 4 - yoe div 100);
          mp = (5 * doy + 2) div 153;
          d = doy - (153 * mp + 2) div 5 + 1;
          m = (if mp < 10 then mp + 3 else mp - 9)
      in (if m \<le> 2 then y + 1 else y, m, d))"

definition daysFromCivil :: "int \<Rightarrow> int \<Rightarrow> int \<Rightarrow> int" where
  "daysFromCivil y0 m d =
     (let y = (if m \<le> 2 then y0 - 1 else y0);
          era = y div 400;
          yoe = y - era * 400;
          doy = (153 * (if m > 2 then m - 3 else m + 9) + 2) div 5 + d - 1;
          doe = yoe * 365 + yoe div 4 - yoe div 100 + doy
      in era * 146097 + doe - 719468)"

definition getUTCFullYear :: "int \<Rightarrow> int" where
  "getUTCFullYear t = fst (civilFromDays (t div msPerDay))"

definition getUTCMonth :: "int \<Rightarrow> int" where
  "getUTCMonth t = fst (snd (civilFromDays (t div msPerDay))) - 1"

definition getUTCDate :: "int \<Rightarrow> int" where
  "getUTCDate t = snd (snd (civilFromDays (t div msPerDay)))"

definition getUTCHours :: "int \<Rightarrow> int" where
  "getUTCHours t = (t mod msPerDay) div 3600000"

definition getUTCMinutes :: "int \<Rightarrow> int" where
  "getUTCMinutes t = (t mod 3600000) div 60000"

definition getUTCSeconds :: "int \<Rightarrow> int" where
  "getUTCSeconds t = (t mod 60000) div 1000"

definition getUTCMilliseconds :: "int \<Rightarrow> int" where
  "getUTCMilliseconds t = t mod 1000"

text \<open>
  The arithmetic of \<^verbatim>\<open>Date.UTC(year, month, date, hours, minutes)\<close> on finite
  arguments: every argument is truncated to an integer, a year from 0 to 99 means
  1900 + year, and a month outside 0 to 11 carries into the year.  \<open>Date_UTC\<close> is the
  time before the range check of \<^verbatim>\<open>TimeClip\<close>; of the calendar fields of a valid date it
  is the midnight that begins the date's day.
\<close>

definition MakeDay :: "int \<Rightarrow> int \<Rightarrow> int \<Rightarrow> int" where
  "MakeDay y m dt = daysFromCivil (y + m div 12) (m mod 12 + 1) 1 + dt - 1"

definition Date_UTC :: "real \<Rightarrow> real \<Rightarrow> real \<Rightarrow> real \<Rightarrow> real \<Rightarrow> int" where
  "Date_UTC year month date hours minutes =
     (let y = ToIntegerOrInfinity year;
          yr = (if 0 \<le> y \<and> y \<le> 99 then 1900 + y else y)
      in MakeDay yr (ToIntegerOrInfinity month) (ToIntegerOrInfinity date) * msPerDay
         + ToIntegerOrInfinity hours * 3600000 + ToIntegerOrInfinity minutes * 60000)"

text \<open>
  A \<^verbatim>\<open>Date\<close> object: the Invalid Date (its time value is \<^verbatim>\<open>NaN\<close>) or a valid date
  with its time value.
\<close>

datatype Date = InvalidDate | ValidDate int

text \<open>
  \<^verbatim>\<open>new Date(v)\<close> on a number: \<^verbatim>\<open>TimeClip\<close> gives the Invalid Date for \<^verbatim>\<open>NaN\<close>, for an
  infinity and for a number beyond 8.64e15 either side of 0, and truncates any other
  number.
\<close>

definition newDate :: "JsNumber \<Rightarrow> Date" where
  "newDate v =
     (case v of
        Finite x \<Rightarrow>
          if 8640000000000000 < \<bar>x\<bar> then InvalidDate else ValidDate (ToIntegerOrInfinity x)
      | _ \<Rightarrow> InvalidDate)"

text \<open>
  The value of \<^verbatim>\<open>Date.UTC(year, month, date, hours, minutes)\<close> on any numbers: \<^verbatim>\<open>NaN\<close>
  when an argument is not finite or the time is beyond 8.64e15 either side of 0.  The
  time is computed exactly from the truncated arguments.  The rounding of doubles inside
  the engine's computation, which shows only for arguments of more than ten digits,
  and an engine's refusal of a year or month far outside the range of dates are not
  modelled.
\<close>

definition Date_UTC_value ::
  "JsNumber \<Rightarrow> JsNumber \<Rightarrow> JsNumber \<Rightarrow> JsNumber \<Rightarrow> JsNumber \<Rightarrow> JsNumber" where
  "Date_UTC_value year month date hours minutes =
     (case (year, month, date, hours, minutes) of
        (Finite y, Finite m, Finite d, Finite h, Finite mi) \<Rightarrow>
          (let t = Date_UTC y m d h mi
           in if 8640000000000000 < \<bar>t\<bar> then NaN else Finite (real_of_int t))
      | _ \<Rightarrow> NaN)"

text \<open>
  \<^verbatim>\<open>Date.prototype.toISOString\<close>: \<open>isoFormat\<close> is the text for a time value, and
  \<open>toISOString\<close> throws a \<^verbatim>\<open>RangeError\<close> on the Invalid Date.
\<close>

datatype JsError = RangeError

definition isoFormat :: "int \<Rightarrow> string" where
  "isoFormat t =
     (let y = getUTCFullYear t;
          ys = (if 0 \<le> y \<and> y \<le> 9999 then padStart 4 (showInt y)
                else (if y < 0 then CHR ''-'' else CHR ''+'') # padStart 6 (showDigits \<bar>y\<bar>))
      in ys @ ''-'' @ padStart 2 (showInt (getUTCMonth t + 1)) @ ''-''
         @ padStart 2 (showInt (getUTCDate t)) @ ''T''
         @ padStart 2 (showInt (getUTCHours t)) @ '':''
         @ padStart 2 (showInt (getUTCMinutes t)) @ '':''
         @ padStart 2 (showInt (getUTCSeconds t)) @ ''.''
         @ padStart 3 (showInt (getUTCMilliseconds t)) @ ''Z'')"

definition toISOString :: "Date \<Rightarrow> JsError + string" where
  "toISOString d = (case d of InvalidDate \<Rightarrow> Inl RangeError | ValidDate t \<Rightarrow> Inr (isoFormat t))"

definition toMonthKey :: "int \<Rightarrow> string" where
  "toMonthKey date =
     (let year = getUTCFullYear date;
          month = padStart 2 (showInt (getUTCMonth date + 1))
      in showInt year @ ''-'' @ month)"

definition toDayKey :: "int \<Rightarrow> string" where
  "toDayKey date =
     (let year = getUTCFullYear date;
          month = padStart 2 (showInt (getUTCMonth date + 1));
          day = padStart 2 (showInt (getUTCDate date))
      in showInt year @ ''-'' @ month @ ''-'' @ day)"

subsection \<open>Reading keys back\<close>

text \<open>
  The inverse of the key formats, used to show that equal keys mean equal calendar
  dates: \<open>decodeInt\<close> reads \<^verbatim>\<open>String(n)\<close> back, \<open>splitLast\<close> takes the last
  hyphen-separated number off a key, and \<open>signedDigits w i\<close> says that \<open>w\<close> is a
  decimal numeral of \<open>i\<close>, possibly with a sign and leading zeros.
\<close>

definition decodeInt :: "string \<Rightarrow> int" where
  "decodeInt w = (case w of [] \<Rightarrow> 0 | c # cs \<Rightarrow> if c = CHR ''-'' then - digitsValue cs else digitsValue w)"

definition splitLast :: "string \<Rightarrow> int \<times> string" where
  "splitLast w =
     (let r = rev w; ds = rev (takeWhile isDigit r); rest = dropWhile isDigit r
      in case rest of
           c1 # c2 # others \<Rightarrow>
             if c2 = CHR ''-'' then (- digitsValue ds, rev others) else (digitsValue ds, rev (c2 # others))
         | _ \<Rightarrow> (digitsValue ds, []))"

definition signedDigits :: "string \<Rightarrow> int \<Rightarrow> bool" where
  "signedDigits w i \<longleftrightarrow>
     (case w of
        [] \<Rightarrow> False
      | c # cs \<Rightarrow>
          if c = CHR ''-'' then cs \<noteq> [] \<and> list_all isDigit cs \<and> - digitsValue cs = i
          else list_all isDigit w \<and> digitsValue w = i)"

definition decodeMonthKey :: "string \<Rightarrow> int \<times> int" where
  "decodeMonthKey k = (case splitLast k of (m, ys) \<Rightarrow> (decodeInt ys, m))"

definition decodeDayKey :: "string \<Rightarrow> int \<times> int \<times> int" where
  "decodeDayKey k = (case splitLast k of (d, ym) \<Rightarrow> (case splitLast ym of (m, ys) \<Rightarrow> (decodeInt ys, m, d)))"

subsection \<open>Engagement rate\<close>

text \<open>\<^verbatim>\<open>if (!impressions) return null\<close>: of the finite numbers only 0 is falsy.\<close>

definition calculateEngagementRate :: "real \<Rightarrow> real \<Rightarrow> real \<Rightarrow> real \<Rightarrow> real option" where
  "calculateEngagementRate impressions likes comments reposts =
     (if impressions = 0 then None
      else Some ((likes + comments + reposts) / impressions))"

subsection \<open>The data model\<close>

datatype Platform = X | LinkedIn

fun platformName :: "Platform \<Rightarrow> string" where
  "platformName X = ''x''"
| "platformName LinkedIn = ''linkedin''"

text \<open>A daily record: the platform, the date (a valid date) and the 16 counters.\<close>

record DailyMetric =
  source :: Platform
  date :: int
  views :: real
  likes :: real
  comments :: real
  reposts :: real
  clicks :: real
  shares :: real
  bookmarks :: real
  profileVisits :: real
  engagements :: real
  videoViews :: real
  videoWatchViews :: real
  videoWatchTimeMs :: real
  videoCompletionRateSum :: real
  posts :: real
  newFollows :: real
  unfollows :: real

text \<open>
  \<^verbatim>\<open>MetricKey\<close> and \<^verbatim>\<open>METRIC_KEYS\<close>: the names of the 16 counters, with the reading
  \<^verbatim>\<open>metric[field]\<close> and the assignment \<^verbatim>\<open>merged[field] = v\<close>.
\<close>

datatype MetricKey =
    Views | Likes | Comments | Reposts
  | Clicks | Shares | Bookmarks | ProfileVisits
  | Engagements | VideoViews | VideoWatchViews | VideoWatchTimeMs
  | VideoCompletionRateSum | Posts | NewFollows | Unfollows

definition METRIC_KEYS :: "MetricKey list" where
  "METRIC_KEYS =
     [Views, Likes, Comments, Reposts,
      Clicks, Shares, Bookmarks, ProfileVisits,
      Engagements, VideoViews, VideoWatchViews, VideoWatchTimeMs,
      VideoCompletionRateSum, Posts, NewFollows, Unfollows]"

fun getField :: "MetricKey \<Rightarrow> DailyMetric \<Rightarrow> real" where
  "getField Views m = DailyMetric.views m"
| "getField Likes m = DailyMetric.likes m"
| "getField Comments m = DailyMetric.comments m"
| "getField Reposts m = DailyMetric.reposts m"
| "getField Clicks m = DailyMetric.clicks m"
| "getField Shares m = DailyMetric.shares m"
| "getField Bookmarks m = DailyMetric.bookmarks m"
| "getField ProfileVisits m = DailyMetric.profileVisits m"
| "getField Engagements m = DailyMetric.engagements m"
| "getField VideoViews m = DailyMetric.videoViews m"
| "getField VideoWatchViews m = DailyMetric.videoWatchViews m"
| "getField VideoWatchTimeMs m = DailyMetric.videoWatchTimeMs m"
| "getField VideoCompletionRateSum m = DailyMetric.videoCompletionRateSum m"
| "getField Posts m = DailyMetric.posts m"
| "getField NewFollows m = DailyMetric.newFollows m"
| "getField Unfollows m = DailyMetric.unfollows m"

fun setField :: "MetricKey \<Rightarrow> real \<Rightarrow> DailyMetric \<Rightarrow> DailyMetric" where
  "setField Views v m = m\<lparr>DailyMetric.views := v\<rparr>"
| "setField Likes v m = m\<lparr>DailyMetric.likes := v\<rparr>"
| "setField Comments v m = m\<lparr>DailyMetric.comments := v\<rparr>"
| "setField Reposts v m = m\<lparr>DailyMetric.reposts := v\<rparr>"
| "setField Clicks v m = m\<lparr>DailyMetric.clicks := v\<rparr>"
| "setField Shares v m = m\<lparr>DailyMetric.shares := v\<rparr>"
| "setField Bookmarks v m = m\<lparr>DailyMetric.bookmarks := v\<rparr>"
| "setField ProfileVisits v m = m\<lparr>DailyMetric.profileVisits := v\<rparr>"
| "setField Engagements v m = m\<lparr>DailyMetric.engagements := v\<rparr>"
| "setField VideoViews v m = m\<lparr>DailyMetric.videoViews := v\<rparr>"
| "setField VideoWatchViews v m = m\<lparr>DailyMetric.videoWatchViews := v\<rparr>"
| "setField VideoWatchTimeMs v m = m\<lparr>DailyMetric.videoWatchTimeMs := v\<rparr>"
| "setField VideoCompletionRateSum v m = m\<lparr>DailyMetric.videoCompletionRateSum := v\<rparr>"
| "setField Posts v m = m\<lparr>DailyMetric.posts := v\<rparr>"
| "setField NewFollows v m = m\<lparr>DailyMetric.newFollows := v\<rparr>"
| "setField Unfollows v m = m\<lparr>DailyMetric.unfollows := v\<rparr>"

record MonthSummary =
  monthKey :: string
  label :: string
  views :: real
  likes :: real
  comments :: real
  reposts :: real
  clicks :: real
  shares :: real
  bookmarks :: real
  profileVisits :: real
  engagements :: real
  videoViews :: real
  videoWatchViews :: real
  videoWatchTimeMs :: real
  videoCompletionRateSum :: real
  posts :: real
  newFollows :: real
  unfollows :: real
  days :: nat

fun monthField :: "MetricKey \<Rightarrow> MonthSummary \<Rightarrow> real" where
  "monthField Views s = MonthSummary.views s"
| "monthField Likes s = MonthSummary.likes s"
| "monthField Comments s = MonthSummary.comments s"
| "monthField Reposts s = MonthSummary.reposts s"
| "monthField Clicks s = MonthSummary.clicks s"
| "monthField Shares s = MonthSummary.shares s"
| "monthField Bookmarks s = MonthSummary.bookmarks s"
| "monthField ProfileVisits s = MonthSummary.profileVisits s"
| "monthField Engagements s = MonthSummary.engagements s"
| "monthField VideoViews s = MonthSummary.videoViews s"
| "monthField VideoWatchViews s = MonthSummary.videoWatchViews s"
| "monthField VideoWatchTimeMs s = MonthSummary.videoWatchTimeMs s"
| "monthField VideoCompletionRateSum s = MonthSummary.videoCompletionRateSum s"
| "monthField Posts s = MonthSummary.posts s"
| "monthField NewFollows s = MonthSummary.newFollows s"
| "monthField Unfollows s = MonthSummary.unfollows s"

subsection \<open>Grouping by a key\<close>

text \<open>
  The loops of this file that fill a \<^verbatim>\<open>Map\<close> share one shape: look the item's key
  up, store a fresh value when it is absent and a combined value when it is present.
  \<open>groupStep\<close> is that shape; it is used to reason about the loops below, each of which
  is written out as in the source.
\<close>

definition groupStep ::
  "('a \<Rightarrow> 'k) \<Rightarrow> ('a \<Rightarrow> 'v) \<Rightarrow> ('v \<Rightarrow> 'a \<Rightarrow> 'v) \<Rightarrow> ('k \<times> 'v) list \<Rightarrow> 'a \<Rightarrow> ('k \<times> 'v) list" where
  "groupStep key init comb al x =
     AList.update (key x) (case map_of al (key x) of None \<Rightarrow> init x | Some e \<Rightarrow> comb e x) al"

subsection \<open>Merging daily records: \<^verbatim>\<open>mergeDailyMetrics\<close>\<close>

definition metricKey :: "DailyMetric \<Rightarrow> string" where
  "metricKey metric = platformName (DailyMetric.source metric) @ ''-'' @ toDayKey (DailyMetric.date metric)"

text \<open>
  \<^verbatim>\<open>const merged = { ...existing }; METRIC_KEYS.forEach((field) => { merged[field] =
  Math.max(existing[field], metric[field]); })\<close>
\<close>

definition mergeFields :: "DailyMetric \<Rightarrow> DailyMetric \<Rightarrow> DailyMetric" where
  "mergeFields existing metric =
     foldl (\<lambda>merged field. setField field (max (getField field existing) (getField field metric)) merged)
       existing METRIC_KEYS"

definition mergeStep :: "(string \<times> DailyMetric) list \<Rightarrow> DailyMetric \<Rightarrow> (string \<times> DailyMetric) list" where
  "mergeStep byDay metric =
     (let key = metricKey metric in
      case map_of byDay key of
        None \<Rightarrow> AList.update key metric byDay
      | Some existing \<Rightarrow> AList.update key (mergeFields existing metric) byDay)"

definition mergeDailyMetrics :: "DailyMetric list \<Rightarrow> DailyMetric list" where
  "mergeDailyMetrics metrics =
     sort_key DailyMetric.date (map snd (foldl mergeStep [] metrics))"

subsection \<open>Aggregating by month: \<^verbatim>\<open>aggregateByMonth\<close>\<close>

text \<open>
  \<^verbatim>\<open>formatMonthLabel\<close> is imported from \<^verbatim>\<open>@/lib/format\<close>; it is a parameter here.
  \<^verbatim>\<open>a.monthKey.localeCompare(b.monthKey)\<close> on month keys, which are made of digits
  and hyphens, is the lexicographic order of the strings.
\<close>

definition newBucket :: "(string \<Rightarrow> string) \<Rightarrow> string \<Rightarrow> DailyMetric \<Rightarrow> MonthSummary" where
  "newBucket formatMonthLabel mkey metric =
     \<lparr>MonthSummary.monthKey = mkey,
      MonthSummary.label = formatMonthLabel mkey,
      MonthSummary.views = DailyMetric.views metric,
      MonthSummary.likes = DailyMetric.likes metric,
      MonthSummary.comments = DailyMetric.comments metric,
      MonthSummary.reposts = DailyMetric.reposts metric,
      MonthSummary.clicks = DailyMetric.clicks metric,
      MonthSummary.shares = DailyMetric.shares metric,
      MonthSummary.bookmarks = DailyMetric.bookmarks metric,
      MonthSummary.profileVisits = DailyMetric.profileVisits metric,
      MonthSummary.engagements = DailyMetric.engagements metric,
      MonthSummary.videoViews = DailyMetric.videoViews metric,
      MonthSummary.videoWatchViews = DailyMetric.videoWatchViews metric,
      MonthSummary.videoWatchTimeMs = DailyMetric.videoWatchTimeMs metric,
      MonthSummary.videoCompletionRateSum = DailyMetric.videoCompletionRateSum metric,
      MonthSummary.posts = DailyMetric.posts metric,
      MonthSummary.newFollows = DailyMetric.newFollows metric,
      MonthSummary.unfollows = DailyMetric.unfollows metric,
      MonthSummary.days = 1\<rparr>"

definition addToBucket :: "MonthSummary \<Rightarrow> DailyMetric \<Rightarrow> MonthSummary" where
  "addToBucket existing metric =
     existing\<lparr>MonthSummary.views := MonthSummary.views existing + DailyMetric.views metric,
       MonthSummary.likes := MonthSummary.likes existing + DailyMetric.likes metric,
       MonthSummary.comments := MonthSummary.comments existing + DailyMetric.comments metric,
       MonthSummary.reposts := MonthSummary.reposts existing + DailyMetric.reposts metric,
       MonthSummary.clicks := MonthSummary.clicks existing + DailyMetric.clicks metric,
       MonthSummary.shares := MonthSummary.shares existing + DailyMetric.shares metric,
       MonthSummary.bookmarks := MonthSummary.bookmarks existing + DailyMetric.bookmarks metric,
       MonthSummary.profileVisits := MonthSummary.profileVisits existing + DailyMetric.profileVisits metric,
       MonthSummary.engagements := MonthSummary.engagements existing + DailyMetric.engagements metric,
       MonthSummary.videoViews := MonthSummary.videoViews existing + DailyMetric.videoViews metric,
       MonthSummary.videoWatchViews := MonthSummary.videoWatchViews existing + DailyMetric.videoWatchViews metric,
       MonthSummary.videoWatchTimeMs := MonthSummary.videoWatchTimeMs existing + DailyMetric.videoWatchTimeMs metric,
       MonthSummary.videoCompletionRateSum := MonthSummary.videoCompletionRateSum existing + DailyMetric.videoCompletionRateSum metric,
       MonthSummary.posts := MonthSummary.posts existing + DailyMetric.posts metric,
       MonthSummary.newFollows := MonthSummary.newFollows existing + DailyMetric.newFollows metric,
       MonthSummary.unfollows := MonthSummary.unfollows existing + DailyMetric.unfollows metric,
       MonthSummary.days := MonthSummary.days existing + 1\<rparr>"

definition monthStep ::
  "(string \<Rightarrow> string) \<Rightarrow> (string \<times> MonthSummary) list \<Rightarrow> DailyMetric \<Rightarrow> (string \<times> MonthSummary) list" where
  "monthStep formatMonthLabel buckets metric =
     (let mkey = toMonthKey (DailyMetric.date metric) in
      case map_of buckets mkey of
        None \<Rightarrow> AList.update mkey (newBucket formatMonthLabel mkey metric) buckets
      | Some existing \<Rightarrow> AList.update mkey (addToBucket existing metric) buckets)"

definition aggregateByMonth :: "(string \<Rightarrow> string) \<Rightarrow> DailyMetric list \<Rightarrow> MonthSummary list" where
  "aggregateByMonth formatMonthLabel daily =
     sort_key MonthSummary.monthKey (map snd (foldl (monthStep formatMonthLabel) [] daily))"

subsection \<open>Coverage and data quality: \<^verbatim>\<open>buildCoverage\<close>, \<^verbatim>\<open>buildDataQuality\<close>\<close>

text \<open>The field \<^verbatim>\<open>end\<close> of the source is \<open>end'\<close> here.\<close>

record Coverage =
  start :: "int option"
  end' :: "int option"
  days :: nat

record DataQualitySummary =
  label :: string
  coverage :: Coverage
  expectedDays :: "int option"
  missingDays :: "int option"
  zeroViewDays :: nat

definition buildCoverage :: "DailyMetric list \<Rightarrow> Coverage" where
  "buildCoverage daily =
     (if length daily = 0 then \<lparr>Coverage.start = None, Coverage.end' = None, Coverage.days = 0\<rparr>
      else
        let sortedDaily = sort_key DailyMetric.date daily
        in \<lparr>Coverage.start = Some (DailyMetric.date (sortedDaily ! 0)),
            Coverage.end' = Some (DailyMetric.date (sortedDaily ! (length sortedDaily - 1))),
            Coverage.days = length sortedDaily\<rparr>)"

text \<open>
  \<^verbatim>\<open>if (!coverage.start || !coverage.end)\<close>: a \<^verbatim>\<open>Date\<close> object is truthy, so the guard
  fires exactly when a bound is null.
\<close>

definition buildDataQuality :: "string \<Rightarrow> DailyMetric list \<Rightarrow> DataQualitySummary" where
  "buildDataQuality lbl daily =
     (let cov = buildCoverage daily in
      case (Coverage.start cov, Coverage.end' cov) of
        (Some s, Some e) \<Rightarrow>
          (let dayMs = 24 * 60 * 60 * 1000 :: real;
               expected = Math_round ((real_of_int e - real_of_int s) / dayMs) + 1;
               missing = max (expected - int (Coverage.days cov)) 0;
               zeroDays = length (filter (\<lambda>metric. DailyMetric.views metric = 0) daily)
           in \<lparr>DataQualitySummary.label = lbl,
               DataQualitySummary.coverage = cov,
               DataQualitySummary.expectedDays = Some expected,
               DataQualitySummary.missingDays = Some missing,
               DataQualitySummary.zeroViewDays = zeroDays\<rparr>)
      | _ \<Rightarrow>
          \<lparr>DataQualitySummary.label = lbl,
           DataQualitySummary.coverage = cov,
           DataQualitySummary.expectedDays = None,
           DataQualitySummary.missingDays = None,
           DataQualitySummary.zeroViewDays = 0\<rparr>)"

subsection \<open>Deduplicating posts: \<^verbatim>\<open>loadLinkedInPostsData\<close>, \<^verbatim>\<open>loadXPostsData\<close>\<close>

text \<open>
  \<^verbatim>\<open>LinkedInPostRecord = LinkedInPostSummary & { hasTime: boolean }\<close>.  Its
  \<^verbatim>\<open>createdAt\<close> is a \<^verbatim>\<open>Date\<close> object, which can be the Invalid Date: the loader drops
  a row only when the date parser returns \<^verbatim>\<open>null\<close>.
\<close>

record LinkedInPostRecord =
  title :: string
  link :: string
  createdAt :: Date
  impressions :: real
  views :: real
  clicks :: real
  likes :: real
  comments :: real
  reposts :: real
  engagementRate :: "real option"
  contentType :: string
  hasTime :: bool

text \<open>
  \<^verbatim>\<open>XPostSummary\<close>; its field \<^verbatim>\<open>text\<close> is \<open>text'\<close> here, and \<open>None\<close> is the
  \<^verbatim>\<open>null\<close> of \<^verbatim>\<open>createdAt: Date | null\<close>.
\<close>

record XPostSummary =
  text' :: string
  link :: string
  createdAt :: "Date option"
  impressions :: real
  likes :: real
  replies :: real
  reposts :: real
  engagements :: real
  engagementRate :: "real option"

text \<open>
  \<^verbatim>\<open>rawPosts.forEach(body)\<close> for a body that updates a state and can throw: the first
  exception ends the loop.
\<close>

fun forEach :: "('s \<Rightarrow> 'a \<Rightarrow> JsError + 's) \<Rightarrow> 's \<Rightarrow> 'a list \<Rightarrow> JsError + 's" where
  "forEach body s [] = Inr s"
| "forEach body s (x # xs) = (case body s x of Inl err \<Rightarrow> Inl err | Inr s' \<Rightarrow> forEach body s' xs)"

text \<open>
  \<^verbatim>\<open>post.link || `${post.title}-${post.createdAt.toISOString()}`\<close>: the empty string is
  the only falsy string, and the template is evaluated only for an empty link.
\<close>

definition linkedInPostKey :: "LinkedInPostRecord \<Rightarrow> JsError + string" where
  "linkedInPostKey post =
     (if LinkedInPostRecord.link post \<noteq> [] then Inr (LinkedInPostRecord.link post)
      else
        (case toISOString (LinkedInPostRecord.createdAt post) of
           Inl err \<Rightarrow> Inl err
         | Inr stamp \<Rightarrow> Inr (LinkedInPostRecord.title post @ ''-'' @ stamp)))"

definition dedupedPostsStep ::
  "(string \<times> LinkedInPostRecord) list \<Rightarrow> LinkedInPostRecord
    \<Rightarrow> JsError + (string \<times> LinkedInPostRecord) list" where
  "dedupedPostsStep dedupedPosts post =
     (case linkedInPostKey post of
        Inl err \<Rightarrow> Inl err
      | Inr key \<Rightarrow>
          Inr (case map_of dedupedPosts key of
                 None \<Rightarrow> AList.update key post dedupedPosts
               | Some existing \<Rightarrow>
                   if LinkedInPostRecord.impressions post > LinkedInPostRecord.impressions existing
                      \<or> (LinkedInPostRecord.impressions post = LinkedInPostRecord.impressions existing
                          \<and> hasTime post \<and> \<not> hasTime existing)
                   then AList.update key post dedupedPosts
                   else dedupedPosts))"

text \<open>\<^verbatim>\<open>const uniquePosts = Array.from(dedupedPosts.values())\<close>, after the loop.\<close>

definition uniquePosts :: "LinkedInPostRecord list \<Rightarrow> JsError + LinkedInPostRecord list" where
  "uniquePosts rawPosts =
     (case forEach dedupedPostsStep [] rawPosts of
        Inl err \<Rightarrow> Inl err
      | Inr dedupedPosts \<Rightarrow> Inr (map snd dedupedPosts))"

text \<open>\<^verbatim>\<open>post.link || `${post.text}-${post.createdAt?.toISOString() ?? ""}`\<close>\<close>

definition xPostKey :: "XPostSummary \<Rightarrow> JsError + string" where
  "xPostKey post =
     (if XPostSummary.link post \<noteq> [] then Inr (XPostSummary.link post)
      else
        (case XPostSummary.createdAt post of
           None \<Rightarrow> Inr (text' post @ ''-'')
         | Some d \<Rightarrow>
             (case toISOString d of
                Inl err \<Rightarrow> Inl err
              | Inr stamp \<Rightarrow> Inr (text' post @ ''-'' @ stamp))))"

definition dedupedStep ::
  "(string \<times> XPostSummary) list \<Rightarrow> XPostSummary \<Rightarrow> JsError + (string \<times> XPostSummary) list" where
  "dedupedStep deduped post =
     (case xPostKey post of
        Inl err \<Rightarrow> Inl err
      | Inr key \<Rightarrow>
          Inr (case map_of deduped key of
                 None \<Rightarrow> AList.update key post deduped
               | Some existing \<Rightarrow>
                   if XPostSummary.impressions post > XPostSummary.impressions existing
                   then AList.update key post deduped
                   else deduped))"

text \<open>\<^verbatim>\<open>Array.from(deduped.values())\<close>, before the ranking.\<close>

definition dedupedValues :: "XPostSummary list \<Rightarrow> JsError + XPostSummary list" where
  "dedupedValues ps =
     (case forEach dedupedStep [] ps of
        Inl err \<Rightarrow> Inl err
      | Inr deduped \<Rightarrow> Inr (map snd deduped))"

text \<open>
  The tests of the two loops for replacing the stored post \<open>e\<close> by the post \<open>p\<close>, and
  the key of a post as a string (the empty string when the key cannot be computed).
\<close>

definition betterLinkedIn :: "LinkedInPostRecord \<Rightarrow> LinkedInPostRecord \<Rightarrow> bool" where
  "betterLinkedIn p e \<longleftrightarrow>
     LinkedInPostRecord.impressions p > LinkedInPostRecord.impressions e
     \<or> (LinkedInPostRecord.impressions p = LinkedInPostRecord.impressions e \<and> hasTime p \<and> \<not> hasTime e)"

definition betterX :: "XPostSummary \<Rightarrow> XPostSummary \<Rightarrow> bool" where
  "betterX p e \<longleftrightarrow> XPostSummary.impressions p > XPostSummary.impressions e"

definition linkedInKeyText :: "LinkedInPostRecord \<Rightarrow> string" where
  "linkedInKeyText p = (case linkedInPostKey p of Inr key \<Rightarrow> key | Inl err \<Rightarrow> [])"

definition xKeyText :: "XPostSummary \<Rightarrow> string" where
  "xKeyText p = (case xPostKey p of Inr key \<Rightarrow> key | Inl err \<Rightarrow> [])"

subsection \<open>The table extractor: \<^verbatim>\<open>parseCsvWithHeader\<close>\<close>

text \<open>
  The parser \<^verbatim>\<open>parse\<close> of the library \<^verbatim>\<open>csv-parse/sync\<close> is a parameter: it
  returns the grid of cells or throws.  A row record (\<^verbatim>\<open>Record<string, unknown>\<close>) is
  an association list from header to cell in the order of first assignment; the
  assignment \<^verbatim>\<open>acc["__proto__"] = cell\<close> of a string adds no property.
\<close>

datatype CsvError = CsvError string

record ParsedCsv =
  headers :: "string list"
  rows :: "(string \<times> string) list list"

text \<open>\<^verbatim>\<open>findIndex\<close>, with \<open>None\<close> for -1.\<close>

fun findIndex :: "('a \<Rightarrow> bool) \<Rightarrow> 'a list \<Rightarrow> nat option" where
  "findIndex P [] = None"
| "findIndex P (x # xs) = (if P x then Some 0 else map_option Suc (findIndex P xs))"

text \<open>
  \<^verbatim>\<open>headers.reduce((acc, header, index) => { acc[header] = row[index] ?? ""; return acc; }, {})\<close>
\<close>

definition rowRecord :: "string list \<Rightarrow> string list \<Rightarrow> (string \<times> string) list" where
  "rowRecord hdrs cells =
     foldl (\<lambda>acc (header, index).
              if header = ''__proto__'' then acc
              else AList.update header (if index < length cells then cells ! index else []) acc)
       [] (zip hdrs [0 ..< length hdrs])"

text \<open>The body of the \<^verbatim>\<open>try\<close> block: it throws exactly when the parser throws.\<close>

definition parseCsvWithHeader_try ::
  "(string \<Rightarrow> CsvError + string list list) \<Rightarrow> string \<Rightarrow> string \<Rightarrow> CsvError + ParsedCsv" where
  "parseCsvWithHeader_try parseCsv csvText headerLabel =
     (case parseCsv csvText of
        Inl err \<Rightarrow> Inl err
      | Inr rawRows \<Rightarrow>
          (let target = toLowerCase (trim headerLabel) in
           case findIndex (\<lambda>row. list_ex (\<lambda>cell. toLowerCase (trim cell) = target) row) rawRows of
             None \<Rightarrow> Inr \<lparr>headers = [], rows = []\<rparr>
           | Some headerRowIndex \<Rightarrow>
               (let hdrs = map trim (rawRows ! headerRowIndex);
                    recs = map (rowRecord hdrs)
                             (filter (\<lambda>row. list_ex (\<lambda>cell. trim cell \<noteq> []) row)
                                (drop (headerRowIndex + 1) rawRows))
                in Inr \<lparr>headers = hdrs, rows = recs\<rparr>)))"

text \<open>\<^verbatim>\<open>try { ... } catch (error) { return { headers: [], rows: [] }; }\<close>\<close>

definition parseCsvWithHeader ::
  "(string \<Rightarrow> CsvError + string list list) \<Rightarrow> string \<Rightarrow> string \<Rightarrow> ParsedCsv" where
  "parseCsvWithHeader parseCsv csvText headerLabel =
     (case parseCsvWithHeader_try parseCsv csvText headerLabel of
        Inl err \<Rightarrow> \<lparr>headers = [], rows = []\<rparr>
      | Inr res \<Rightarrow> res)"

subsection \<open>Reading cells: \<^verbatim>\<open>pickField\<close>, \<^verbatim>\<open>toNumber\<close>\<close>

text \<open>
  \<^verbatim>\<open>pickField\<close>: the first candidate that is a key of the row; failing that, the first
  candidate that matches a key without regard to case (of keys that differ only in
  case the last one wins); failing that, the empty string.  The cells of a row are
  strings.  The candidates of this file are no members of \<^verbatim>\<open>Object.prototype\<close>, so
  \<^verbatim>\<open>key in row\<close> is membership in the row's own keys.
\<close>

fun pickFirst :: "(string \<times> string) list \<Rightarrow> string list \<Rightarrow> string option" where
  "pickFirst m [] = None"
| "pickFirst m (key # ks) = (case map_of m key of Some v \<Rightarrow> Some v | None \<Rightarrow> pickFirst m ks)"

definition lowerEntries :: "(string \<times> string) list \<Rightarrow> (string \<times> string) list" where
  "lowerEntries row = foldl (\<lambda>m (k, v). AList.update (toLowerCase k) v m) [] row"

definition pickField :: "(string \<times> string) list \<Rightarrow> string list \<Rightarrow> string" where
  "pickField row candidates =
     (case pickFirst row candidates of
        Some v \<Rightarrow> v
      | None \<Rightarrow>
          (case pickFirst (lowerEntries row) (map toLowerCase candidates) of
             Some v \<Rightarrow> v
           | None \<Rightarrow> []))"

text \<open>
  \<^verbatim>\<open>toNumber\<close> of a cell: the empty cell is 0, commas are removed, and a number that
  is not finite is 0.
\<close>

definition toNumber :: "string \<Rightarrow> real" where
  "toNumber v =
     (if v = [] then 0
      else
        let cleaned = trim (filter (\<lambda>c. c \<noteq> CHR '','') v)
        in (case Number cleaned of Finite parsed \<Rightarrow> parsed | _ \<Rightarrow> 0))"

subsection \<open>Platform A daily rows: the mapper of \<^verbatim>\<open>loadXDailyMetrics\<close>\<close>

text \<open>
  The host's part of \<^verbatim>\<open>new Date(string)\<close> and of the local-time getters is a parameter:
  \<open>dateParse\<close> is the time value of \<^verbatim>\<open>new Date(s)\<close> (\<open>None\<close> for an Invalid Date), and
  \<open>localTZA t\<close> is the offset of local time from UTC at \<open>t\<close>, in milliseconds.
\<close>

record Host =
  dateParse :: "string \<Rightarrow> int option"
  localTZA :: "int \<Rightarrow> int"

definition parseXDate :: "Host \<Rightarrow> string \<Rightarrow> int option" where
  "parseXDate host raw =
     (if raw = [] then None
      else
        (case dateParse host raw of
           None \<Rightarrow> None
         | Some parsed \<Rightarrow>
             (let lt = parsed + localTZA host parsed
              in Some (Date_UTC (real_of_int (getUTCFullYear lt)) (real_of_int (getUTCMonth lt))
                         (real_of_int (getUTCDate lt)) 0 0))))"

text \<open>\<^verbatim>\<open>parseXPostDate\<close> on a cell: the host's reading of the text, or \<^verbatim>\<open>null\<close>.\<close>

definition parseXPostDate :: "Host \<Rightarrow> string \<Rightarrow> Date option" where
  "parseXPostDate host raw =
     (if raw = [] then None
      else (case dateParse host raw of None \<Rightarrow> None | Some parsed \<Rightarrow> Some (ValidDate parsed)))"

text \<open>An entry of \<^verbatim>\<open>videoMap\<close>, the video overview of one day.\<close>

record VideoEntry =
  views :: real
  watchTimeMs :: real
  completionRate :: real

text \<open>
  The function given to \<^verbatim>\<open>rows.map\<close> in \<^verbatim>\<open>loadXDailyMetrics\<close>; \<open>None\<close> is the
  \<^verbatim>\<open>null\<close> of a row that is dropped.  \<^verbatim>\<open>baseVideoViews || videoWatchViews\<close> takes
  the right operand exactly when the left one is 0.
\<close>

definition xDailyRow ::
  "Host \<Rightarrow> (string \<times> VideoEntry) list \<Rightarrow> (string \<times> string) list \<Rightarrow> DailyMetric option" where
  "xDailyRow host videoMap row =
     (case parseXDate host (pickField row [''Date'']) of
        None \<Rightarrow> None
      | Some d \<Rightarrow>
          (let video = map_of videoMap (toDayKey d);
               watchViews = (case video of None \<Rightarrow> 0 | Some v \<Rightarrow> VideoEntry.views v);
               watchTime = (case video of None \<Rightarrow> 0 | Some v \<Rightarrow> watchTimeMs v);
               completionSum = (case video of None \<Rightarrow> 0 | Some v \<Rightarrow> completionRate v * VideoEntry.views v);
               baseVideoViews = toNumber (pickField row [''Video views''])
           in Some
             \<lparr>DailyMetric.source = X,
              DailyMetric.date = d,
              DailyMetric.views = toNumber (pickField row [''Impressions'']),
              DailyMetric.likes = toNumber (pickField row [''Likes'']),
              DailyMetric.comments = toNumber (pickField row [''Replies'']),
              DailyMetric.reposts =
                toNumber (pickField row [''Reposts'', ''Retweets''])
                + toNumber (pickField row [''Shares'']),
              DailyMetric.clicks = 0,
              DailyMetric.shares = toNumber (pickField row [''Shares'']),
              DailyMetric.bookmarks = toNumber (pickField row [''Bookmarks'']),
              DailyMetric.profileVisits = toNumber (pickField row [''Profile visits'']),
              DailyMetric.engagements = toNumber (pickField row [''Engagements'']),
              DailyMetric.videoViews = (if baseVideoViews \<noteq> 0 then baseVideoViews else watchViews),
              DailyMetric.videoWatchViews = watchViews,
              DailyMetric.videoWatchTimeMs = watchTime,
              DailyMetric.videoCompletionRateSum = completionSum,
              DailyMetric.posts = toNumber (pickField row [''Create Post'']),
              DailyMetric.newFollows = toNumber (pickField row [''New follows'']),
              DailyMetric.unfollows = toNumber (pickField row [''Unfollows''])\<rparr>))"

subsection \<open>Platform B dates: \<^verbatim>\<open>parseLinkedInDateTime\<close>\<close>

text \<open>
  The argument \<^verbatim>\<open>raw: unknown\<close>: null or undefined, a number, a string, a
  \<^verbatim>\<open>Date\<close> object, or any other value.
\<close>

datatype RawValue = RawNull | RawNumber JsNumber | RawString string | RawDate Date | RawOther

datatype DateFormat = MDY | DMY

definition LINKEDIN_DATE_FORMAT :: DateFormat where
  "LINKEDIN_DATE_FORMAT = MDY"

text \<open>Array destructuring: a missing element is \<^verbatim>\<open>undefined\<close>.\<close>

definition element :: "'a list \<Rightarrow> nat \<Rightarrow> 'a option" where
  "element xs i = (if i < length xs then Some (xs ! i) else None)"

text \<open>
  The hour and minute of the time part, with the AM/PM suffix applied, as the block
  \<^verbatim>\<open>if (timePart && timePart.includes(":")) { ... }\<close> leaves them.  A time part with
  a colon has at least two pieces.
\<close>

definition hourMinute :: "string option \<Rightarrow> string option \<Rightarrow> JsNumber \<times> JsNumber" where
  "hourMinute timePart ampmPart =
     (case timePart of
        None \<Rightarrow> (Finite 0, Finite 0)
      | Some tp \<Rightarrow>
          if tp \<noteq> [] \<and> CHR '':'' \<in> set tp then
            (let pieces = map Number (splitOn (CHR '':'') tp);
                 hour0 = (case element pieces 0 of
                            Some rawHour \<Rightarrow> if rawHour = NaN then Finite 0 else rawHour
                          | None \<Rightarrow> Finite 0);
                 minute = (case element pieces 1 of
                             Some rawMinute \<Rightarrow> if rawMinute = NaN then Finite 0 else rawMinute
                           | None \<Rightarrow> Finite 0);
                 ampm = map_option toUpperCase ampmPart;
                 hour1 = (if ampm = Some ''PM'' \<and> jsLess hour0 (Finite 12)
                          then jsAdd hour0 (Finite 12) else hour0);
                 hour2 = (if ampm = Some ''AM'' \<and> hour1 = Finite 12 then Finite 0 else hour1)
             in (hour2, minute))
          else (Finite 0, Finite 0))"

text \<open>
  \<open>strDate\<close> is \<^verbatim>\<open>new Date(s)\<close> on a string, the host's parser (\<open>None\<close> for an Invalid
  Date).  \<^verbatim>\<open>if (!raw) return null\<close> returns for null, for the numbers 0 and \<^verbatim>\<open>NaN\<close>
  and for the empty string.  A serial is multiplied and added in doubles.  The date
  built from the pieces of a string is returned as it is, also when it is the Invalid
  Date; only the date of the host's parser is tested.
\<close>

definition parseLinkedInDateTime :: "(string \<Rightarrow> int option) \<Rightarrow> RawValue \<Rightarrow> Date option" where
  "parseLinkedInDateTime strDate raw =
     (case raw of
        RawNull \<Rightarrow> None
      | RawOther \<Rightarrow> None
      | RawDate d \<Rightarrow> Some d
      | RawNumber n \<Rightarrow>
          if n = Finite 0 \<or> n = NaN then None
          else
            (let epoch = Date_UTC 1899 11 30 0 0;
                 millis = jsMul (jsMul (jsMul (jsMul n (Finite 24)) (Finite 60)) (Finite 60)) (Finite 1000)
             in Some (newDate (jsAdd (Finite (real_of_int epoch)) millis)))
      | RawString s \<Rightarrow>
          if s = [] then None
          else
            (let trimmed = trim s;
                 parts = splitWhitespace trimmed;
                 datePart = (case element parts 0 of Some p \<Rightarrow> p | None \<Rightarrow> []);
                 timePart = element parts 1;
                 ampmPart = element parts 2;
                 datePieces = splitOn (CHR ''/'') datePart;
                 fallback = (case strDate trimmed of None \<Rightarrow> None | Some t \<Rightarrow> Some (ValidDate t))
             in if length datePieces = 3 then
                  (case map Number datePieces of
                     [p1, p2, p3] \<Rightarrow>
                       (let month = (if LINKEDIN_DATE_FORMAT = MDY then p1 else p2);
                            dayOfMonth = (if LINKEDIN_DATE_FORMAT = MDY then p2 else p1);
                            year = p3
                        in if month = NaN \<or> dayOfMonth = NaN \<or> year = NaN then fallback
                           else
                             (let (hour, minute) = hourMinute timePart ampmPart
                              in Some (newDate (Date_UTC_value year (jsSub month (Finite 1)) dayOfMonth
                                                  hour minute))))
                   | _ \<Rightarrow> fallback)
                else fallback))"

text \<open>
  \<^verbatim>\<open>parseLinkedInDate\<close>: the calendar fields of the Invalid Date are \<^verbatim>\<open>NaN\<close>, and so is
  the date built from them.
\<close>

definition parseLinkedInDate :: "(string \<Rightarrow> int option) \<Rightarrow> RawValue \<Rightarrow> Date option" where
  "parseLinkedInDate strDate raw =
     (case parseLinkedInDateTime strDate raw of
        None \<Rightarrow> None
      | Some InvalidDate \<Rightarrow> Some InvalidDate
      | Some (ValidDate dateTime) \<Rightarrow>
          Some (newDate (Date_UTC_value (Finite (real_of_int (getUTCFullYear dateTime)))
                           (Finite (real_of_int (getUTCMonth dateTime)))
                           (Finite (real_of_int (getUTCDate dateTime))) (Finite 0) (Finite 0))))"

subsection \<open>Example data\<close>

text \<open>A daily record with every counter 0, from which the examples below are built.\<close>

definition emptyDay :: "Platform \<Rightarrow> int \<Rightarrow> DailyMetric" where
  "emptyDay p t =
     \<lparr>DailyMetric.source = p, DailyMetric.date = t,
      DailyMetric.views = 0,
      DailyMetric.likes = 0,
      DailyMetric.comments = 0,
      DailyMetric.reposts = 0,
      DailyMetric.clicks = 0,
      DailyMetric.shares = 0,
      DailyMetric.bookmarks = 0,
      DailyMetric.profileVisits = 0,
      DailyMetric.engagements = 0,
      DailyMetric.videoViews = 0,
      DailyMetric.videoWatchViews = 0,
      DailyMetric.videoWatchTimeMs = 0,
      DailyMetric.videoCompletionRateSum = 0,
      DailyMetric.posts = 0,
      DailyMetric.newFollows = 0,
      DailyMetric.unfollows = 0\<rparr>"

text \<open>
  Two exports of platform A overlap on 2023-01-01: the first reports 100 views and 1
  like, the second 80 views and 7 likes.
\<close>

definition overlapFirst :: DailyMetric where
  "overlapFirst = (emptyDay X 1672531200000)\<lparr>DailyMetric.views := 100, DailyMetric.likes := 1\<rparr>"

definition overlapSecond :: DailyMetric where
  "overlapSecond = (emptyDay X 1672531200000)\<lparr>DailyMetric.views := 80, DailyMetric.likes := 7\<rparr>"

definition overlapMerged :: DailyMetric where
  "overlapMerged = (emptyDay X 1672531200000)\<lparr>DailyMetric.views := 100, DailyMetric.likes := 7\<rparr>"

text \<open>
  Three daily records out of order: one of February 2023 and two of January 2023 (one
  from each platform).
\<close>

definition monthExample :: "DailyMetric list" where
  "monthExample =
     [(emptyDay X (1672531200000 + 31 * 86400000))\<lparr>DailyMetric.views := 7\<rparr>,
      (emptyDay X 1672531200000)\<lparr>DailyMetric.views := 100, DailyMetric.likes := 1\<rparr>,
      (emptyDay LinkedIn (1672531200000 + 86400000))\<lparr>DailyMetric.views := 50, DailyMetric.likes := 3\<rparr>]"

text \<open>
  A series over the ten days 2023-01-01 to 2023-01-10 with no record on the fifth day.
\<close>

definition coverageExample :: "DailyMetric list" where
  "coverageExample =
     map (\<lambda>d. emptyDay X (1672531200000 + d * 86400000)) [0, 1, 2, 3, 5, 6, 7, 8, 9]"

text \<open>
  Posts of platform B, created at 2024-01-15T12:30:00Z: the same permalink exported
  twice with 500 and 800 impressions, a post without permalink exported twice with
  equal impressions, first without and then with its time of day, and another post
  without permalink.  Posts of platform A: the same permalink with 500 and 800
  impressions, and two posts without permalink and without date.
\<close>

definition linkedInPostAt ::
  "Date \<Rightarrow> string \<Rightarrow> string \<Rightarrow> real \<Rightarrow> bool \<Rightarrow> LinkedInPostRecord" where
  "linkedInPostAt d t l i h =
     \<lparr>LinkedInPostRecord.title = t, LinkedInPostRecord.link = l,
      LinkedInPostRecord.createdAt = d, LinkedInPostRecord.impressions = i,
      LinkedInPostRecord.views = 0, LinkedInPostRecord.clicks = 0, LinkedInPostRecord.likes = 0,
      LinkedInPostRecord.comments = 0, LinkedInPostRecord.reposts = 0,
      LinkedInPostRecord.engagementRate = None, LinkedInPostRecord.contentType = ''Image'',
      LinkedInPostRecord.hasTime = h\<rparr>"

definition linkedInPost :: "string \<Rightarrow> string \<Rightarrow> real \<Rightarrow> bool \<Rightarrow> LinkedInPostRecord" where
  "linkedInPost = linkedInPostAt (ValidDate 1705321800000)"

definition linkedInPostsExample :: "LinkedInPostRecord list" where
  "linkedInPostsExample =
     [linkedInPost ''Launch'' ''https://example.com/p1'' 500 False,
      linkedInPost ''Notes'' [] 300 False,
      linkedInPost ''Launch'' ''https://example.com/p1'' 800 False,
      linkedInPost ''Notes'' [] 300 True,
      linkedInPost ''Other'' [] 100 False]"

text \<open>
  The post of a row without permalink whose date cell is \<^verbatim>\<open>1/1/300000\<close>, a date
  beyond the range of time values.
\<close>

definition outOfRangePost :: LinkedInPostRecord where
  "outOfRangePost = linkedInPostAt InvalidDate ''Launch'' [] 500 False"

definition xPost :: "string \<Rightarrow> string \<Rightarrow> real \<Rightarrow> XPostSummary" where
  "xPost t l i =
     \<lparr>text' = t, XPostSummary.link = l, XPostSummary.createdAt = None,
      XPostSummary.impressions = i, XPostSummary.likes = 0, replies = 0,
      XPostSummary.reposts = 0, engagements = 0, XPostSummary.engagementRate = None\<rparr>"

definition xPostsExample :: "XPostSummary list" where
  "xPostsExample =
     [xPost ''hello'' ''https://example.com/s1'' 500,
      xPost ''hello'' ''https://example.com/s1'' 800,
      xPost ''first'' [] 10,
      xPost ''second'' [] 20]"

text \<open>
  Two parsers for the examples: one that throws on every text and one that returns a
  grid without a \<^verbatim>\<open>Date\<close> cell.
\<close>

definition throwingCsv :: "string \<Rightarrow> CsvError + string list list" where
  "throwingCsv t = Inl (CsvError ''Invalid Record Length'')"

definition gridCsv :: "string \<Rightarrow> CsvError + string list list" where
  "gridCsv t = Inr [[''Views'', ''Likes''], [''10'', ''2'']]"

text \<open>
  A host in the UTC time zone that reads the one string \<^verbatim>\<open>2023-01-01\<close>, a video
  overview with 5 views on that day, and daily rows of platform A for that day.
\<close>

definition utcHost :: Host where
  "utcHost = \<lparr>dateParse = (\<lambda>s. if s = ''2023-01-01'' then Some 1672531200000 else None),
              localTZA = (\<lambda>t. 0)\<rparr>"

definition videoExample :: "(string \<times> VideoEntry) list" where
  "videoExample = [(''2023-01-01'', \<lparr>VideoEntry.views = 5, watchTimeMs = 9000, completionRate = 1 / 2\<rparr>)]"

definition zeroVideoViewsRow :: "(string \<times> string) list" where
  "zeroVideoViewsRow = [(''Date'', ''2023-01-01''), (''Impressions'', ''100''), (''Video views'', ''0'')]"

definition sharesRow :: "(string \<times> string) list" where
  "sharesRow =
     [(''Date'', ''2023-01-01''), (''Impressions'', ''100''), (''Retweets'', ''4''),
      (''Shares'', ''3''), (''Video views'', ''7'')]"

text \<open>A host parser of date strings that reads nothing.\<close>

definition noStrDate :: "string \<Rightarrow> int option" where
  "noStrDate s = None"

section \<open>Verified properties\<close>

subsection \<open>Keys identify calendar dates\<close>

lemma digitsValue_snoc: "digitsValue (ds @ [c]) = 10 * digitsValue ds + (of_char c - 48)"
  by (simp add: digitsValue_def)

lemma digit_char:
  assumes "0 \<le> k" "k < (10::int)"
  shows "isDigit (char_of (48 + k))" and "(of_char (char_of (48 + k)) :: int) = 48 + k"
proof -
  have "char_of (int (nat (48 + k))) = char_of (nat (48 + k))" by (rule char_of_nat)
  then have c: "char_of (48 + k) = char_of (nat (48 + k))" using assms by simp
  have "(of_char (char_of (nat (48 + k))) :: nat) = nat (48 + k)"
    using assms by (simp only: of_char_of) simp
  then show "isDigit (char_of (48 + k))"
    using assms by (simp add: isDigit_def less_eq_char_def c) linarith
  show "(of_char (char_of (48 + k)) :: int) = 48 + k"
    using assms by (simp only: of_char_of) simp
qed

lemma showDigits_props:
  "0 \<le> n \<Longrightarrow> showDigits n \<noteq> [] \<and> list_all isDigit (showDigits n) \<and> digitsValue (showDigits n) = n"
proof (induction n rule: showDigits.induct)
  case (1 n)
  show ?case
  proof (cases "n < 10")
    case True
    with "1.prems" digit_char [of n] show ?thesis
      by (simp add: showDigits.simps [of n] digitsValue_def)
  next
    case False
    then have "0 \<le> n div 10" by simp
    with "1.IH" False have ih: "showDigits (n div 10) \<noteq> []"
      "list_all isDigit (showDigits (n div 10))" "digitsValue (showDigits (n div 10)) = n div 10"
      by simp_all
    have d: "0 \<le> n mod 10" "n mod 10 < 10" by simp_all
    from False ih digit_char [OF d] show ?thesis
      by (simp add: showDigits.simps [of n] digitsValue_snoc)
  qed
qed

lemma not_digit_minus: "\<not> isDigit (CHR ''-'')"
  by (simp add: isDigit_def less_eq_char_def)

lemma signedDigits_iff:
  "signedDigits w i \<longleftrightarrow>
     (\<exists>ds. ds \<noteq> [] \<and> list_all isDigit ds
        \<and> ((w = ds \<and> digitsValue ds = i) \<or> (w = CHR ''-'' # ds \<and> - digitsValue ds = i)))"
proof
  assume "signedDigits w i"
  then show "\<exists>ds. ds \<noteq> [] \<and> list_all isDigit ds
        \<and> ((w = ds \<and> digitsValue ds = i) \<or> (w = CHR ''-'' # ds \<and> - digitsValue ds = i))"
    by (cases w) (auto simp: signedDigits_def split: if_splits)
next
  assume "\<exists>ds. ds \<noteq> [] \<and> list_all isDigit ds
        \<and> ((w = ds \<and> digitsValue ds = i) \<or> (w = CHR ''-'' # ds \<and> - digitsValue ds = i))"
  then obtain ds where ds: "ds \<noteq> []" "list_all isDigit ds"
    and w: "(w = ds \<and> digitsValue ds = i) \<or> (w = CHR ''-'' # ds \<and> - digitsValue ds = i)"
    by blast
  from w show "signedDigits w i"
  proof
    assume a: "w = ds \<and> digitsValue ds = i"
    from ds obtain c cs where c: "ds = c # cs" "isDigit c" by (cases ds) auto
    then have "c \<noteq> CHR ''-''" using not_digit_minus by auto
    with a c ds show ?thesis by (simp add: signedDigits_def)
  next
    assume "w = CHR ''-'' # ds \<and> - digitsValue ds = i"
    with ds show ?thesis by (simp add: signedDigits_def)
  qed
qed

lemma digitsValue_zero: "digitsValue (CHR ''0'' # ds) = digitsValue ds"
  by (simp add: digitsValue_def)

lemma digitsValue_zeros: "digitsValue (replicate k (CHR ''0'') @ ds) = digitsValue ds"
  by (induction k) (simp_all add: digitsValue_zero)

lemma isDigit_zero: "isDigit (CHR ''0'')"
  by (simp add: isDigit_def)

lemma signedDigits_showInt: "signedDigits (showInt i) i"
proof (cases "i < 0")
  case True
  then have "0 \<le> - i" by simp
  from showDigits_props [OF this] True show ?thesis
    by (auto simp: signedDigits_iff showInt_def)
next
  case False
  then have "0 \<le> i" by simp
  from showDigits_props [OF this] False show ?thesis
    by (auto simp: signedDigits_iff showInt_def)
qed

lemma signedDigits_padStart: "signedDigits (padStart 2 (showInt i)) i"
proof (cases "i < 0")
  case True
  then have "0 \<le> - i" by simp
  from showDigits_props [OF this] have ne: "showDigits (- i) \<noteq> []" by simp
  then have "2 \<le> length (showInt i)" using True by (cases "showDigits (- i)") (simp_all add: showInt_def)
  then have "padStart 2 (showInt i) = showInt i" by (simp add: padStart_def)
  then show ?thesis by (simp add: signedDigits_showInt)
next
  case False
  then have "0 \<le> i" by simp
  from showDigits_props [OF this] have p: "showDigits i \<noteq> []" "list_all isDigit (showDigits i)"
    "digitsValue (showDigits i) = i" by simp_all
  let ?ds = "replicate (2 - length (showDigits i)) (CHR ''0'') @ showDigits i"
  have "padStart 2 (showInt i) = ?ds" using False by (simp add: padStart_def showInt_def)
  moreover have "?ds \<noteq> []" using p by simp
  moreover have "list_all isDigit ?ds" using p by (auto simp: list_all_iff isDigit_zero)
  moreover have "digitsValue ?ds = i" using p by (simp only: digitsValue_zeros)
  ultimately show ?thesis unfolding signedDigits_iff by metis
qed

lemma decodeInt_signedDigits: "signedDigits w i \<Longrightarrow> decodeInt w = i"
  by (auto simp: signedDigits_iff decodeInt_def not_digit_minus split: list.splits)

lemma signedDigits_last: "signedDigits w i \<Longrightarrow> w \<noteq> [] \<and> isDigit (last w)"
  by (auto simp: signedDigits_iff list_all_iff)

lemma splitLast_token:
  assumes y: "y \<noteq> []" "isDigit (last y)" and tok: "signedDigits w i"
  shows "splitLast (y @ CHR ''-'' # w) = (i, y)"
proof -
  from tok obtain ds where ds: "ds \<noteq> []" "list_all isDigit ds"
    and w: "(w = ds \<and> digitsValue ds = i) \<or> (w = CHR ''-'' # ds \<and> - digitsValue ds = i)"
    unfolding signedDigits_iff by blast
  from y obtain c cs where ry: "rev y = c # cs" and c: "isDigit c"
    by (cases y rule: rev_cases) auto
  have all: "\<And>x. x \<in> set (rev ds) \<Longrightarrow> isDigit x" using ds by (simp add: list_all_iff)
  have tw: "takeWhile isDigit (rev ds @ CHR ''-'' # zs) = rev ds" for zs
    using takeWhile_append2 [of "rev ds" isDigit "CHR ''-'' # zs", OF all]
    by (simp add: not_digit_minus)
  have dw: "dropWhile isDigit (rev ds @ CHR ''-'' # zs) = CHR ''-'' # zs" for zs
    using dropWhile_append2 [of "rev ds" isDigit "CHR ''-'' # zs", OF all]
    by (simp add: not_digit_minus)
  from w show ?thesis
  proof
    assume a: "w = ds \<and> digitsValue ds = i"
    then have r: "rev (y @ CHR ''-'' # w) = rev ds @ CHR ''-'' # c # cs" by (simp add: ry)
    note t = tw [of "c # cs"] and d = dw [of "c # cs"]
    have "c \<noteq> CHR ''-''" using c not_digit_minus by auto
    then have "splitLast (y @ CHR ''-'' # w) = (digitsValue ds, rev (c # cs))"
      unfolding splitLast_def Let_def r t d by simp
    moreover have "rev (c # cs) = y" by (simp only: ry [symmetric] rev_rev_ident)
    ultimately show ?thesis using a by simp
  next
    assume a: "w = CHR ''-'' # ds \<and> - digitsValue ds = i"
    then have r: "rev (y @ CHR ''-'' # w) = rev ds @ CHR ''-'' # CHR ''-'' # rev y" by simp
    note t = tw [of "CHR ''-'' # rev y"] and d = dw [of "CHR ''-'' # rev y"]
    have "splitLast (y @ CHR ''-'' # w) = (- digitsValue ds, rev (rev y))"
      unfolding splitLast_def Let_def r t d by simp
    then show ?thesis using a by simp
  qed
qed

lemma decodeMonthKey_toMonthKey:
  "decodeMonthKey (toMonthKey t) = (getUTCFullYear t, getUTCMonth t + 1)"
proof -
  have y: "showInt (getUTCFullYear t) \<noteq> []" "isDigit (last (showInt (getUTCFullYear t)))"
    using signedDigits_last [OF signedDigits_showInt] by simp_all
  have k: "toMonthKey t = showInt (getUTCFullYear t) @ CHR ''-'' # padStart 2 (showInt (getUTCMonth t + 1))"
    by (simp add: toMonthKey_def Let_def)
  have s1: "splitLast (toMonthKey t) = (getUTCMonth t + 1, showInt (getUTCFullYear t))"
    unfolding k by (rule splitLast_token [OF y signedDigits_padStart])
  show ?thesis
    by (simp add: decodeMonthKey_def s1 decodeInt_signedDigits [OF signedDigits_showInt])
qed

lemma decodeDayKey_toDayKey:
  "decodeDayKey (toDayKey t) = (getUTCFullYear t, getUTCMonth t + 1, getUTCDate t)"
proof -
  let ?ym = "showInt (getUTCFullYear t) @ CHR ''-'' # padStart 2 (showInt (getUTCMonth t + 1))"
  have y: "showInt (getUTCFullYear t) \<noteq> []" "isDigit (last (showInt (getUTCFullYear t)))"
    using signedDigits_last [OF signedDigits_showInt] by simp_all
  have m: "padStart 2 (showInt (getUTCMonth t + 1)) \<noteq> []"
    "isDigit (last (padStart 2 (showInt (getUTCMonth t + 1))))"
    using signedDigits_last [OF signedDigits_padStart] by simp_all
  then have ym: "?ym \<noteq> []" "isDigit (last ?ym)" by simp_all
  have k: "toDayKey t = ?ym @ CHR ''-'' # padStart 2 (showInt (getUTCDate t))"
    by (simp add: toDayKey_def Let_def)
  have s1: "splitLast (toDayKey t) = (getUTCDate t, ?ym)"
    unfolding k by (rule splitLast_token [OF ym signedDigits_padStart])
  have s2: "splitLast ?ym = (getUTCMonth t + 1, showInt (getUTCFullYear t))"
    by (rule splitLast_token [OF y signedDigits_padStart])
  show ?thesis
    by (simp only: decodeDayKey_def s1 s2 prod.case
        decodeInt_signedDigits [OF signedDigits_showInt])
qed

lemma toMonthKey_eq_iff:
  "toMonthKey a = toMonthKey b \<longleftrightarrow>
     getUTCFullYear a = getUTCFullYear b \<and> getUTCMonth a = getUTCMonth b"
proof
  assume "toMonthKey a = toMonthKey b"
  then have "decodeMonthKey (toMonthKey a) = decodeMonthKey (toMonthKey b)" by simp
  then show "getUTCFullYear a = getUTCFullYear b \<and> getUTCMonth a = getUTCMonth b"
    by (simp add: decodeMonthKey_toMonthKey)
next
  assume "getUTCFullYear a = getUTCFullYear b \<and> getUTCMonth a = getUTCMonth b"
  then show "toMonthKey a = toMonthKey b" by (simp add: toMonthKey_def)
qed

lemma toDayKey_eq_iff:
  "toDayKey a = toDayKey b \<longleftrightarrow>
     getUTCFullYear a = getUTCFullYear b \<and> getUTCMonth a = getUTCMonth b
     \<and> getUTCDate a = getUTCDate b"
proof
  assume "toDayKey a = toDayKey b"
  then have "decodeDayKey (toDayKey a) = decodeDayKey (toDayKey b)" by simp
  then show "getUTCFullYear a = getUTCFullYear b \<and> getUTCMonth a = getUTCMonth b
     \<and> getUTCDate a = getUTCDate b"
    by (simp add: decodeDayKey_toDayKey)
next
  assume "getUTCFullYear a = getUTCFullYear b \<and> getUTCMonth a = getUTCMonth b
     \<and> getUTCDate a = getUTCDate b"
  then show "toDayKey a = toDayKey b" by (simp add: toDayKey_def)
qed

subsection \<open>Grouping, merging\<close>

lemma map_of_groupStep:
  "map_of (groupStep key init comb al x) k =
     (if key x = k then Some (case map_of al k of None \<Rightarrow> init x | Some e \<Rightarrow> comb e x)
      else map_of al k)"
  by (auto simp: groupStep_def update_conv')

lemma groupFold_map_of:
  "map_of (foldl (groupStep key init comb) al xs) k =
     (case map_of al k of
        Some e \<Rightarrow> Some (foldl comb e (filter (\<lambda>x. key x = k) xs))
      | None \<Rightarrow> (case filter (\<lambda>x. key x = k) xs of
                   [] \<Rightarrow> None
                 | x # ys \<Rightarrow> Some (foldl comb (init x) ys)))"
proof (induction xs arbitrary: al)
  case Nil
  then show ?case by (simp split: option.splits)
next
  case (Cons x xs)
  show ?case
    by (simp add: Cons.IH map_of_groupStep split: option.splits)
qed

lemma groupFold_keys:
  "fst ` set (foldl (groupStep key init comb) al xs) = fst ` set al \<union> key ` set xs"
proof (induction xs arbitrary: al)
  case Nil
  then show ?case by simp
next
  case (Cons x xs)
  have "fst ` set (groupStep key init comb al x) = insert (key x) (fst ` set al)"
    by (simp add: groupStep_def dom_update)
  then show ?case by (simp add: Cons.IH)
qed

lemma groupFold_distinct:
  "distinct (map fst al) \<Longrightarrow> distinct (map fst (foldl (groupStep key init comb) al xs))"
proof (induction xs arbitrary: al)
  case Nil
  then show ?case by simp
next
  case (Cons x xs)
  have "distinct (map fst (groupStep key init comb al x))"
    using Cons.prems by (simp add: groupStep_def distinct_update)
  then show ?case by (simp add: Cons.IH)
qed



lemma keyed_values:
  "\<forall>(k, v) \<in> set al. key v = k \<Longrightarrow> map key (map snd al) = map fst al"
  by (induction al) auto

lemma getField_mergeFields:
  "getField f (mergeFields e m) = max (getField f e) (getField f m)"
  by (cases f) (simp_all add: mergeFields_def METRIC_KEYS_def)

lemma metricKey_mergeFields: "metricKey (mergeFields e m) = metricKey e"
  by (simp add: mergeFields_def METRIC_KEYS_def metricKey_def)

lemma date_mergeFields: "DailyMetric.date (mergeFields e m) = DailyMetric.date e"
  by (simp add: mergeFields_def METRIC_KEYS_def)

lemma mergeStep_groupStep: "mergeStep = groupStep metricKey (\<lambda>m. m) mergeFields"
  by (intro ext) (simp add: mergeStep_def groupStep_def Let_def split: option.splits)

lemma getField_foldl_mergeFields:
  "getField f (foldl mergeFields x ys) = Max (getField f ` set (x # ys))"
proof -
  have "getField f (foldl mergeFields x ys) = fold max (map (getField f) ys) (getField f x)"
    by (induction ys arbitrary: x) (simp_all add: getField_mergeFields max.commute)
  also have "\<dots> = Max (set (getField f x # map (getField f) ys))"
    by (simp only: Max.set_eq_fold)
  finally show ?thesis by simp
qed

lemma metricKey_foldl_mergeFields: "metricKey (foldl mergeFields x ys) = metricKey x"
  by (induction ys arbitrary: x) (simp_all add: metricKey_mergeFields)


lemma metricKey_eq_iff:
  "metricKey a = metricKey b \<longleftrightarrow>
     DailyMetric.source a = DailyMetric.source b
     \<and> getUTCFullYear (DailyMetric.date a) = getUTCFullYear (DailyMetric.date b)
     \<and> getUTCMonth (DailyMetric.date a) = getUTCMonth (DailyMetric.date b)
     \<and> getUTCDate (DailyMetric.date a) = getUTCDate (DailyMetric.date b)"
proof -
  have "metricKey a = metricKey b \<longleftrightarrow>
     DailyMetric.source a = DailyMetric.source b
     \<and> toDayKey (DailyMetric.date a) = toDayKey (DailyMetric.date b)"
    by (cases "DailyMetric.source a"; cases "DailyMetric.source b") (simp_all add: metricKey_def)
  then show ?thesis by (simp only: toDayKey_eq_iff)
qed

lemma mergeMap_distinct: "distinct (map fst (foldl mergeStep [] ms))"
  by (simp add: mergeStep_groupStep groupFold_distinct)

lemma mergeMap_keys: "fst ` set (foldl mergeStep [] ms) = metricKey ` set ms"
  by (simp add: mergeStep_groupStep groupFold_keys)

lemma mergeMap_entry:
  assumes "(k, v) \<in> set (foldl mergeStep [] ms)"
  shows "metricKey v = k"
    and "getField f v = Max (getField f ` {m \<in> set ms. metricKey m = k})"
proof -
  from assms have "map_of (foldl mergeStep [] ms) k = Some v"
    by (simp add: mergeMap_distinct)
  then have "(case filter (\<lambda>m. metricKey m = k) ms of
                [] \<Rightarrow> None | x # ys \<Rightarrow> Some (foldl mergeFields x ys)) = Some v"
    by (simp add: mergeStep_groupStep groupFold_map_of)
  then obtain x ys where grp: "filter (\<lambda>m. metricKey m = k) ms = x # ys"
    and v: "v = foldl mergeFields x ys"
    by (auto split: list.splits)
  have "x \<in> set (filter (\<lambda>m. metricKey m = k) ms)" by (simp add: grp)
  then have "metricKey x = k" by simp
  then show "metricKey v = k" by (simp add: v metricKey_foldl_mergeFields)
  have "set (x # ys) = {m \<in> set ms. metricKey m = k}"
    by (simp only: grp [symmetric] set_filter)
  then show "getField f v = Max (getField f ` {m \<in> set ms. metricKey m = k})"
    by (simp only: v getField_foldl_mergeFields)
qed

lemma mergeMap_values_keys:
  "map metricKey (map snd (foldl mergeStep [] ms)) = map fst (foldl mergeStep [] ms)"
  by (rule keyed_values) (auto dest: mergeMap_entry(1))

lemma distinct_map_sort_key:
  "distinct (map g (sort_key f xs)) = distinct (map g xs)"
proof -
  have "mset (map g (sort_key f xs)) = mset (map g xs)" by simp
  then show ?thesis by (rule mset_eq_imp_distinct_iff)
qed


lemma mergeDailyMetrics_distinct_keys: "distinct (map metricKey (mergeDailyMetrics ms))"
  by (simp only: mergeDailyMetrics_def distinct_map_sort_key mergeMap_values_keys
      mergeMap_distinct)

text \<open>
  C1.  Merging keeps exactly one record for every (platform, day) key of the input, and
  each of its 16 counters is the maximum of that counter over the input records with
  that key.  Two records have the same key exactly when they have the same platform
  and the same UTC year, month and day of month.
\<close>

theorem mergeDailyMetrics_max:
  "distinct (map metricKey (mergeDailyMetrics ms))
   \<and> set (map metricKey (mergeDailyMetrics ms)) = metricKey ` set ms
   \<and> (\<forall>r \<in> set (mergeDailyMetrics ms). \<forall>f.
         getField f r = Max (getField f ` {m \<in> set ms. metricKey m = metricKey r}))
   \<and> (\<forall>a b. metricKey a = metricKey b \<longleftrightarrow>
         DailyMetric.source a = DailyMetric.source b
         \<and> getUTCFullYear (DailyMetric.date a) = getUTCFullYear (DailyMetric.date b)
         \<and> getUTCMonth (DailyMetric.date a) = getUTCMonth (DailyMetric.date b)
         \<and> getUTCDate (DailyMetric.date a) = getUTCDate (DailyMetric.date b))"
proof (intro conjI ballI allI)
  fix a b
  show "metricKey a = metricKey b \<longleftrightarrow>
         DailyMetric.source a = DailyMetric.source b
         \<and> getUTCFullYear (DailyMetric.date a) = getUTCFullYear (DailyMetric.date b)
         \<and> getUTCMonth (DailyMetric.date a) = getUTCMonth (DailyMetric.date b)
         \<and> getUTCDate (DailyMetric.date a) = getUTCDate (DailyMetric.date b)"
    by (rule metricKey_eq_iff)
next
  show "distinct (map metricKey (mergeDailyMetrics ms))"
    by (rule mergeDailyMetrics_distinct_keys)
  have "set (map metricKey (mergeDailyMetrics ms)) = set (map metricKey (map snd (foldl mergeStep [] ms)))"
    by (simp add: mergeDailyMetrics_def image_image)
  also have "\<dots> = metricKey ` set ms"
    unfolding mergeMap_values_keys by (simp add: mergeMap_keys)
  finally show "set (map metricKey (mergeDailyMetrics ms)) = metricKey ` set ms" .
next
  fix r f
  assume "r \<in> set (mergeDailyMetrics ms)"
  then obtain k where kv: "(k, r) \<in> set (foldl mergeStep [] ms)"
    by (auto simp: mergeDailyMetrics_def)
  from mergeMap_entry(1) [OF kv] mergeMap_entry(2) [OF kv, of f]
  show "getField f r = Max (getField f ` {m \<in> set ms. metricKey m = metricKey r})"
    by simp
qed

text \<open>
  The overlapping day of the two exports: one record survives, with 100 views (the
  maximum of 100 and 80, not their sum 180) and 7 likes.
\<close>

theorem mergeDailyMetrics_max_witness:
  "mergeDailyMetrics [overlapFirst, overlapSecond] = [overlapMerged]
   \<and> overlapMerged \<in> set (mergeDailyMetrics [overlapFirst, overlapSecond])
   \<and> getField Views overlapMerged
       = Max (getField Views ` {m \<in> set [overlapFirst, overlapSecond]. metricKey m = metricKey overlapMerged})
   \<and> getField Views overlapMerged = 100"
proof -
  have e: "mergeDailyMetrics [overlapFirst, overlapSecond] = [overlapMerged]"
    by code_simp
  have m: "overlapMerged \<in> set (mergeDailyMetrics [overlapFirst, overlapSecond])"
    by (simp add: e)
  from mergeDailyMetrics_max [of "[overlapFirst, overlapSecond]"] m
  have "getField Views overlapMerged
       = Max (getField Views ` {m \<in> set [overlapFirst, overlapSecond]. metricKey m = metricKey overlapMerged})"
    by blast
  moreover have "getField Views overlapMerged = 100"
    by (simp add: overlapMerged_def)
  ultimately show ?thesis using e m by simp
qed


subsection \<open>Aggregating by month\<close>

lemma monthStep_groupStep:
  "monthStep fml = groupStep (\<lambda>m. toMonthKey (DailyMetric.date m))
     (\<lambda>m. newBucket fml (toMonthKey (DailyMetric.date m)) m) addToBucket"
  by (intro ext) (simp add: monthStep_def groupStep_def Let_def split: option.splits)

lemma monthField_newBucket: "monthField f (newBucket fml k m) = getField f m"
  by (cases f) (simp_all add: newBucket_def)

lemma monthField_addToBucket: "monthField f (addToBucket e m) = monthField f e + getField f m"
  by (cases f) (simp_all add: addToBucket_def)

lemma monthField_foldl_addToBucket:
  "monthField f (foldl addToBucket b ys) = monthField f b + sum_list (map (getField f) ys)"
  by (induction ys arbitrary: b) (simp_all add: monthField_addToBucket)

lemma days_foldl_addToBucket:
  "MonthSummary.days (foldl addToBucket b ys) = MonthSummary.days b + length ys"
  by (induction ys arbitrary: b) (simp_all add: addToBucket_def)

lemma monthKey_foldl_addToBucket:
  "MonthSummary.monthKey (foldl addToBucket b ys) = MonthSummary.monthKey b"
  by (induction ys arbitrary: b) (simp_all add: addToBucket_def)

lemma monthMap_distinct: "distinct (map fst (foldl (monthStep fml) [] daily))"
  by (simp add: monthStep_groupStep groupFold_distinct)

lemma monthMap_keys:
  "fst ` set (foldl (monthStep fml) [] daily) = (\<lambda>m. toMonthKey (DailyMetric.date m)) ` set daily"
  by (simp add: monthStep_groupStep groupFold_keys)

lemma monthMap_entry:
  assumes "(k, s) \<in> set (foldl (monthStep fml) [] daily)"
  shows "MonthSummary.monthKey s = k"
    and "monthField f s
          = sum_list (map (getField f) (filter (\<lambda>m. toMonthKey (DailyMetric.date m) = k) daily))"
    and "MonthSummary.days s = length (filter (\<lambda>m. toMonthKey (DailyMetric.date m) = k) daily)"
proof -
  let ?grp = "filter (\<lambda>m. toMonthKey (DailyMetric.date m) = k) daily"
  from assms have "map_of (foldl (monthStep fml) [] daily) k = Some s"
    by (simp add: monthMap_distinct)
  then have "(case ?grp of
                [] \<Rightarrow> None
              | x # ys \<Rightarrow> Some (foldl addToBucket (newBucket fml (toMonthKey (DailyMetric.date x)) x) ys)) = Some s"
    by (simp add: monthStep_groupStep groupFold_map_of)
  then obtain x ys where grp: "?grp = x # ys"
    and s: "s = foldl addToBucket (newBucket fml (toMonthKey (DailyMetric.date x)) x) ys"
    by (auto split: list.splits)
  have "x \<in> set ?grp" by (simp add: grp)
  then have kx: "toMonthKey (DailyMetric.date x) = k" by simp
  show "MonthSummary.monthKey s = k"
    by (simp add: s monthKey_foldl_addToBucket kx newBucket_def)
  show "monthField f s = sum_list (map (getField f) ?grp)"
    by (simp add: s grp monthField_foldl_addToBucket monthField_newBucket)
  show "MonthSummary.days s = length ?grp"
    by (simp add: s grp days_foldl_addToBucket newBucket_def)
qed

lemma monthMap_values_keys:
  "map MonthSummary.monthKey (map snd (foldl (monthStep fml) [] daily))
     = map fst (foldl (monthStep fml) [] daily)"
  by (rule keyed_values) (auto dest: monthMap_entry(1))

text \<open>
  C2.  Month aggregation gives one summary per month key of the input, sorted ascending
  by month key; each of the 16 counters of a summary is the sum of that counter over
  the daily records of its month, and \<open>days\<close> is their number.  Two dates have the
  same month key exactly when they have the same UTC year and month.
\<close>

theorem aggregateByMonth_sums:
  "sorted (map MonthSummary.monthKey (aggregateByMonth fml daily))
   \<and> distinct (map MonthSummary.monthKey (aggregateByMonth fml daily))
   \<and> set (map MonthSummary.monthKey (aggregateByMonth fml daily))
       = (\<lambda>m. toMonthKey (DailyMetric.date m)) ` set daily
   \<and> (\<forall>s \<in> set (aggregateByMonth fml daily).
        (\<forall>f. monthField f s
              = sum_list (map (getField f)
                  (filter (\<lambda>m. toMonthKey (DailyMetric.date m) = MonthSummary.monthKey s) daily)))
        \<and> MonthSummary.days s
            = length (filter (\<lambda>m. toMonthKey (DailyMetric.date m) = MonthSummary.monthKey s) daily))
   \<and> (\<forall>a b. toMonthKey a = toMonthKey b \<longleftrightarrow>
         getUTCFullYear a = getUTCFullYear b \<and> getUTCMonth a = getUTCMonth b)"
proof (intro conjI ballI allI)
  fix a b
  show "toMonthKey a = toMonthKey b \<longleftrightarrow>
         getUTCFullYear a = getUTCFullYear b \<and> getUTCMonth a = getUTCMonth b"
    by (rule toMonthKey_eq_iff)
next
  show "sorted (map MonthSummary.monthKey (aggregateByMonth fml daily))"
    by (simp add: aggregateByMonth_def)
  show "distinct (map MonthSummary.monthKey (aggregateByMonth fml daily))"
    by (simp only: aggregateByMonth_def distinct_map_sort_key monthMap_values_keys
        monthMap_distinct)
  have "set (map MonthSummary.monthKey (aggregateByMonth fml daily))
      = set (map MonthSummary.monthKey (map snd (foldl (monthStep fml) [] daily)))"
    by (simp add: aggregateByMonth_def image_image)
  also have "\<dots> = (\<lambda>m. toMonthKey (DailyMetric.date m)) ` set daily"
    unfolding monthMap_values_keys by (simp add: monthMap_keys)
  finally show "set (map MonthSummary.monthKey (aggregateByMonth fml daily))
       = (\<lambda>m. toMonthKey (DailyMetric.date m)) ` set daily" .
next
  fix s f
  assume "s \<in> set (aggregateByMonth fml daily)"
  then obtain k where ks: "(k, s) \<in> set (foldl (monthStep fml) [] daily)"
    by (auto simp: aggregateByMonth_def)
  from monthMap_entry(1) [OF ks] monthMap_entry(2) [OF ks, of f]
  show "monthField f s
        = sum_list (map (getField f)
            (filter (\<lambda>m. toMonthKey (DailyMetric.date m) = MonthSummary.monthKey s) daily))"
    by simp
next
  fix s
  assume "s \<in> set (aggregateByMonth fml daily)"
  then obtain k where ks: "(k, s) \<in> set (foldl (monthStep fml) [] daily)"
    by (auto simp: aggregateByMonth_def)
  from monthMap_entry(1) [OF ks] monthMap_entry(3) [OF ks]
  show "MonthSummary.days s
        = length (filter (\<lambda>m. toMonthKey (DailyMetric.date m) = MonthSummary.monthKey s) daily)"
    by simp
qed

theorem aggregateByMonth_sums_witness:
  "map (\<lambda>s. (MonthSummary.monthKey s, MonthSummary.views s, MonthSummary.days s))
       (aggregateByMonth (\<lambda>k. k) monthExample)
     = [(''2023-01'', 150, 2), (''2023-02'', 7, 1)]
   \<and> hd (aggregateByMonth (\<lambda>k. k) monthExample) \<in> set (aggregateByMonth (\<lambda>k. k) monthExample)
   \<and> monthField Views (hd (aggregateByMonth (\<lambda>k. k) monthExample))
       = sum_list (map (getField Views)
           (filter (\<lambda>m. toMonthKey (DailyMetric.date m) = ''2023-01'') monthExample))
   \<and> sorted (map MonthSummary.monthKey (aggregateByMonth (\<lambda>k. k) monthExample))"
proof -
  let ?out = "aggregateByMonth (\<lambda>k. k) monthExample"
  have e: "map (\<lambda>s. (MonthSummary.monthKey s, MonthSummary.views s, MonthSummary.days s)) ?out
      = [(''2023-01'', 150, 2), (''2023-02'', 7, 1)]"
    by code_simp
  then have ne: "?out \<noteq> []" by auto
  then have m: "hd ?out \<in> set ?out" by simp
  have k: "MonthSummary.monthKey (hd ?out) = ''2023-01''"
    using e ne by (cases ?out) auto
  from aggregateByMonth_sums [of "\<lambda>k. k" monthExample] m
  have "monthField Views (hd ?out)
      = sum_list (map (getField Views)
          (filter (\<lambda>m. toMonthKey (DailyMetric.date m) = MonthSummary.monthKey (hd ?out)) monthExample))"
    by blast
  moreover from aggregateByMonth_sums [of "\<lambda>k. k" monthExample]
  have "sorted (map MonthSummary.monthKey ?out)" by blast
  ultimately show ?thesis using e m k by simp
qed

subsection \<open>Deduplicating posts\<close>

lemma foldl_keep_better:
  fixes better :: "'a \<Rightarrow> 'a \<Rightarrow> bool"
  assumes tr: "\<And>a b c. better b a \<Longrightarrow> better c b \<Longrightarrow> better c a"
    and ng: "\<And>a b c. \<not> better b a \<Longrightarrow> better c a \<Longrightarrow> better c b"
  shows "\<exists>pre suf. x # ys = pre @ foldl (\<lambda>e p. if better p e then p else e) x ys # suf
           \<and> (\<forall>p \<in> set pre. better (foldl (\<lambda>e p. if better p e then p else e) x ys) p)
           \<and> (\<forall>p \<in> set suf. \<not> better p (foldl (\<lambda>e p. if better p e then p else e) x ys))"
proof (induction ys arbitrary: x)
  case Nil
  have "[x] = [] @ x # [] \<and> (\<forall>p \<in> set []. better x p) \<and> (\<forall>p \<in> set []. \<not> better p x)"
    by simp
  then show ?case unfolding foldl_Nil by blast
next
  case (Cons y ys)
  let ?c = "\<lambda>e p. if better p e then p else e"
  show ?case
  proof (cases "better y x")
    case True
    from Cons.IH [of y] obtain pre suf where
      sp: "y # ys = pre @ foldl ?c y ys # suf"
      and pr: "\<forall>p \<in> set pre. better (foldl ?c y ys) p"
      and su: "\<forall>p \<in> set suf. \<not> better p (foldl ?c y ys)"
      by blast
    have "y = foldl ?c y ys \<or> y \<in> set pre"
      using sp by (cases pre) auto
    then have "better (foldl ?c y ys) x"
    proof
      assume "y = foldl ?c y ys"
      with True show ?thesis by simp
    next
      assume "y \<in> set pre"
      with pr have "better (foldl ?c y ys) y" by blast
      with True show ?thesis by (rule tr)
    qed
    moreover have "foldl ?c x (y # ys) = foldl ?c y ys" using True by simp
    ultimately have "x # y # ys = (x # pre) @ foldl ?c x (y # ys) # suf
        \<and> (\<forall>p \<in> set (x # pre). better (foldl ?c x (y # ys)) p)
        \<and> (\<forall>p \<in> set suf. \<not> better p (foldl ?c x (y # ys)))"
      using sp [symmetric] pr su by simp
    then show ?thesis by blast
  next
    case False
    from Cons.IH [of x] obtain pre suf where
      sp: "x # ys = pre @ foldl ?c x ys # suf"
      and pr: "\<forall>p \<in> set pre. better (foldl ?c x ys) p"
      and su: "\<forall>p \<in> set suf. \<not> better p (foldl ?c x ys)"
      by blast
    have keep: "foldl ?c x (y # ys) = foldl ?c x ys" using False by simp
    show ?thesis
    proof (cases pre)
      case Nil
      have e: "x # ys = foldl ?c x ys # suf" using sp unfolding Nil append_Nil .
      have vx: "foldl ?c x ys = x"
        using e by (rule list.inject [THEN iffD1, THEN conjunct1, symmetric])
      have suf: "suf = ys"
        using e by (rule list.inject [THEN iffD1, THEN conjunct2, symmetric])
      have "x # y # ys = [] @ foldl ?c x (y # ys) # (y # ys)
          \<and> (\<forall>p \<in> set []. better (foldl ?c x (y # ys)) p)
          \<and> (\<forall>p \<in> set (y # ys). \<not> better p (foldl ?c x (y # ys)))"
        using False su unfolding keep vx suf by simp
      then show ?thesis by blast
    next
      case (Cons a pre')
      have e: "x # ys = a # (pre' @ foldl ?c x ys # suf)" using sp unfolding Cons append_Cons .
      have ax: "a = x"
        using e by (rule list.inject [THEN iffD1, THEN conjunct1, symmetric])
      have ys: "pre' @ foldl ?c x ys # suf = ys"
        using e by (rule list.inject [THEN iffD1, THEN conjunct2, symmetric])
      have "better (foldl ?c x ys) x" using pr Cons ax by simp
      with False have vy: "better (foldl ?c x ys) y" by (rule ng)
      have "x # y # ys = (x # y # pre') @ foldl ?c x (y # ys) # suf
          \<and> (\<forall>p \<in> set (x # y # pre'). better (foldl ?c x (y # ys)) p)
          \<and> (\<forall>p \<in> set suf. \<not> better p (foldl ?c x (y # ys)))"
        using vy ys pr su Cons ax unfolding keep by simp
      then show ?thesis by blast
    qed
  qed
qed

lemma keep_better_entry:
  fixes better :: "'a \<Rightarrow> 'a \<Rightarrow> bool"
  assumes tr: "\<And>a b c. better b a \<Longrightarrow> better c b \<Longrightarrow> better c a"
    and ng: "\<And>a b c. \<not> better b a \<Longrightarrow> better c a \<Longrightarrow> better c b"
    and kv: "(k, v) \<in> set (foldl (groupStep key (\<lambda>p. p) (\<lambda>e p. if better p e then p else e)) [] ps)"
  shows "\<exists>pre suf. filter (\<lambda>p. key p = k) ps = pre @ v # suf
           \<and> (\<forall>p \<in> set pre. better v p) \<and> (\<forall>p \<in> set suf. \<not> better p v)"
proof -
  let ?c = "\<lambda>e p. if better p e then p else e"
  have "distinct (map fst (foldl (groupStep key (\<lambda>p. p) ?c) [] ps))"
    by (simp add: groupFold_distinct)
  with kv have "map_of (foldl (groupStep key (\<lambda>p. p) ?c) [] ps) k = Some v"
    by simp
  then have "(case filter (\<lambda>p. key p = k) ps of [] \<Rightarrow> None | x # ys \<Rightarrow> Some (foldl ?c x ys)) = Some v"
    by (simp add: groupFold_map_of)
  then obtain x ys where grp: "filter (\<lambda>p. key p = k) ps = x # ys" and v: "v = foldl ?c x ys"
    by (auto split: list.splits)
  have "\<exists>pre suf. x # ys = pre @ foldl ?c x ys # suf
           \<and> (\<forall>p \<in> set pre. better (foldl ?c x ys) p)
           \<and> (\<forall>p \<in> set suf. \<not> better p (foldl ?c x ys))"
  proof (rule foldl_keep_better)
    fix a b c assume "better b a" "better c b"
    then show "better c a" by (rule tr)
  next
    fix a b c assume "\<not> better b a" "better c a"
    then show "better c b" by (rule ng)
  qed
  then show ?thesis unfolding grp v .
qed

lemma keep_better_key:
  assumes "filter (\<lambda>p. key p = k) ps = pre @ v # suf"
  shows "key v = k" and "v \<in> set ps"
proof -
  have "v \<in> set (filter (\<lambda>p. key p = k) ps)" by (simp add: assms)
  then show "key v = k" and "v \<in> set ps" by simp_all
qed

lemma betterLinkedIn_trans: "betterLinkedIn b a \<Longrightarrow> betterLinkedIn c b \<Longrightarrow> betterLinkedIn c a"
  by (auto simp: betterLinkedIn_def)

lemma betterLinkedIn_neg: "\<not> betterLinkedIn b a \<Longrightarrow> betterLinkedIn c a \<Longrightarrow> betterLinkedIn c b"
  by (auto simp: betterLinkedIn_def)

lemma betterX_trans: "betterX b a \<Longrightarrow> betterX c b \<Longrightarrow> betterX c a"
  by (auto simp: betterX_def)

lemma betterX_neg: "\<not> betterX b a \<Longrightarrow> betterX c a \<Longrightarrow> betterX c b"
  by (auto simp: betterX_def)

lemma forEach_returns:
  assumes "\<And>s x. x \<in> set xs \<Longrightarrow> body s x = Inr (step s x)"
  shows "forEach body s xs = Inr (foldl step s xs)"
  using assms by (induction xs arbitrary: s) simp_all

lemma JsError_unique: "(e :: JsError) = RangeError"
  by (cases e) simp

lemma forEach_throws:
  assumes "x \<in> set xs" and "\<And>s. body s x = Inl RangeError"
  shows "forEach body s xs = Inl RangeError"
  using assms(1)
proof (induction xs arbitrary: s)
  case Nil
  then show ?case by simp
next
  case (Cons y ys)
  show ?case
  proof (cases "body s y")
    case (Inl e)
    then show ?thesis by (simp add: JsError_unique [of e])
  next
    case (Inr s')
    with assms(2) [of s] have "x \<noteq> y" by auto
    with Cons.prems have "x \<in> set ys" by simp
    from Cons.IH [OF this] show ?thesis by (simp add: Inr)
  qed
qed

lemma linkedInPostKey_identity:
  "(LinkedInPostRecord.link p \<noteq> [] \<longrightarrow> linkedInPostKey p = Inr (LinkedInPostRecord.link p))
   \<and> (LinkedInPostRecord.link p = [] \<and> LinkedInPostRecord.createdAt p = ValidDate t \<longrightarrow>
        linkedInPostKey p = Inr (LinkedInPostRecord.title p @ ''-'' @ isoFormat t))
   \<and> (LinkedInPostRecord.link p = [] \<and> LinkedInPostRecord.createdAt p = InvalidDate \<longrightarrow>
        linkedInPostKey p = Inl RangeError)"
  by (simp add: linkedInPostKey_def toISOString_def)

lemma xPostKey_identity:
  "(XPostSummary.link p \<noteq> [] \<longrightarrow> xPostKey p = Inr (XPostSummary.link p))
   \<and> (XPostSummary.link p = [] \<and> XPostSummary.createdAt p = None \<longrightarrow>
        xPostKey p = Inr (text' p @ ''-''))
   \<and> (XPostSummary.link p = [] \<and> XPostSummary.createdAt p = Some (ValidDate t) \<longrightarrow>
        xPostKey p = Inr (text' p @ ''-'' @ isoFormat t))
   \<and> (XPostSummary.link p = [] \<and> XPostSummary.createdAt p = Some InvalidDate \<longrightarrow>
        xPostKey p = Inl RangeError)"
  by (simp add: xPostKey_def toISOString_def)

lemma linkedInPostKey_returns:
  assumes "LinkedInPostRecord.link p \<noteq> [] \<or> LinkedInPostRecord.createdAt p \<noteq> InvalidDate"
  shows "linkedInPostKey p = Inr (linkedInKeyText p)"
  using assms
  by (cases "LinkedInPostRecord.createdAt p")
    (auto simp: linkedInKeyText_def linkedInPostKey_def toISOString_def)

lemma xPostKey_returns:
  assumes "XPostSummary.link p \<noteq> [] \<or> XPostSummary.createdAt p \<noteq> Some InvalidDate"
  shows "xPostKey p = Inr (xKeyText p)"
proof (cases "XPostSummary.createdAt p")
  case None
  then show ?thesis by (simp add: xKeyText_def xPostKey_def)
next
  case (Some d)
  with assms show ?thesis
    by (cases d) (auto simp: xKeyText_def xPostKey_def toISOString_def)
qed

lemma dedupedPostsStep_returns:
  assumes "LinkedInPostRecord.link p \<noteq> [] \<or> LinkedInPostRecord.createdAt p \<noteq> InvalidDate"
  shows "dedupedPostsStep m p
    = Inr (groupStep linkedInKeyText (\<lambda>p. p) (\<lambda>e p. if betterLinkedIn p e then p else e) m p)"
  by (simp add: dedupedPostsStep_def linkedInPostKey_returns [OF assms] groupStep_def
      betterLinkedIn_def update_triv split: option.splits)

lemma dedupedStep_returns:
  assumes "XPostSummary.link p \<noteq> [] \<or> XPostSummary.createdAt p \<noteq> Some InvalidDate"
  shows "dedupedStep m p
    = Inr (groupStep xKeyText (\<lambda>p. p) (\<lambda>e p. if betterX p e then p else e) m p)"
  by (simp add: dedupedStep_def xPostKey_returns [OF assms] groupStep_def
      betterX_def update_triv split: option.splits)

lemma uniquePosts_returns:
  assumes "\<forall>p \<in> set ps. LinkedInPostRecord.link p \<noteq> [] \<or> LinkedInPostRecord.createdAt p \<noteq> InvalidDate"
  shows "uniquePosts ps
    = Inr (map snd (foldl (groupStep linkedInKeyText (\<lambda>p. p)
                             (\<lambda>e p. if betterLinkedIn p e then p else e)) [] ps))"
proof -
  have "forEach dedupedPostsStep [] ps
      = Inr (foldl (groupStep linkedInKeyText (\<lambda>p. p)
                      (\<lambda>e p. if betterLinkedIn p e then p else e)) [] ps)"
  proof (rule forEach_returns)
    fix s x assume "x \<in> set ps"
    with assms have "LinkedInPostRecord.link x \<noteq> [] \<or> LinkedInPostRecord.createdAt x \<noteq> InvalidDate"
      by (rule bspec)
    then show "dedupedPostsStep s x
        = Inr (groupStep linkedInKeyText (\<lambda>p. p) (\<lambda>e p. if betterLinkedIn p e then p else e) s x)"
      by (rule dedupedPostsStep_returns)
  qed
  then show ?thesis by (simp only: uniquePosts_def sum.case)
qed

lemma dedupedValues_returns:
  assumes "\<forall>p \<in> set ps. XPostSummary.link p \<noteq> [] \<or> XPostSummary.createdAt p \<noteq> Some InvalidDate"
  shows "dedupedValues ps
    = Inr (map snd (foldl (groupStep xKeyText (\<lambda>p. p) (\<lambda>e p. if betterX p e then p else e)) [] ps))"
proof -
  have "forEach dedupedStep [] ps
      = Inr (foldl (groupStep xKeyText (\<lambda>p. p) (\<lambda>e p. if betterX p e then p else e)) [] ps)"
  proof (rule forEach_returns)
    fix s x assume "x \<in> set ps"
    with assms have "XPostSummary.link x \<noteq> [] \<or> XPostSummary.createdAt x \<noteq> Some InvalidDate"
      by (rule bspec)
    then show "dedupedStep s x
        = Inr (groupStep xKeyText (\<lambda>p. p) (\<lambda>e p. if betterX p e then p else e) s x)"
      by (rule dedupedStep_returns)
  qed
  then show ?thesis by (simp only: dedupedValues_def sum.case)
qed

lemma uniquePosts_throws:
  assumes "p \<in> set ps" "LinkedInPostRecord.link p = []" "LinkedInPostRecord.createdAt p = InvalidDate"
  shows "uniquePosts ps = Inl RangeError"
proof -
  have "forEach dedupedPostsStep [] ps = Inl RangeError"
  proof (rule forEach_throws [OF assms(1)])
    fix s show "dedupedPostsStep s p = Inl RangeError"
      using assms(2,3) by (simp add: dedupedPostsStep_def linkedInPostKey_def toISOString_def)
  qed
  then show ?thesis by (simp only: uniquePosts_def sum.case)
qed

lemma dedupedValues_throws:
  assumes "p \<in> set ps" "XPostSummary.link p = []" "XPostSummary.createdAt p = Some InvalidDate"
  shows "dedupedValues ps = Inl RangeError"
proof -
  have "forEach dedupedStep [] ps = Inl RangeError"
  proof (rule forEach_throws [OF assms(1)])
    fix s show "dedupedStep s p = Inl RangeError"
      using assms(2,3) by (simp add: dedupedStep_def xPostKey_def toISOString_def)
  qed
  then show ?thesis by (simp only: dedupedValues_def sum.case)
qed

lemma parseXPostDate_valid: "parseXPostDate host raw \<noteq> Some InvalidDate"
  by (simp add: parseXPostDate_def split: option.splits)

lemma linkedIn_entry:
  assumes "(k, r) \<in> set (foldl (groupStep linkedInKeyText (\<lambda>p. p)
             (\<lambda>e p. if betterLinkedIn p e then p else e)) [] ps)"
  shows "\<exists>pre suf. filter (\<lambda>p. linkedInKeyText p = k) ps = pre @ r # suf
           \<and> (\<forall>p \<in> set pre. betterLinkedIn r p) \<and> (\<forall>p \<in> set suf. \<not> betterLinkedIn p r)"
proof (rule keep_better_entry)
  show "(k, r) \<in> set (foldl (groupStep linkedInKeyText (\<lambda>p. p)
          (\<lambda>e p. if betterLinkedIn p e then p else e)) [] ps)"
    by (rule assms)
next
  fix a b c assume "betterLinkedIn b a" "betterLinkedIn c b"
  then show "betterLinkedIn c a" by (rule betterLinkedIn_trans)
next
  fix a b c assume "\<not> betterLinkedIn b a" "betterLinkedIn c a"
  then show "betterLinkedIn c b" by (rule betterLinkedIn_neg)
qed

lemma x_entry:
  assumes "(k, r) \<in> set (foldl (groupStep xKeyText (\<lambda>p. p)
             (\<lambda>e p. if betterX p e then p else e)) [] ps)"
  shows "\<exists>pre suf. filter (\<lambda>p. xKeyText p = k) ps = pre @ r # suf
           \<and> (\<forall>p \<in> set pre. betterX r p) \<and> (\<forall>p \<in> set suf. \<not> betterX p r)"
proof (rule keep_better_entry)
  show "(k, r) \<in> set (foldl (groupStep xKeyText (\<lambda>p. p)
          (\<lambda>e p. if betterX p e then p else e)) [] ps)"
    by (rule assms)
next
  fix a b c assume "betterX b a" "betterX c b"
  then show "betterX c a" by (rule betterX_trans)
next
  fix a b c assume "\<not> betterX b a" "betterX c a"
  then show "betterX c b" by (rule betterX_neg)
qed

lemma linkedIn_values_keys:
  "map linkedInKeyText (map snd (foldl (groupStep linkedInKeyText (\<lambda>p. p)
       (\<lambda>e p. if betterLinkedIn p e then p else e)) [] ps))
   = map fst (foldl (groupStep linkedInKeyText (\<lambda>p. p)
       (\<lambda>e p. if betterLinkedIn p e then p else e)) [] ps)"
proof (rule keyed_values, clarify)
  fix k r assume "(k, r) \<in> set (foldl (groupStep linkedInKeyText (\<lambda>p. p)
       (\<lambda>e p. if betterLinkedIn p e then p else e)) [] ps)"
  from linkedIn_entry [OF this] obtain pre suf where
    "filter (\<lambda>p. linkedInKeyText p = k) ps = pre @ r # suf" by blast
  then show "linkedInKeyText r = k"
    by (rule keep_better_key(1) [of linkedInKeyText k ps pre r suf])
qed

lemma x_values_keys:
  "map xKeyText (map snd (foldl (groupStep xKeyText (\<lambda>p. p)
       (\<lambda>e p. if betterX p e then p else e)) [] ps))
   = map fst (foldl (groupStep xKeyText (\<lambda>p. p) (\<lambda>e p. if betterX p e then p else e)) [] ps)"
proof (rule keyed_values, clarify)
  fix k r assume "(k, r) \<in> set (foldl (groupStep xKeyText (\<lambda>p. p)
       (\<lambda>e p. if betterX p e then p else e)) [] ps)"
  from x_entry [OF this] obtain pre suf where
    "filter (\<lambda>p. xKeyText p = k) ps = pre @ r # suf" by blast
  then show "xKeyText r = k"
    by (rule keep_better_key(1) [of xKeyText k ps pre r suf])
qed

lemma linkedIn_survivor:
  assumes "r \<in> set (map snd (foldl (groupStep linkedInKeyText (\<lambda>p. p)
             (\<lambda>e p. if betterLinkedIn p e then p else e)) [] ps))"
  shows "\<exists>pre suf. filter (\<lambda>p. linkedInKeyText p = linkedInKeyText r) ps = pre @ r # suf
           \<and> (\<forall>p \<in> set pre. betterLinkedIn r p) \<and> (\<forall>p \<in> set suf. \<not> betterLinkedIn p r)"
proof -
  from assms obtain k where kr: "(k, r) \<in> set (foldl (groupStep linkedInKeyText (\<lambda>p. p)
             (\<lambda>e p. if betterLinkedIn p e then p else e)) [] ps)"
    by auto
  from linkedIn_entry [OF kr] obtain pre suf where
    f: "filter (\<lambda>p. linkedInKeyText p = k) ps = pre @ r # suf"
    and rest: "(\<forall>p \<in> set pre. betterLinkedIn r p) \<and> (\<forall>p \<in> set suf. \<not> betterLinkedIn p r)"
    by blast
  from keep_better_key(1) [of linkedInKeyText k ps pre r suf, OF f] have "linkedInKeyText r = k" .
  with f rest show ?thesis by blast
qed

lemma x_survivor:
  assumes "r \<in> set (map snd (foldl (groupStep xKeyText (\<lambda>p. p)
             (\<lambda>e p. if betterX p e then p else e)) [] ps))"
  shows "\<exists>pre suf. filter (\<lambda>p. xKeyText p = xKeyText r) ps = pre @ r # suf
           \<and> (\<forall>p \<in> set pre. betterX r p) \<and> (\<forall>p \<in> set suf. \<not> betterX p r)"
proof -
  from assms obtain k where kr: "(k, r) \<in> set (foldl (groupStep xKeyText (\<lambda>p. p)
             (\<lambda>e p. if betterX p e then p else e)) [] ps)"
    by auto
  from x_entry [OF kr] obtain pre suf where
    f: "filter (\<lambda>p. xKeyText p = k) ps = pre @ r # suf"
    and rest: "(\<forall>p \<in> set pre. betterX r p) \<and> (\<forall>p \<in> set suf. \<not> betterX p r)"
    by blast
  from keep_better_key(1) [of xKeyText k ps pre r suf, OF f] have "xKeyText r = k" .
  with f rest show ?thesis by blast
qed

lemma betterLinkedIn_dominates:
  assumes f: "filter (\<lambda>p. linkedInKeyText p = linkedInKeyText r) ps = pre @ r # suf"
    and pr: "\<forall>p \<in> set pre. betterLinkedIn r p" and su: "\<forall>p \<in> set suf. \<not> betterLinkedIn p r"
    and p: "p \<in> set ps" "linkedInKeyText p = linkedInKeyText r"
  shows "LinkedInPostRecord.impressions p \<le> LinkedInPostRecord.impressions r
         \<and> (LinkedInPostRecord.impressions p = LinkedInPostRecord.impressions r \<and> hasTime p \<longrightarrow> hasTime r)"
proof -
  from p have "p \<in> set (filter (\<lambda>p. linkedInKeyText p = linkedInKeyText r) ps)" by simp
  then have "p \<in> set pre \<or> p = r \<or> p \<in> set suf" unfolding f by auto
  then show ?thesis using pr su by (auto simp: betterLinkedIn_def)
qed

lemma betterX_dominates:
  assumes f: "filter (\<lambda>p. xKeyText p = xKeyText r) ps = pre @ r # suf"
    and pr: "\<forall>p \<in> set pre. betterX r p" and su: "\<forall>p \<in> set suf. \<not> betterX p r"
    and p: "p \<in> set ps" "xKeyText p = xKeyText r"
  shows "XPostSummary.impressions p \<le> XPostSummary.impressions r"
proof -
  from p have "p \<in> set (filter (\<lambda>p. xKeyText p = xKeyText r) ps)" by simp
  then have "p \<in> set pre \<or> p = r \<or> p \<in> set suf" unfolding f by auto
  then show ?thesis using pr su by (auto simp: betterX_def)
qed

text \<open>
  Deduplication on platform B.  The identity key of a post is its permalink when that
  is not empty, and otherwise its title joined by a hyphen with the ISO text of its
  creation time.  On a list in which every post without permalink has a valid creation
  date the loop returns one post per key of the input.  The post kept for a key is one
  of the input posts with that key and no post with that key has more impressions; if a
  post with that key and the same impressions has a known time of day, so has the post
  kept.  More precisely the post kept is the first of its group that no later post
  beats: every earlier post of the group is strictly worse, and no later post is
  strictly better.
\<close>

theorem uniquePosts_keeps_best:
  assumes valid: "\<forall>p \<in> set ps. LinkedInPostRecord.link p \<noteq> [] \<or> LinkedInPostRecord.createdAt p \<noteq> InvalidDate"
  shows "\<exists>out. uniquePosts ps = Inr out
    \<and> (\<forall>p \<in> set ps. linkedInPostKey p = Inr (linkedInKeyText p)
          \<and> linkedInKeyText p
              = (if LinkedInPostRecord.link p \<noteq> [] then LinkedInPostRecord.link p
                 else LinkedInPostRecord.title p @ ''-''
                      @ (case LinkedInPostRecord.createdAt p of ValidDate t \<Rightarrow> isoFormat t | InvalidDate \<Rightarrow> [])))
    \<and> distinct (map linkedInKeyText out)
    \<and> set (map linkedInKeyText out) = linkedInKeyText ` set ps
    \<and> (\<forall>r \<in> set out.
          r \<in> set ps
          \<and> (\<forall>p \<in> set ps. linkedInKeyText p = linkedInKeyText r \<longrightarrow>
                LinkedInPostRecord.impressions p \<le> LinkedInPostRecord.impressions r
                \<and> (LinkedInPostRecord.impressions p = LinkedInPostRecord.impressions r \<and> hasTime p
                    \<longrightarrow> hasTime r))
          \<and> (\<exists>pre suf.
                filter (\<lambda>p. linkedInKeyText p = linkedInKeyText r) ps = pre @ r # suf
                \<and> (\<forall>p \<in> set pre. betterLinkedIn r p)
                \<and> (\<forall>p \<in> set suf. \<not> betterLinkedIn p r)))"
proof -
  let ?out = "map snd (foldl (groupStep linkedInKeyText (\<lambda>p. p)
                (\<lambda>e p. if betterLinkedIn p e then p else e)) [] ps)"
  have ret: "uniquePosts ps = Inr ?out" by (rule uniquePosts_returns [OF valid])
  have keys: "\<forall>p \<in> set ps. linkedInPostKey p = Inr (linkedInKeyText p)
          \<and> linkedInKeyText p
              = (if LinkedInPostRecord.link p \<noteq> [] then LinkedInPostRecord.link p
                 else LinkedInPostRecord.title p @ ''-''
                      @ (case LinkedInPostRecord.createdAt p of ValidDate t \<Rightarrow> isoFormat t | InvalidDate \<Rightarrow> []))"
  proof
    fix p assume "p \<in> set ps"
    with valid have v: "LinkedInPostRecord.link p \<noteq> [] \<or> LinkedInPostRecord.createdAt p \<noteq> InvalidDate"
      by (rule bspec)
    have "linkedInPostKey p = Inr (linkedInKeyText p)" by (rule linkedInPostKey_returns [OF v])
    moreover have "linkedInKeyText p
              = (if LinkedInPostRecord.link p \<noteq> [] then LinkedInPostRecord.link p
                 else LinkedInPostRecord.title p @ ''-''
                      @ (case LinkedInPostRecord.createdAt p of ValidDate t \<Rightarrow> isoFormat t | InvalidDate \<Rightarrow> []))"
      using v by (cases "LinkedInPostRecord.createdAt p")
        (auto simp: linkedInKeyText_def linkedInPostKey_def toISOString_def)
    ultimately show "linkedInPostKey p = Inr (linkedInKeyText p)
          \<and> linkedInKeyText p
              = (if LinkedInPostRecord.link p \<noteq> [] then LinkedInPostRecord.link p
                 else LinkedInPostRecord.title p @ ''-''
                      @ (case LinkedInPostRecord.createdAt p of ValidDate t \<Rightarrow> isoFormat t | InvalidDate \<Rightarrow> []))"
      by (rule conjI)
  qed
  have dist: "distinct (map linkedInKeyText ?out)"
    unfolding linkedIn_values_keys by (simp add: groupFold_distinct)
  have kset: "set (map linkedInKeyText ?out) = linkedInKeyText ` set ps"
    unfolding linkedIn_values_keys by (simp add: groupFold_keys)
  have li: "r \<in> set ps
          \<and> (\<forall>p \<in> set ps. linkedInKeyText p = linkedInKeyText r \<longrightarrow>
                LinkedInPostRecord.impressions p \<le> LinkedInPostRecord.impressions r
                \<and> (LinkedInPostRecord.impressions p = LinkedInPostRecord.impressions r \<and> hasTime p
                    \<longrightarrow> hasTime r))
          \<and> (\<exists>pre suf.
                filter (\<lambda>p. linkedInKeyText p = linkedInKeyText r) ps = pre @ r # suf
                \<and> (\<forall>p \<in> set pre. betterLinkedIn r p)
                \<and> (\<forall>p \<in> set suf. \<not> betterLinkedIn p r))"
    if "r \<in> set ?out" for r
  proof -
    from linkedIn_survivor [OF that] obtain pre suf where
      f: "filter (\<lambda>p. linkedInKeyText p = linkedInKeyText r) ps = pre @ r # suf"
      and pr: "\<forall>p \<in> set pre. betterLinkedIn r p" and su: "\<forall>p \<in> set suf. \<not> betterLinkedIn p r"
      by blast
    have "r \<in> set ps"
      by (rule keep_better_key(2) [of linkedInKeyText "linkedInKeyText r" ps pre r suf, OF f])
    moreover have "\<forall>p \<in> set ps. linkedInKeyText p = linkedInKeyText r \<longrightarrow>
                LinkedInPostRecord.impressions p \<le> LinkedInPostRecord.impressions r
                \<and> (LinkedInPostRecord.impressions p = LinkedInPostRecord.impressions r \<and> hasTime p
                    \<longrightarrow> hasTime r)"
      using betterLinkedIn_dominates [OF f pr su] by blast
    ultimately show ?thesis using f pr su by blast
  qed
  then have A: "\<forall>r \<in> set ?out.
          r \<in> set ps
          \<and> (\<forall>p \<in> set ps. linkedInKeyText p = linkedInKeyText r \<longrightarrow>
                LinkedInPostRecord.impressions p \<le> LinkedInPostRecord.impressions r
                \<and> (LinkedInPostRecord.impressions p = LinkedInPostRecord.impressions r \<and> hasTime p
                    \<longrightarrow> hasTime r))
          \<and> (\<exists>pre suf.
                filter (\<lambda>p. linkedInKeyText p = linkedInKeyText r) ps = pre @ r # suf
                \<and> (\<forall>p \<in> set pre. betterLinkedIn r p)
                \<and> (\<forall>p \<in> set suf. \<not> betterLinkedIn p r))"
    by (rule ballI)
  show ?thesis
    by (rule exI [of _ ?out]) (rule conjI [OF ret conjI [OF keys conjI [OF dist conjI [OF kset A]]]])
qed

text \<open>
  Deduplication on platform A, in the same way: the key is the permalink when that is
  not empty, and otherwise the text joined by a hyphen with the ISO text of the
  creation time (nothing for a post without date); the post kept for a key is the
  first of its group that no later post beats by strictly more impressions.
\<close>

theorem dedupedValues_keeps_best:
  assumes valid: "\<forall>p \<in> set ps. XPostSummary.link p \<noteq> [] \<or> XPostSummary.createdAt p \<noteq> Some InvalidDate"
  shows "\<exists>out. dedupedValues ps = Inr out
    \<and> (\<forall>p \<in> set ps. xPostKey p = Inr (xKeyText p)
          \<and> xKeyText p
              = (if XPostSummary.link p \<noteq> [] then XPostSummary.link p
                 else text' p @ ''-''
                      @ (case XPostSummary.createdAt p of Some (ValidDate t) \<Rightarrow> isoFormat t | _ \<Rightarrow> [])))
    \<and> distinct (map xKeyText out)
    \<and> set (map xKeyText out) = xKeyText ` set ps
    \<and> (\<forall>r \<in> set out.
          r \<in> set ps
          \<and> (\<forall>p \<in> set ps. xKeyText p = xKeyText r \<longrightarrow>
                XPostSummary.impressions p \<le> XPostSummary.impressions r)
          \<and> (\<exists>pre suf.
                filter (\<lambda>p. xKeyText p = xKeyText r) ps = pre @ r # suf
                \<and> (\<forall>p \<in> set pre. betterX r p)
                \<and> (\<forall>p \<in> set suf. \<not> betterX p r)))"
proof -
  let ?out = "map snd (foldl (groupStep xKeyText (\<lambda>p. p) (\<lambda>e p. if betterX p e then p else e)) [] ps)"
  have ret: "dedupedValues ps = Inr ?out" by (rule dedupedValues_returns [OF valid])
  have keys: "\<forall>p \<in> set ps. xPostKey p = Inr (xKeyText p)
          \<and> xKeyText p
              = (if XPostSummary.link p \<noteq> [] then XPostSummary.link p
                 else text' p @ ''-''
                      @ (case XPostSummary.createdAt p of Some (ValidDate t) \<Rightarrow> isoFormat t | _ \<Rightarrow> []))"
  proof
    fix p assume "p \<in> set ps"
    with valid have v: "XPostSummary.link p \<noteq> [] \<or> XPostSummary.createdAt p \<noteq> Some InvalidDate"
      by (rule bspec)
    have "xPostKey p = Inr (xKeyText p)" by (rule xPostKey_returns [OF v])
    moreover have "xKeyText p
              = (if XPostSummary.link p \<noteq> [] then XPostSummary.link p
                 else text' p @ ''-''
                      @ (case XPostSummary.createdAt p of Some (ValidDate t) \<Rightarrow> isoFormat t | _ \<Rightarrow> []))"
      using v by (auto simp: xKeyText_def xPostKey_def toISOString_def split: option.splits Date.splits)
    ultimately show "xPostKey p = Inr (xKeyText p)
          \<and> xKeyText p
              = (if XPostSummary.link p \<noteq> [] then XPostSummary.link p
                 else text' p @ ''-''
                      @ (case XPostSummary.createdAt p of Some (ValidDate t) \<Rightarrow> isoFormat t | _ \<Rightarrow> []))"
      by (rule conjI)
  qed
  have dist: "distinct (map xKeyText ?out)"
    unfolding x_values_keys by (simp add: groupFold_distinct)
  have kset: "set (map xKeyText ?out) = xKeyText ` set ps"
    unfolding x_values_keys by (simp add: groupFold_keys)
  have xx: "r \<in> set ps
          \<and> (\<forall>p \<in> set ps. xKeyText p = xKeyText r \<longrightarrow>
                XPostSummary.impressions p \<le> XPostSummary.impressions r)
          \<and> (\<exists>pre suf.
                filter (\<lambda>p. xKeyText p = xKeyText r) ps = pre @ r # suf
                \<and> (\<forall>p \<in> set pre. betterX r p)
                \<and> (\<forall>p \<in> set suf. \<not> betterX p r))"
    if "r \<in> set ?out" for r
  proof -
    from x_survivor [OF that] obtain pre suf where
      f: "filter (\<lambda>p. xKeyText p = xKeyText r) ps = pre @ r # suf"
      and pr: "\<forall>p \<in> set pre. betterX r p" and su: "\<forall>p \<in> set suf. \<not> betterX p r"
      by blast
    have "r \<in> set ps"
      by (rule keep_better_key(2) [of xKeyText "xKeyText r" ps pre r suf, OF f])
    moreover have "\<forall>p \<in> set ps. xKeyText p = xKeyText r \<longrightarrow>
                XPostSummary.impressions p \<le> XPostSummary.impressions r"
      using betterX_dominates [OF f pr su] by blast
    ultimately show ?thesis using f pr su by blast
  qed
  then have B: "\<forall>r \<in> set ?out.
          r \<in> set ps
          \<and> (\<forall>p \<in> set ps. xKeyText p = xKeyText r \<longrightarrow>
                XPostSummary.impressions p \<le> XPostSummary.impressions r)
          \<and> (\<exists>pre suf.
                filter (\<lambda>p. xKeyText p = xKeyText r) ps = pre @ r # suf
                \<and> (\<forall>p \<in> set pre. betterX r p)
                \<and> (\<forall>p \<in> set suf. \<not> betterX p r))"
    by (rule ballI)
  show ?thesis
    by (rule exI [of _ ?out]) (rule conjI [OF ret conjI [OF keys conjI [OF dist conjI [OF kset B]]]])
qed

text \<open>
  On the example posts: the permalink exported with 500 and 800 impressions collapses
  to the post with 800 on both platforms, of the two tied posts the one with a time of
  day is kept, and posts without permalink that differ in title or text stay apart.
\<close>

lemma post_dedup_examples:
  "uniquePosts linkedInPostsExample
     = Inr [linkedInPost ''Launch'' ''https://example.com/p1'' 800 False,
            linkedInPost ''Notes'' [] 300 True,
            linkedInPost ''Other'' [] 100 False]
   \<and> linkedInPostKey (linkedInPost ''Notes'' [] 300 True) = Inr ''Notes-2024-01-15T12:30:00.000Z''
   \<and> linkedInPostKey (linkedInPost ''Other'' [] 100 False) = Inr ''Other-2024-01-15T12:30:00.000Z''
   \<and> dedupedValues xPostsExample
     = Inr [xPost ''hello'' ''https://example.com/s1'' 800, xPost ''first'' [] 10, xPost ''second'' [] 20]
   \<and> xPostKey (xPost ''first'' [] 10) = Inr ''first-''"
  by code_simp

text \<open>
  C3.  The claim fails on a list that holds a post without permalink whose creation
  date is the Invalid Date: the key of that post needs \<^verbatim>\<open>toISOString\<close>, which throws
  a \<^verbatim>\<open>RangeError\<close>, and the exception ends the loop, so that no post is kept at all.
  The loader of platform B builds such a post from a row whose date cell is
  \<^verbatim>\<open>1/1/300000\<close>: the date parser returns the Invalid Date for it, not \<^verbatim>\<open>null\<close>, and
  the loader drops a row only for \<^verbatim>\<open>null\<close>.
\<close>

theorem uniquePosts_invalid_date_throws:
  "parseLinkedInDateTime noStrDate (RawString ''1/1/300000'') = Some InvalidDate
   \<and> linkedInPostKey outOfRangePost = Inl RangeError
   \<and> uniquePosts [outOfRangePost] = Inl RangeError
   \<and> uniquePosts (linkedInPostsExample @ [outOfRangePost]) = Inl RangeError"
  by code_simp

subsection \<open>Coverage and data quality\<close>

lemma Date_UTC_midnight: "Date_UTC y m d 0 0 mod msPerDay = 0"
  by (simp add: Date_UTC_def ToIntegerOrInfinity_def Let_def)

lemma parseXDate_midnight: "parseXDate host raw = Some d \<Longrightarrow> d mod msPerDay = 0"
  by (auto simp: parseXDate_def Let_def Date_UTC_midnight split: if_splits option.splits)

lemma parseLinkedInDate_midnight:
  "parseLinkedInDate strDate raw = Some (ValidDate d) \<Longrightarrow> d mod msPerDay = 0"
  by (auto simp: parseLinkedInDate_def Date_UTC_value_def newDate_def Let_def ToIntegerOrInfinity_def
      Date_UTC_midnight split: option.splits Date.splits if_splits)

lemma hd_sorted_Min: "xs \<noteq> [] \<Longrightarrow> sorted xs \<Longrightarrow> hd xs = Min (set xs)"
  by (cases xs) (auto intro!: Min_eqI [symmetric])

lemma last_sorted_Max: "xs \<noteq> [] \<Longrightarrow> sorted xs \<Longrightarrow> last xs = Max (set xs)"
  by (induction xs) (auto intro!: Max_eqI [symmetric] simp: max_def)

lemma buildCoverage_nonempty:
  assumes "daily \<noteq> []"
  shows "buildCoverage daily =
     \<lparr>Coverage.start = Some (Min (DailyMetric.date ` set daily)),
      Coverage.end' = Some (Max (DailyMetric.date ` set daily)),
      Coverage.days = length daily\<rparr>"
proof -
  let ?s = "sort_key DailyMetric.date daily"
  let ?ds = "map DailyMetric.date ?s"
  have ne: "?s \<noteq> []" using assms by (metis length_0_conv length_sort)
  have srt: "sorted ?ds" by simp
  have "DailyMetric.date (?s ! 0) = hd ?ds"
    using ne by (cases "sort_key DailyMetric.date daily") simp_all
  also have "\<dots> = Min (set ?ds)" using ne srt by (intro hd_sorted_Min) auto
  finally have a: "DailyMetric.date (?s ! 0) = Min (DailyMetric.date ` set daily)" by simp
  have "?s ! (length ?s - 1) = last ?s"
    using ne by (rule last_conv_nth [symmetric])
  then have "DailyMetric.date (?s ! (length ?s - 1)) = last ?ds"
    using last_map [OF ne, of DailyMetric.date] by simp
  also have "\<dots> = Max (set ?ds)" using ne srt by (intro last_sorted_Max) auto
  finally have b: "DailyMetric.date (?s ! (length ?s - 1)) = Max (DailyMetric.date ` set daily)"
    by simp
  show ?thesis using assms a b by (simp add: buildCoverage_def Let_def)
qed

lemma Math_round_int: "Math_round (real_of_int n) = n"
  by (simp add: Math_round_def)

lemma aligned_span:
  assumes "s mod msPerDay = 0" "e mod msPerDay = 0"
  shows "Math_round ((real_of_int e - real_of_int s) / 86400000)
       = e div msPerDay - s div msPerDay"
proof -
  from assms obtain a b where s: "s = msPerDay * a" and e: "e = msPerDay * b"
    by (auto simp: mod_eq_0_iff_dvd elim!: dvdE)
  have "(real_of_int e - real_of_int s) / 86400000 = real_of_int (b - a)"
    by (simp add: s e msPerDay_def field_simps)
  then show ?thesis
    by (simp only: Math_round_int) (simp add: s e msPerDay_def)
qed

text \<open>
  C5.  For a non-empty series the coverage runs from the earliest to the latest date
  with the number of records as observed days, the expected day count is
  \<open>(end - start) / day + 1\<close> (the quotient rounded to an integer), and the missing day
  count is \<open>max (expected - observed) 0\<close>.  When every date is a UTC midnight, as
  the dates of daily records are, the expected day count is the inclusive span of days
  from the earliest to the latest.  For the empty series both counts are null and the
  coverage has no bounds.
\<close>

theorem buildDataQuality_spec:
  "(daily \<noteq> [] \<longrightarrow>
      DataQualitySummary.coverage (buildDataQuality lbl daily)
        = \<lparr>Coverage.start = Some (Min (DailyMetric.date ` set daily)),
           Coverage.end' = Some (Max (DailyMetric.date ` set daily)),
           Coverage.days = length daily\<rparr>
      \<and> DataQualitySummary.expectedDays (buildDataQuality lbl daily)
        = Some (Math_round ((real_of_int (Max (DailyMetric.date ` set daily))
                  - real_of_int (Min (DailyMetric.date ` set daily))) / real_of_int msPerDay) + 1)
      \<and> DataQualitySummary.missingDays (buildDataQuality lbl daily)
        = Some (max (Math_round ((real_of_int (Max (DailyMetric.date ` set daily))
                  - real_of_int (Min (DailyMetric.date ` set daily))) / real_of_int msPerDay) + 1
                  - int (length daily)) 0))
   \<and> (daily \<noteq> [] \<and> (\<forall>m \<in> set daily. DailyMetric.date m mod msPerDay = 0) \<longrightarrow>
      DataQualitySummary.expectedDays (buildDataQuality lbl daily)
        = Some (Max (DailyMetric.date ` set daily) div msPerDay
                - Min (DailyMetric.date ` set daily) div msPerDay + 1))
   \<and> DataQualitySummary.expectedDays (buildDataQuality lbl []) = None
   \<and> DataQualitySummary.missingDays (buildDataQuality lbl []) = None
   \<and> DataQualitySummary.coverage (buildDataQuality lbl [])
        = \<lparr>Coverage.start = None, Coverage.end' = None, Coverage.days = 0\<rparr>"
proof (intro conjI impI)
  assume ne: "daily \<noteq> []"
  show "DataQualitySummary.coverage (buildDataQuality lbl daily)
        = \<lparr>Coverage.start = Some (Min (DailyMetric.date ` set daily)),
           Coverage.end' = Some (Max (DailyMetric.date ` set daily)),
           Coverage.days = length daily\<rparr>"
    by (simp add: buildDataQuality_def buildCoverage_nonempty [OF ne] Let_def)
  show "DataQualitySummary.expectedDays (buildDataQuality lbl daily)
        = Some (Math_round ((real_of_int (Max (DailyMetric.date ` set daily))
                  - real_of_int (Min (DailyMetric.date ` set daily))) / real_of_int msPerDay) + 1)"
    by (simp add: buildDataQuality_def buildCoverage_nonempty [OF ne] Let_def msPerDay_def)
  show "DataQualitySummary.missingDays (buildDataQuality lbl daily)
        = Some (max (Math_round ((real_of_int (Max (DailyMetric.date ` set daily))
                  - real_of_int (Min (DailyMetric.date ` set daily))) / real_of_int msPerDay) + 1
                  - int (length daily)) 0)"
    by (simp add: buildDataQuality_def buildCoverage_nonempty [OF ne] Let_def msPerDay_def)
next
  assume a: "daily \<noteq> [] \<and> (\<forall>m \<in> set daily. DailyMetric.date m mod msPerDay = 0)"
  then have ne: "daily \<noteq> []" by simp
  from a have al: "\<forall>t \<in> DailyMetric.date ` set daily. t mod msPerDay = 0" by simp
  have "Min (DailyMetric.date ` set daily) \<in> DailyMetric.date ` set daily"
    using ne by (intro Min_in) auto
  with al have s: "Min (DailyMetric.date ` set daily) mod msPerDay = 0" by (rule bspec)
  have "Max (DailyMetric.date ` set daily) \<in> DailyMetric.date ` set daily"
    using ne by (intro Max_in) auto
  with al have e: "Max (DailyMetric.date ` set daily) mod msPerDay = 0" by (rule bspec)
  show "DataQualitySummary.expectedDays (buildDataQuality lbl daily)
        = Some (Max (DailyMetric.date ` set daily) div msPerDay
                - Min (DailyMetric.date ` set daily) div msPerDay + 1)"
    by (simp add: buildDataQuality_def buildCoverage_nonempty [OF ne] Let_def
        aligned_span [OF s e])
qed (simp_all add: buildDataQuality_def buildCoverage_def)

text \<open>Ten days with the fifth missing: 10 expected, 9 observed, 1 missing.\<close>

theorem buildDataQuality_witness:
  "coverageExample \<noteq> []
   \<and> list_all (\<lambda>m. DailyMetric.date m mod msPerDay = 0) coverageExample
   \<and> DataQualitySummary.expectedDays (buildDataQuality ''X'' coverageExample)
       = Some (Max (DailyMetric.date ` set coverageExample) div msPerDay
               - Min (DailyMetric.date ` set coverageExample) div msPerDay + 1)
   \<and> DataQualitySummary.expectedDays (buildDataQuality ''X'' coverageExample) = Some 10
   \<and> Coverage.days (DataQualitySummary.coverage (buildDataQuality ''X'' coverageExample)) = 9
   \<and> DataQualitySummary.missingDays (buildDataQuality ''X'' coverageExample) = Some 1"
proof -
  have ne: "coverageExample \<noteq> []" by (simp add: coverageExample_def)
  have al: "list_all (\<lambda>m. DailyMetric.date m mod msPerDay = 0) coverageExample"
    by code_simp
  then have "\<forall>m \<in> set coverageExample. DailyMetric.date m mod msPerDay = 0"
    by (simp add: list_all_iff)
  with ne buildDataQuality_spec [of coverageExample "''X''"]
  have "DataQualitySummary.expectedDays (buildDataQuality ''X'' coverageExample)
       = Some (Max (DailyMetric.date ` set coverageExample) div msPerDay
               - Min (DailyMetric.date ` set coverageExample) div msPerDay + 1)"
    by blast
  moreover have "DataQualitySummary.expectedDays (buildDataQuality ''X'' coverageExample) = Some 10"
    by code_simp
  moreover have "Coverage.days (DataQualitySummary.coverage (buildDataQuality ''X'' coverageExample)) = 9"
    by code_simp
  moreover have "DataQualitySummary.missingDays (buildDataQuality ''X'' coverageExample) = Some 1"
    by code_simp
  ultimately show ?thesis using ne al by simp
qed

subsection \<open>The table extractor\<close>

lemma findIndex_None: "(\<forall>x \<in> set xs. \<not> P x) \<Longrightarrow> findIndex P xs = None"
  by (induction xs) auto

text \<open>
  C8.  The table extractor returns a result for every text and label: the result of
  the \<^verbatim>\<open>try\<close> block, or the empty table when that block throws.  When the text
  fails to parse, and when no cell of the grid equals the label after trimming and
  lower-casing both, the result is the empty column list with the empty record list.
\<close>

theorem parseCsvWithHeader_total:
  "(parseCsv csvText = Inl err \<longrightarrow>
      parseCsvWithHeader parseCsv csvText headerLabel = \<lparr>headers = [], rows = []\<rparr>)
   \<and> (parseCsv csvText = Inr rawRows
        \<and> (\<forall>row \<in> set rawRows. \<forall>cell \<in> set row.
              toLowerCase (trim cell) \<noteq> toLowerCase (trim headerLabel)) \<longrightarrow>
      parseCsvWithHeader parseCsv csvText headerLabel = \<lparr>headers = [], rows = []\<rparr>)
   \<and> (\<exists>res. parseCsvWithHeader parseCsv csvText headerLabel = res
        \<and> (parseCsvWithHeader_try parseCsv csvText headerLabel = Inr res \<or> res = \<lparr>headers = [], rows = []\<rparr>))"
proof (intro conjI impI)
  assume "parseCsv csvText = Inl err"
  then show "parseCsvWithHeader parseCsv csvText headerLabel = \<lparr>headers = [], rows = []\<rparr>"
    by (simp add: parseCsvWithHeader_def parseCsvWithHeader_try_def)
next
  assume a: "parseCsv csvText = Inr rawRows
        \<and> (\<forall>row \<in> set rawRows. \<forall>cell \<in> set row.
              toLowerCase (trim cell) \<noteq> toLowerCase (trim headerLabel))"
  then have "findIndex (\<lambda>row. list_ex (\<lambda>cell. toLowerCase (trim cell) = toLowerCase (trim headerLabel)) row) rawRows = None"
    by (intro findIndex_None) (auto simp: list_ex_iff)
  with a show "parseCsvWithHeader parseCsv csvText headerLabel = \<lparr>headers = [], rows = []\<rparr>"
    by (simp add: parseCsvWithHeader_def parseCsvWithHeader_try_def)
next
  show "\<exists>res. parseCsvWithHeader parseCsv csvText headerLabel = res
        \<and> (parseCsvWithHeader_try parseCsv csvText headerLabel = Inr res \<or> res = \<lparr>headers = [], rows = []\<rparr>)"
    by (cases "parseCsvWithHeader_try parseCsv csvText headerLabel")
      (simp_all add: parseCsvWithHeader_def)
qed

theorem parseCsvWithHeader_witness:
  "throwingCsv ''a;b'' = Inl (CsvError ''Invalid Record Length'')
   \<and> parseCsvWithHeader throwingCsv ''a;b'' ''Date'' = \<lparr>headers = [], rows = []\<rparr>
   \<and> gridCsv ''Views,Likes'' = Inr [[''Views'', ''Likes''], [''10'', ''2'']]
   \<and> list_all (list_all (\<lambda>cell. toLowerCase (trim cell) \<noteq> toLowerCase (trim ''Date'')))
         [[''Views'', ''Likes''], [''10'', ''2'']]
   \<and> parseCsvWithHeader gridCsv ''Views,Likes'' ''Date'' = \<lparr>headers = [], rows = []\<rparr>"
proof -
  have t: "throwingCsv ''a;b'' = Inl (CsvError ''Invalid Record Length'')"
    by (simp add: throwingCsv_def)
  have g: "gridCsv ''Views,Likes'' = Inr [[''Views'', ''Likes''], [''10'', ''2'']]"
    by (simp add: gridCsv_def)
  have n: "list_all (list_all (\<lambda>cell. toLowerCase (trim cell) \<noteq> toLowerCase (trim ''Date'')))
         [[''Views'', ''Likes''], [''10'', ''2'']]"
    by code_simp
  then have n': "\<forall>row \<in> set [[''Views'', ''Likes''], [''10'', ''2'']]. \<forall>cell \<in> set row.
      toLowerCase (trim cell) \<noteq> toLowerCase (trim ''Date'')"
    unfolding list_all_iff by blast
  from t parseCsvWithHeader_total [of throwingCsv "''a;b''" "CsvError ''Invalid Record Length''" "''Date''"]
  have "parseCsvWithHeader throwingCsv ''a;b'' ''Date'' = \<lparr>headers = [], rows = []\<rparr>"
    by blast
  moreover from g n'
    parseCsvWithHeader_total [of gridCsv "''Views,Likes''" _ "''Date''" "[[''Views'', ''Likes''], [''10'', ''2'']]"]
  have "parseCsvWithHeader gridCsv ''Views,Likes'' ''Date'' = \<lparr>headers = [], rows = []\<rparr>"
    by blast
  ultimately show ?thesis using t g n by blast
qed

subsection \<open>Platform A daily rows\<close>

lemma pickField_exact: "map_of row k = Some v \<Longrightarrow> pickField row (k # ks) = v"
  by (simp add: pickField_def)

lemma pickField_second:
  "map_of row k = None \<Longrightarrow> map_of row k' = Some v \<Longrightarrow> pickField row [k, k'] = v"
  by (simp add: pickField_def)

text \<open>
  C10.  For a platform-A daily row whose date parses, the \<open>reposts\<close> counter is the
  number in the first available of the columns \<^verbatim>\<open>Reposts\<close> and \<^verbatim>\<open>Retweets\<close> plus the
  number in the column \<^verbatim>\<open>Shares\<close>, and the \<open>shares\<close> counter is the number in
  \<^verbatim>\<open>Shares\<close> again: a Shares cell counts in both.
\<close>

theorem xDailyRow_reposts_shares:
  "(parseXDate host (pickField row [''Date'']) = Some d \<longrightarrow>
     (\<exists>m. xDailyRow host videoMap row = Some m
        \<and> DailyMetric.reposts m
            = toNumber (pickField row [''Reposts'', ''Retweets'']) + toNumber (pickField row [''Shares''])
        \<and> DailyMetric.shares m = toNumber (pickField row [''Shares''])))
   \<and> (map_of row ''Reposts'' = Some v \<longrightarrow> pickField row [''Reposts'', ''Retweets''] = v)
   \<and> (map_of row ''Reposts'' = None \<and> map_of row ''Retweets'' = Some v \<longrightarrow>
        pickField row [''Reposts'', ''Retweets''] = v)
   \<and> (map_of row ''Shares'' = Some v \<longrightarrow> pickField row [''Shares''] = v)"
  by (simp add: xDailyRow_def Let_def pickField_exact pickField_second)

text \<open>A row with 4 retweets and 3 shares: 7 reposts and 3 shares.\<close>

theorem xDailyRow_reposts_shares_witness:
  "parseXDate utcHost (pickField sharesRow [''Date'']) = Some 1672531200000
   \<and> map_of sharesRow ''Reposts'' = None
   \<and> map_of sharesRow ''Retweets'' = Some ''4''
   \<and> map_of sharesRow ''Shares'' = Some ''3''
   \<and> (\<exists>m. xDailyRow utcHost videoExample sharesRow = Some m
         \<and> DailyMetric.reposts m = toNumber ''4'' + toNumber ''3''
         \<and> DailyMetric.shares m = toNumber ''3'')
   \<and> toNumber ''4'' + toNumber ''3'' = 7"
proof -
  have d: "parseXDate utcHost (pickField sharesRow [''Date'']) = Some 1672531200000"
    by code_simp
  have r: "map_of sharesRow ''Reposts'' = None" "map_of sharesRow ''Retweets'' = Some ''4''"
    "map_of sharesRow ''Shares'' = Some ''3''"
    by (simp_all add: sharesRow_def)
  from r xDailyRow_reposts_shares [of utcHost sharesRow 1672531200000 videoExample "''4''"]
  have p1: "pickField sharesRow [''Reposts'', ''Retweets''] = ''4''" by blast
  from r xDailyRow_reposts_shares [of utcHost sharesRow 1672531200000 videoExample "''3''"]
  have p2: "pickField sharesRow [''Shares''] = ''3''" by blast
  from d xDailyRow_reposts_shares [of utcHost sharesRow 1672531200000 videoExample "''3''"]
  have "\<exists>m. xDailyRow utcHost videoExample sharesRow = Some m
         \<and> DailyMetric.reposts m
            = toNumber (pickField sharesRow [''Reposts'', ''Retweets''])
              + toNumber (pickField sharesRow [''Shares''])
         \<and> DailyMetric.shares m = toNumber (pickField sharesRow [''Shares''])"
    by blast
  then have "\<exists>m. xDailyRow utcHost videoExample sharesRow = Some m
         \<and> DailyMetric.reposts m = toNumber ''4'' + toNumber ''3''
         \<and> DailyMetric.shares m = toNumber ''3''"
    by (simp only: p1 p2)
  moreover have "toNumber ''4'' + toNumber ''3'' = 7" by code_simp
  ultimately show ?thesis using d r by blast
qed

text \<open>
  C9, as the code has it.  For a platform-A daily row whose date parses, \<open>videoViews\<close>
  is the number in the column \<^verbatim>\<open>Video views\<close> when that number is not 0, and
  otherwise the views of the video overview for the same day (0 when the overview has
  no entry for the day).
\<close>

theorem xDailyRow_videoViews:
  "parseXDate host (pickField row [''Date'']) = Some d \<longrightarrow>
     (\<exists>m. xDailyRow host videoMap row = Some m
        \<and> (toNumber (pickField row [''Video views'']) \<noteq> 0 \<longrightarrow>
              DailyMetric.videoViews m = toNumber (pickField row [''Video views'']))
        \<and> (toNumber (pickField row [''Video views'']) = 0 \<longrightarrow>
              DailyMetric.videoViews m
                = (case map_of videoMap (toDayKey d) of None \<Rightarrow> 0 | Some e \<Rightarrow> VideoEntry.views e)))"
  by (simp add: xDailyRow_def Let_def)

theorem xDailyRow_videoViews_witness:
  "parseXDate utcHost (pickField sharesRow [''Date'']) = Some 1672531200000
   \<and> toNumber (pickField sharesRow [''Video views'']) = 7
   \<and> (\<exists>m. xDailyRow utcHost videoExample sharesRow = Some m \<and> DailyMetric.videoViews m = 7)"
proof -
  have d: "parseXDate utcHost (pickField sharesRow [''Date'']) = Some 1672531200000"
    by code_simp
  have v: "toNumber (pickField sharesRow [''Video views'']) = 7"
    by code_simp
  then have "toNumber (pickField sharesRow [''Video views'']) \<noteq> 0" by simp
  with d xDailyRow_videoViews [of utcHost sharesRow 1672531200000 videoExample]
  have "\<exists>m. xDailyRow utcHost videoExample sharesRow = Some m
      \<and> DailyMetric.videoViews m = toNumber (pickField sharesRow [''Video views''])"
    by blast
  with d v show ?thesis by simp
qed

text \<open>
  The claim C9 as stated fails on a row whose \<^verbatim>\<open>Video views\<close> cell is \<^verbatim>\<open>0\<close> on a
  day for which the video overview has 5 views: the column supplies the value 0, and
  \<open>videoViews\<close> is 5.
\<close>

theorem xDailyRow_videoViews_counterexample:
  "map_of zeroVideoViewsRow ''Video views'' = Some ''0''
   \<and> toNumber ''0'' = 0
   \<and> map_option DailyMetric.videoViews (xDailyRow utcHost videoExample zeroVideoViewsRow) = Some 5"
proof -
  have "map_of zeroVideoViewsRow ''Video views'' = Some ''0''"
    by (simp add: zeroVideoViewsRow_def)
  moreover have "toNumber ''0'' = 0" by code_simp
  moreover have "map_option DailyMetric.videoViews (xDailyRow utcHost videoExample zeroVideoViewsRow) = Some 5"
    by code_simp
  ultimately show ?thesis by blast
qed

subsection \<open>Rounding to doubles\<close>

text \<open>
  Rounding leaves an integer of magnitude up to \<open>2 ^ 53\<close> as it is, and moves any number
  of magnitude up to \<open>2 ^ 1000\<close> by at most the fraction \<open>2 ^ -53\<close> of its magnitude (of 1
  for a number below 1).
\<close>

lemma roundTiesToEven_of_int: "roundTiesToEven (real_of_int z) = z"
  by (simp add: roundTiesToEven_def)

lemma roundTiesToEven_error: "\<bar>real_of_int (roundTiesToEven r) - r\<bar> \<le> 1 / 2"
proof -
  have "real_of_int \<lfloor>r\<rfloor> \<le> r" "r < real_of_int \<lfloor>r\<rfloor> + 1" by linarith+
  then show ?thesis by (auto simp: roundTiesToEven_def Let_def)
qed

lemma pow2_pos: "0 < pow2 q"
  by (simp add: pow2_def)

lemma pow2_nat: "pow2 (int n) = 2 ^ n"
  by (simp add: pow2_def)

lemma pow2_neg: "pow2 (- int n) = 1 / 2 ^ n"
  by (cases "n = 0") (simp_all add: pow2_def)

lemma pow2_powr: "pow2 q = 2 powr (real_of_int q)"
proof (cases "0 \<le> q")
  case True
  then show ?thesis by (simp add: pow2_def powr_realpow [symmetric])
next
  case False
  then have r: "real (nat (- q)) = - real_of_int q" by simp
  have "(2::real) ^ nat (- q) = 2 powr (real (nat (- q)))"
    by (simp add: powr_realpow)
  also have "\<dots> = 2 powr (- real_of_int q)" by (simp only: r)
  finally have "(2::real) ^ nat (- q) = 1 / 2 powr (real_of_int q)"
    by (simp add: powr_minus_divide)
  then show ?thesis using False by (simp add: pow2_def)
qed

lemma pow2_add: "pow2 (a + b) = pow2 a * pow2 b"
  by (simp add: pow2_powr powr_add)

lemma pow2_mono: "a \<le> b \<Longrightarrow> pow2 a \<le> pow2 b"
  by (simp add: pow2_powr)

lemma bitlen_pos: "0 < x \<Longrightarrow> 1 \<le> bitlen x"
  by (simp add: bitlen_alt_def)

lemma binaryExponent_ge1:
  assumes "1 \<le> x"
  shows "0 \<le> binaryExponent x" and "pow2 (binaryExponent x) \<le> x" and "x < pow2 (binaryExponent x + 1)"
proof -
  have fl: "0 < \<lfloor>x\<rfloor>" using assms by linarith
  have e: "binaryExponent x = bitlen \<lfloor>x\<rfloor> - 1" using assms by (simp add: binaryExponent_def)
  from bitlen_pos [OF fl] show nn: "0 \<le> binaryExponent x" by (simp add: e)
  from bitlen_bounds [OF fl]
  have lo: "2 ^ nat (bitlen \<lfloor>x\<rfloor> - 1) \<le> \<lfloor>x\<rfloor>" and hi: "\<lfloor>x\<rfloor> < 2 ^ nat (bitlen \<lfloor>x\<rfloor>)" by simp_all
  from lo have "real_of_int (2 ^ nat (bitlen \<lfloor>x\<rfloor> - 1)) \<le> real_of_int \<lfloor>x\<rfloor>"
    by (rule of_int_le_iff [THEN iffD2])
  also have "\<dots> \<le> x" by linarith
  finally show "pow2 (binaryExponent x) \<le> x" using nn by (simp add: pow2_def e)
  from hi have "\<lfloor>x\<rfloor> + 1 \<le> 2 ^ nat (bitlen \<lfloor>x\<rfloor>)" by simp
  then have "real_of_int (\<lfloor>x\<rfloor> + 1) \<le> real_of_int (2 ^ nat (bitlen \<lfloor>x\<rfloor>))"
    by (rule of_int_le_iff [THEN iffD2])
  then have "real_of_int \<lfloor>x\<rfloor> + 1 \<le> 2 ^ nat (bitlen \<lfloor>x\<rfloor>)" by simp
  moreover have "x < real_of_int \<lfloor>x\<rfloor> + 1" by linarith
  ultimately have "x < 2 ^ nat (bitlen \<lfloor>x\<rfloor>)" by linarith
  moreover have "binaryExponent x + 1 = bitlen \<lfloor>x\<rfloor>" by (simp add: e)
  ultimately show "x < pow2 (binaryExponent x + 1)" using bitlen_nonneg [of "\<lfloor>x\<rfloor>"] by (simp add: pow2_def)
qed

lemma binaryExponent_lt1:
  assumes "0 < x" "x < 1"
  shows "binaryExponent x \<le> - 1"
proof -
  have "1 < 1 / x" using assms by simp
  then have "0 < \<lceil>1 / x\<rceil> - 1" by linarith
  from bitlen_pos [OF this] show ?thesis using assms by (simp add: binaryExponent_def)
qed

lemma binaryExponent_le:
  assumes "0 < x" "x \<le> pow2 b" "0 \<le> b"
  shows "binaryExponent x \<le> b"
proof (cases "1 \<le> x")
  case True
  from binaryExponent_ge1 [OF True] have "pow2 (binaryExponent x) \<le> pow2 b" using assms by linarith
  then show ?thesis by (simp add: pow2_powr)
next
  case False
  with binaryExponent_lt1 [of x] assms show ?thesis by simp
qed



lemma roundToDouble_finite:
  assumes "x \<noteq> 0" and "max (binaryExponent \<bar>x\<bar>) (- 1022) - 52 < 971"
  shows "roundToDouble x
    = Finite (real_of_int (roundTiesToEven (x / pow2 (max (binaryExponent \<bar>x\<bar>) (- 1022) - 52)))
        * pow2 (max (binaryExponent \<bar>x\<bar>) (- 1022) - 52))"
proof -
  let ?q = "max (binaryExponent \<bar>x\<bar>) (- 1022) - 52"
  have c: "\<not> (971 < ?q \<or> (?q = 971 \<and> \<bar>roundTiesToEven (x / pow2 ?q)\<bar> = 9007199254740992))"
    using assms(2) by linarith
  show ?thesis
    unfolding roundToDouble_def Let_def using assms(1) c by (simp only: if_False)
qed

lemma roundToDouble_multiple:
  assumes x: "x = real_of_int m * pow2 (max (binaryExponent \<bar>x\<bar>) (- 1022) - 52)"
    and q: "max (binaryExponent \<bar>x\<bar>) (- 1022) - 52 < 971"
  shows "roundToDouble x = Finite x"
proof (cases "x = 0")
  case True
  then show ?thesis by (simp add: roundToDouble_def)
next
  case False
  let ?q = "max (binaryExponent \<bar>x\<bar>) (- 1022) - 52"
  have "x / pow2 ?q = real_of_int m"
    using x pow2_pos [of ?q] by (metis less_irrefl nonzero_mult_div_cancel_right)
  then have "roundTiesToEven (x / pow2 ?q) = m" by (simp only: roundTiesToEven_of_int)
  with roundToDouble_finite [OF False q] have "roundToDouble x = Finite (real_of_int m * pow2 ?q)"
    by (simp only:)
  with x show ?thesis by (simp only:)
qed

lemma roundToDouble_of_int:
  assumes "\<bar>j\<bar> \<le> 9007199254740992"
  shows "roundToDouble (real_of_int j) = Finite (real_of_int j)"
proof (cases "j = 0")
  case True
  then show ?thesis by (simp add: roundToDouble_def)
next
  case False
  let ?a = "\<bar>real_of_int j\<bar>"
  have a1: "1 \<le> ?a" using False by (simp add: abs_if)
  have p53: "(9007199254740992::real) = pow2 53" by (simp add: pow2_def)
  have "?a \<le> 9007199254740992" using assms by (simp add: abs_if split: if_splits)
  then have ale: "?a \<le> pow2 53" by (simp only: p53)
  from binaryExponent_ge1 [OF a1] have e0: "0 \<le> binaryExponent ?a"
    and lo: "pow2 (binaryExponent ?a) \<le> ?a" by simp_all
  have e53: "binaryExponent ?a \<le> 53"
    by (rule binaryExponent_le [OF _ ale]) (use a1 in simp_all)
  let ?e = "binaryExponent ?a"
  have q: "max ?e (- 1022) - 52 = ?e - 52" using e0 by simp
  show ?thesis
  proof (rule roundToDouble_multiple [where m = "if ?e \<le> 52 then j * 2 ^ nat (52 - ?e) else j div 2"])
    show "max ?e (- 1022) - 52 < 971" using e53 by simp
    show "real_of_int j = real_of_int (if ?e \<le> 52 then j * 2 ^ nat (52 - ?e) else j div 2)
            * pow2 (max ?e (- 1022) - 52)"
    proof (cases "?e \<le> 52")
      case True
      then have "pow2 (?e - 52) = 1 / 2 ^ nat (52 - ?e)"
        using pow2_neg [of "nat (52 - ?e)"] by simp
      then show ?thesis using True by (simp add: q)
    next
      case False
      with e53 have e: "?e = 53" by simp
      have "pow2 53 \<le> ?a" using lo by (simp only: e)
      with ale have "?a = 9007199254740992" by (simp add: p53)
      then have "\<bar>j\<bar> = 9007199254740992" by linarith
      then have "j = 9007199254740992 \<or> j = - 9007199254740992" by (simp add: abs_if split: if_splits)
      then have h: "real_of_int j = real_of_int (j div 2) * 2" by auto
      have p: "pow2 (max ?e (- 1022) - 52) = 2" by (simp only: q e) (simp add: pow2_def)
      have m: "(if ?e \<le> 52 then j * 2 ^ nat (52 - ?e) else j div 2) = j div 2"
        using False by (simp only: if_False)
      show ?thesis unfolding p m by (fact h)
    qed
  qed
qed

lemma roundToDouble_error:
  assumes "\<bar>x\<bar> \<le> pow2 b" "0 \<le> b" "b \<le> 1000"
  shows "\<exists>y. roundToDouble x = Finite y \<and> \<bar>y - x\<bar> \<le> max \<bar>x\<bar> 1 / 9007199254740992"
proof (cases "x = 0")
  case True
  then show ?thesis by (simp add: roundToDouble_def)
next
  case False
  let ?e = "binaryExponent \<bar>x\<bar>"
  let ?q = "max ?e (- 1022) - 52"
  let ?m = "roundTiesToEven (x / pow2 ?q)"
  have pos: "0 < \<bar>x\<bar>" using False by simp
  have eb: "?e \<le> b" by (rule binaryExponent_le [OF pos assms(1) assms(2)])
  then have q: "?q < 971" using assms(2,3) by simp
  have r: "roundToDouble x = Finite (real_of_int ?m * pow2 ?q)"
    by (rule roundToDouble_finite [OF False q])
  have "\<bar>real_of_int ?m - x / pow2 ?q\<bar> \<le> 1 / 2" by (rule roundTiesToEven_error)
  then have "\<bar>real_of_int ?m - x / pow2 ?q\<bar> * pow2 ?q \<le> 1 / 2 * pow2 ?q"
    using pow2_pos [of ?q] by (simp only: mult_le_cancel_right_pos)
  moreover have "\<bar>real_of_int ?m - x / pow2 ?q\<bar> * pow2 ?q = \<bar>real_of_int ?m * pow2 ?q - x\<bar>"
  proof -
    have "\<bar>real_of_int ?m - x / pow2 ?q\<bar> * pow2 ?q = \<bar>(real_of_int ?m - x / pow2 ?q) * pow2 ?q\<bar>"
      using pow2_pos [of ?q] by (simp add: abs_mult)
    also have "(real_of_int ?m - x / pow2 ?q) * pow2 ?q = real_of_int ?m * pow2 ?q - x"
      using pow2_pos [of ?q] by (simp add: algebra_simps)
    finally show ?thesis .
  qed
  ultimately have err: "\<bar>real_of_int ?m * pow2 ?q - x\<bar> \<le> pow2 ?q / 2" by simp
  have "pow2 ?q \<le> max \<bar>x\<bar> 1 / 4503599627370496"
  proof (cases "1 \<le> \<bar>x\<bar>")
    case True
    from binaryExponent_ge1 [OF True] have e0: "0 \<le> ?e" and lo: "pow2 ?e \<le> \<bar>x\<bar>" by simp_all
    have "pow2 ?q = pow2 (?e + (- 52))" using e0 by simp
    also have "\<dots> = pow2 ?e * pow2 (- 52)" by (rule pow2_add)
    also have "\<dots> = pow2 ?e / 4503599627370496" by (simp add: pow2_def)
    also have "\<dots> \<le> \<bar>x\<bar> / 4503599627370496" using lo by simp
    finally show ?thesis using True by simp
  next
    case False
    with binaryExponent_lt1 [of "\<bar>x\<bar>"] pos have "?e \<le> - 1" by simp
    then have "?q \<le> - 53" by simp
    then have "pow2 ?q \<le> pow2 (- 53)" by (rule pow2_mono)
    also have "\<dots> \<le> 1 / 4503599627370496" by (simp add: pow2_def)
    finally show ?thesis using False by simp
  qed
  with err have "\<bar>real_of_int ?m * pow2 ?q - x\<bar> \<le> max \<bar>x\<bar> 1 / 9007199254740992" by simp
  with r show ?thesis by blast
qed

text \<open>
  Numeric strings in the forms of \<^verbatim>\<open>Number\<close>: with an exponent, in base 16, 2 and 8,
  an infinity, a decimal fraction that is not a double, and a string that is no number.
\<close>

lemma Number_examples:
  "toNumber ''1.2E+06'' = 1200000
   \<and> toNumber ''1e3'' = 1000
   \<and> toNumber ''1,234.5'' = 2469 / 2
   \<and> Number ''0x1F'' = Finite 31
   \<and> Number ''0b101'' = Finite 5
   \<and> Number ''0o17'' = Finite 15
   \<and> Number ''-Infinity'' = NegInfinity
   \<and> Number ''0.1'' = Finite (3602879701896397 / 36028797018963968)
   \<and> Number ''12abc'' = NaN
   \<and> toNumber ''12abc'' = 0
   \<and> parseLinkedInDateTime noStrDate (RawString ''1/15/2e3'') = Some (ValidDate 947894400000)
   \<and> toISOString (ValidDate 947894400000) = Inr ''2000-01-15T00:00:00.000Z''"
  by code_simp

subsection \<open>Platform B dates\<close>

lemma splitWhitespace_Nil: "splitWhitespace [] = [[]]"
  by (simp add: splitWhitespace.simps)

lemma epoch_1899: "Date_UTC 1899 11 30 0 0 = - 2209161600000"
  by (simp add: Date_UTC_def MakeDay_def daysFromCivil_def ToIntegerOrInfinity_def msPerDay_def)

lemma ToIntegerOrInfinity_of_int: "ToIntegerOrInfinity (real_of_int k) = k"
  by (simp add: ToIntegerOrInfinity_def)

lemma ToIntegerOrInfinity_near: "\<bar>real_of_int (ToIntegerOrInfinity x) - x\<bar> < 1"
  unfolding ToIntegerOrInfinity_def by (simp split: if_splits) linarith

lemma jsMul_int:
  assumes "\<bar>a * b\<bar> \<le> 9007199254740992"
  shows "jsMul (Finite (real_of_int a)) (Finite (real_of_int b)) = Finite (real_of_int (a * b))"
proof -
  have "jsMul (Finite (real_of_int a)) (Finite (real_of_int b)) = roundToDouble (real_of_int (a * b))"
    by (simp add: jsMul_def)
  then show ?thesis by (simp only: roundToDouble_of_int [OF assms])
qed

lemma jsAdd_int:
  assumes "\<bar>a + b\<bar> \<le> 9007199254740992"
  shows "jsAdd (Finite (real_of_int a)) (Finite (real_of_int b)) = Finite (real_of_int (a + b))"
proof -
  have "jsAdd (Finite (real_of_int a)) (Finite (real_of_int b)) = roundToDouble (real_of_int (a + b))"
    by (simp add: jsAdd_def)
  then show ?thesis by (simp only: roundToDouble_of_int [OF assms])
qed

lemma parse_serial_int:
  assumes k: "k \<noteq> 0" and range: "\<bar>- 2209161600000 + k * 86400000\<bar> \<le> 8640000000000000"
  shows "parseLinkedInDateTime strDate (RawNumber (Finite (real_of_int k)))
      = Some (ValidDate (- 2209161600000 + k * 86400000))"
proof -
  have b: "\<bar>k\<bar> \<le> 100025569" using range by linarith
  have m1: "jsMul (Finite (real_of_int k)) (Finite 24) = Finite (real_of_int (k * 24))"
    using jsMul_int [of k 24] b by simp
  have m2: "jsMul (Finite (real_of_int (k * 24))) (Finite 60) = Finite (real_of_int (k * 24 * 60))"
    using jsMul_int [of "k * 24" 60] b by simp
  have m3: "jsMul (Finite (real_of_int (k * 24 * 60))) (Finite 60) = Finite (real_of_int (k * 24 * 60 * 60))"
    using jsMul_int [of "k * 24 * 60" 60] b by simp
  have m4: "jsMul (Finite (real_of_int (k * 24 * 60 * 60))) (Finite 1000)
      = Finite (real_of_int (k * 24 * 60 * 60 * 1000))"
    using jsMul_int [of "k * 24 * 60 * 60" 1000] b by simp
  have m: "k * 24 * 60 * 60 * 1000 = k * 86400000" by simp
  have s: "jsAdd (Finite (real_of_int (- 2209161600000))) (Finite (real_of_int (k * 86400000)))
      = Finite (real_of_int (- 2209161600000 + k * 86400000))"
    by (rule jsAdd_int) (use range in simp)
  have n: "newDate (Finite (real_of_int (- 2209161600000 + k * 86400000)))
      = ValidDate (- 2209161600000 + k * 86400000)"
  proof -
    have "\<not> 8640000000000000 < \<bar>- 2209161600000 + k * 86400000\<bar>" using range by simp
    then have "\<not> real_of_int 8640000000000000 < real_of_int \<bar>- 2209161600000 + k * 86400000\<bar>"
      by (simp only: of_int_less_iff not_False_eq_True)
    then have "\<not> 8640000000000000 < \<bar>real_of_int (- 2209161600000 + k * 86400000)\<bar>"
      by (simp only: of_int_abs of_int_numeral not_False_eq_True)
    then show ?thesis
      unfolding newDate_def by (simp only: JsNumber.case ToIntegerOrInfinity_of_int if_False)
  qed
  have z: "Finite (real_of_int k) \<noteq> Finite 0" using k by simp
  show ?thesis
    unfolding parseLinkedInDateTime_def Let_def epoch_1899
    using z by (simp only: RawValue.case m1 m2 m3 m4 m s n) simp
qed

lemma roundToDouble_near:
  assumes "\<bar>x\<bar> \<le> c" "1 \<le> c" "c \<le> 1000000000000000000"
  shows "\<exists>y. roundToDouble x = Finite y \<and> \<bar>y - x\<bar> \<le> c / 9007199254740992"
proof -
  have "(1000000000000000000::real) \<le> pow2 60" by (simp add: pow2_def)
  with assms have "\<bar>x\<bar> \<le> pow2 60" by linarith
  from roundToDouble_error [OF this] obtain y where
    r: "roundToDouble x = Finite y" and e: "\<bar>y - x\<bar> \<le> max \<bar>x\<bar> 1 / 9007199254740992"
    by auto
  have "max \<bar>x\<bar> 1 \<le> c" using assms by simp
  then have "max \<bar>x\<bar> 1 / 9007199254740992 \<le> c / 9007199254740992" by simp
  with e have "\<bar>y - x\<bar> \<le> c / 9007199254740992" by linarith
  with r show ?thesis by blast
qed

lemma parse_serial_near:
  assumes n: "n \<noteq> 0" and range: "\<bar>n\<bar> \<le> 1000000"
  shows "\<exists>t. parseLinkedInDateTime strDate (RawNumber (Finite n)) = Some (ValidDate t)
           \<and> \<bar>real_of_int t - (- 2209161600000 + n * 86400000)\<bar> < 11 / 10"
proof -
  have py1: "\<bar>n * 24\<bar> \<le> 24000000" using range by linarith
  have "\<exists>y. roundToDouble (n * 24) = Finite y \<and> \<bar>y - (n * 24)\<bar> \<le> 24000000 / 9007199254740992"
    by (rule roundToDouble_near [OF py1]) simp_all
  then obtain y1 where
    r1: "roundToDouble (n * 24) = Finite y1" and e1: "\<bar>y1 - (n * 24)\<bar> \<le> 24000000 / 9007199254740992"
    by blast
  have b1: "\<bar>y1\<bar> \<le> 24000001" using e1 range by linarith
  have py2: "\<bar>y1 * 60\<bar> \<le> 1440000060" using b1 by linarith
  have "\<exists>y. roundToDouble (y1 * 60) = Finite y \<and> \<bar>y - (y1 * 60)\<bar> \<le> 1440000060 / 9007199254740992"
    by (rule roundToDouble_near [OF py2]) simp_all
  then obtain y2 where
    r2: "roundToDouble (y1 * 60) = Finite y2" and e2: "\<bar>y2 - (y1 * 60)\<bar> \<le> 1440000060 / 9007199254740992"
    by blast
  have b2: "\<bar>y2\<bar> \<le> 1440000061" using e2 b1 by linarith
  have py3: "\<bar>y2 * 60\<bar> \<le> 86400003660" using b2 by linarith
  have "\<exists>y. roundToDouble (y2 * 60) = Finite y \<and> \<bar>y - (y2 * 60)\<bar> \<le> 86400003660 / 9007199254740992"
    by (rule roundToDouble_near [OF py3]) simp_all
  then obtain y3 where
    r3: "roundToDouble (y2 * 60) = Finite y3" and e3: "\<bar>y3 - (y2 * 60)\<bar> \<le> 86400003660 / 9007199254740992"
    by blast
  have b3: "\<bar>y3\<bar> \<le> 86400003661" using e3 b2 by linarith
  have py4: "\<bar>y3 * 1000\<bar> \<le> 86400003661000" using b3 by linarith
  have "\<exists>y. roundToDouble (y3 * 1000) = Finite y \<and> \<bar>y - (y3 * 1000)\<bar> \<le> 86400003661000 / 9007199254740992"
    by (rule roundToDouble_near [OF py4]) simp_all
  then obtain y4 where
    r4: "roundToDouble (y3 * 1000) = Finite y4" and e4: "\<bar>y4 - (y3 * 1000)\<bar> \<le> 86400003661000 / 9007199254740992"
    by blast
  have b4: "\<bar>y4\<bar> \<le> 86400003661001" using e4 b3 by linarith
  have py5: "\<bar>y4 - 2209161600000\<bar> \<le> 88609165261001" using b4 by linarith
  have "\<exists>y. roundToDouble (y4 - 2209161600000) = Finite y \<and> \<bar>y - (y4 - 2209161600000)\<bar> \<le> 88609165261001 / 9007199254740992"
    by (rule roundToDouble_near [OF py5]) simp_all
  then obtain y5 where
    r5: "roundToDouble (y4 - 2209161600000) = Finite y5" and e5: "\<bar>y5 - (y4 - 2209161600000)\<bar> \<le> 88609165261001 / 9007199254740992"
    by blast
  have b5: "\<bar>y5\<bar> \<le> 88609165261002" using e5 b4 by linarith
  have total: "\<bar>y5 - (- 2209161600000 + n * 86400000)\<bar> < 1 / 10"
    using e1 e2 e3 e4 e5 by linarith
  have t: "\<bar>real_of_int (ToIntegerOrInfinity y5) - y5\<bar> < 1" by (rule ToIntegerOrInfinity_near)
  have nd: "newDate (Finite y5) = ValidDate (ToIntegerOrInfinity y5)"
    using b5 by (simp add: newDate_def)
  have z: "Finite n \<noteq> Finite 0" using n by simp
  have "parseLinkedInDateTime strDate (RawNumber (Finite n)) = Some (ValidDate (ToIntegerOrInfinity y5))"
    unfolding parseLinkedInDateTime_def Let_def epoch_1899
    using z by (simp add: jsMul_def jsAdd_def r1 r2 r3 r4 r5 nd)
  moreover have "\<bar>real_of_int (ToIntegerOrInfinity y5) - (- 2209161600000 + n * 86400000)\<bar> < 11 / 10"
    using total t by linarith
  ultimately show ?thesis by blast
qed

lemma parse_slash:
  assumes parts: "splitWhitespace (trim s) = datePart # timePart # ampmPart # rest"
    and pieces: "splitOn (CHR ''/'') datePart = [a, b, c]"
    and nums: "Number a \<noteq> NaN" "Number b \<noteq> NaN" "Number c \<noteq> NaN"
    and colon: "CHR '':'' \<in> set timePart"
    and hm: "splitOn (CHR '':'') timePart = hs # ms # others"
    and hnum: "Number hs \<noteq> NaN" "Number ms \<noteq> NaN"
  shows "parseLinkedInDateTime strDate (RawString s)
      = Some (newDate (Date_UTC_value (Number c) (jsSub (Number a) (Finite 1)) (Number b)
          (if toUpperCase ampmPart = ''PM'' \<and> jsLess (Number hs) (Finite 12)
           then jsAdd (Number hs) (Finite 12)
           else if toUpperCase ampmPart = ''AM'' \<and> Number hs = Finite 12 then Finite 0
           else Number hs)
          (Number ms)))"
proof -
  have ne: "s \<noteq> []" using parts by (auto simp: trim_def splitWhitespace_Nil)
  have tp: "timePart \<noteq> []" using colon by auto
  have hmv: "hourMinute (Some timePart) (Some ampmPart)
      = (if toUpperCase ampmPart = ''PM'' \<and> jsLess (Number hs) (Finite 12)
           then jsAdd (Number hs) (Finite 12)
           else if toUpperCase ampmPart = ''AM'' \<and> Number hs = Finite 12 then Finite 0
           else Number hs, Number ms)"
    using colon tp hnum by (simp add: hourMinute_def hm element_def Let_def)
  have el: "element (splitWhitespace (trim s)) 0 = Some datePart"
    "element (splitWhitespace (trim s)) (Suc 0) = Some timePart"
    "element (splitWhitespace (trim s)) 2 = Some ampmPart"
    by (simp_all add: parts element_def)
  show ?thesis
    using nums
    by (simp add: parseLinkedInDateTime_def ne Let_def el pieces hmv LINKEDIN_DATE_FORMAT_def)
qed

text \<open>
  C7, as the code has it.  A numeric serial that is a whole number \<open>k\<close> other than 0
  parses to the instant 1899-12-30T00:00:00Z plus \<open>k\<close> days, when that instant is within
  the range of time values; the serial 44927 parses to 2023-01-01T00:00:00Z.  The
  product of a serial and the day length is computed in doubles and the sum is
  truncated to a whole millisecond, so a serial \<open>n\<close> with a fraction parses to a
  millisecond near the instant: for a serial other than 0 of magnitude up to 1000000
  it differs from 1899-12-30T00:00:00Z plus \<open>n\<close> days by less than 1.1 ms.  The serial
  0 parses to null.  For a string \<^verbatim>\<open>M/D/Y H:MM AM\<close> or \<^verbatim>\<open>M/D/Y H:MM PM\<close>, the suffix
  a word of its own in any letter case, the hour is converted to 24-hour form: 12 AM
  is 0, 12 PM is 12, and PM with an hour below 12 adds 12.
\<close>

theorem parseLinkedInDateTime_spec:
  "(k \<noteq> 0 \<and> \<bar>- 2209161600000 + k * msPerDay\<bar> \<le> 8640000000000000 \<longrightarrow>
      parseLinkedInDateTime strDate (RawNumber (Finite (real_of_int k)))
        = Some (ValidDate (Date_UTC 1899 11 30 0 0 + k * msPerDay)))
   \<and> (n \<noteq> 0 \<and> \<bar>n\<bar> \<le> 1000000 \<longrightarrow>
      (\<exists>t. parseLinkedInDateTime strDate (RawNumber (Finite n)) = Some (ValidDate t)
         \<and> \<bar>real_of_int t - (real_of_int (Date_UTC 1899 11 30 0 0) + n * real_of_int msPerDay)\<bar> < 11 / 10))
   \<and> parseLinkedInDateTime strDate (RawNumber (Finite 0)) = None
   \<and> parseLinkedInDateTime strDate (RawNumber (Finite 44927)) = Some (ValidDate (Date_UTC 2023 0 1 0 0))
   \<and> (splitWhitespace (trim s) = datePart # timePart # ampmPart # rest
       \<and> splitOn (CHR ''/'') datePart = [a, b, c]
       \<and> Number a = p1 \<and> Number b = p2 \<and> Number c = p3
       \<and> p1 \<noteq> NaN \<and> p2 \<noteq> NaN \<and> p3 \<noteq> NaN
       \<and> CHR '':'' \<in> set timePart
       \<and> splitOn (CHR '':'') timePart = hs # ms # others
       \<and> Number hs = h \<and> Number ms = mi \<and> h \<noteq> NaN \<and> mi \<noteq> NaN \<longrightarrow>
         (toUpperCase ampmPart = ''AM'' \<and> h = Finite 12 \<longrightarrow>
            parseLinkedInDateTime strDate (RawString s)
              = Some (newDate (Date_UTC_value p3 (jsSub p1 (Finite 1)) p2 (Finite 0) mi)))
         \<and> (toUpperCase ampmPart = ''PM'' \<and> h = Finite 12 \<longrightarrow>
            parseLinkedInDateTime strDate (RawString s)
              = Some (newDate (Date_UTC_value p3 (jsSub p1 (Finite 1)) p2 (Finite 12) mi)))
         \<and> (toUpperCase ampmPart = ''PM'' \<and> jsLess h (Finite 12) \<longrightarrow>
            parseLinkedInDateTime strDate (RawString s)
              = Some (newDate (Date_UTC_value p3 (jsSub p1 (Finite 1)) p2 (jsAdd h (Finite 12)) mi)))
         \<and> (toUpperCase ampmPart = ''PM'' \<and> h = Finite (real_of_int i) \<and> 0 \<le> i \<and> i < 12 \<longrightarrow>
            parseLinkedInDateTime strDate (RawString s)
              = Some (newDate (Date_UTC_value p3 (jsSub p1 (Finite 1)) p2 (Finite (real_of_int (i + 12))) mi))))"
proof (intro conjI impI)
  assume "k \<noteq> 0 \<and> \<bar>- 2209161600000 + k * msPerDay\<bar> \<le> 8640000000000000"
  then have "k \<noteq> 0" and "\<bar>- 2209161600000 + k * 86400000\<bar> \<le> 8640000000000000"
    by (simp_all add: msPerDay_def)
  then have "parseLinkedInDateTime strDate (RawNumber (Finite (real_of_int k)))
      = Some (ValidDate (- 2209161600000 + k * 86400000))"
    by (rule parse_serial_int)
  then show "parseLinkedInDateTime strDate (RawNumber (Finite (real_of_int k)))
        = Some (ValidDate (Date_UTC 1899 11 30 0 0 + k * msPerDay))"
    by (simp add: epoch_1899 msPerDay_def)
next
  assume "n \<noteq> 0 \<and> \<bar>n\<bar> \<le> 1000000"
  then have "n \<noteq> 0" and "\<bar>n\<bar> \<le> 1000000" by simp_all
  from parse_serial_near [OF this, of strDate]
  show "\<exists>t. parseLinkedInDateTime strDate (RawNumber (Finite n)) = Some (ValidDate t)
         \<and> \<bar>real_of_int t - (real_of_int (Date_UTC 1899 11 30 0 0) + n * real_of_int msPerDay)\<bar> < 11 / 10"
    by (simp add: epoch_1899 msPerDay_def)
next
  show "parseLinkedInDateTime strDate (RawNumber (Finite 0)) = None"
    by (simp add: parseLinkedInDateTime_def)
next
  have "parseLinkedInDateTime strDate (RawNumber (Finite (real_of_int 44927)))
      = Some (ValidDate (- 2209161600000 + 44927 * 86400000))"
    by (rule parse_serial_int) simp_all
  moreover have "Date_UTC 2023 0 1 0 0 = - 2209161600000 + 44927 * 86400000"
    by (simp add: Date_UTC_def MakeDay_def daysFromCivil_def ToIntegerOrInfinity_def msPerDay_def)
  ultimately show "parseLinkedInDateTime strDate (RawNumber (Finite 44927)) = Some (ValidDate (Date_UTC 2023 0 1 0 0))"
    by simp
next
  assume hyp: "splitWhitespace (trim s) = datePart # timePart # ampmPart # rest
       \<and> splitOn (CHR ''/'') datePart = [a, b, c]
       \<and> Number a = p1 \<and> Number b = p2 \<and> Number c = p3
       \<and> p1 \<noteq> NaN \<and> p2 \<noteq> NaN \<and> p3 \<noteq> NaN
       \<and> CHR '':'' \<in> set timePart
       \<and> splitOn (CHR '':'') timePart = hs # ms # others
       \<and> Number hs = h \<and> Number ms = mi \<and> h \<noteq> NaN \<and> mi \<noteq> NaN"
  then have main: "parseLinkedInDateTime strDate (RawString s)
      = Some (newDate (Date_UTC_value p3 (jsSub p1 (Finite 1)) p2
          (if toUpperCase ampmPart = ''PM'' \<and> jsLess h (Finite 12) then jsAdd h (Finite 12)
           else if toUpperCase ampmPart = ''AM'' \<and> h = Finite 12 then Finite 0 else h) mi))"
    using parse_slash [of s datePart timePart ampmPart rest a b c hs ms others strDate] by auto
  {
    assume "toUpperCase ampmPart = ''AM'' \<and> h = Finite 12"
    then show "parseLinkedInDateTime strDate (RawString s)
              = Some (newDate (Date_UTC_value p3 (jsSub p1 (Finite 1)) p2 (Finite 0) mi))"
      by (simp add: main)
  next
    assume "toUpperCase ampmPart = ''PM'' \<and> h = Finite 12"
    then show "parseLinkedInDateTime strDate (RawString s)
              = Some (newDate (Date_UTC_value p3 (jsSub p1 (Finite 1)) p2 (Finite 12) mi))"
      by (simp add: main jsLess_def)
  next
    assume "toUpperCase ampmPart = ''PM'' \<and> jsLess h (Finite 12)"
    then show "parseLinkedInDateTime strDate (RawString s)
              = Some (newDate (Date_UTC_value p3 (jsSub p1 (Finite 1)) p2 (jsAdd h (Finite 12)) mi))"
      by (simp add: main)
  next
    assume pm: "toUpperCase ampmPart = ''PM'' \<and> h = Finite (real_of_int i) \<and> 0 \<le> i \<and> i < 12"
    then have "jsAdd (Finite (real_of_int i)) (Finite (real_of_int 12)) = Finite (real_of_int (i + 12))"
      by (intro jsAdd_int) simp
    then have "jsAdd h (Finite 12) = Finite (real_of_int (i + 12))" using pm by simp
    moreover have "jsLess h (Finite 12)" using pm by (simp add: jsLess_def)
    ultimately show "parseLinkedInDateTime strDate (RawString s)
              = Some (newDate (Date_UTC_value p3 (jsSub p1 (Finite 1)) p2 (Finite (real_of_int (i + 12))) mi))"
      using pm by (simp add: main)
  }
qed

text \<open>
  The serials 44927 and 45000.5, and the strings \<^verbatim>\<open>1/15/2024 12:30 AM\<close>,
  \<^verbatim>\<open>1/15/2024 12:30 PM\<close> and \<^verbatim>\<open>1/15/2024 3:05 pm\<close>.
\<close>

theorem parseLinkedInDateTime_witness:
  "(44927::int) \<noteq> 0
   \<and> \<bar>- 2209161600000 + 44927 * msPerDay\<bar> \<le> 8640000000000000
   \<and> parseLinkedInDateTime noStrDate (RawNumber (Finite 44927)) = Some (ValidDate 1672531200000)
   \<and> toISOString (ValidDate 1672531200000) = Inr ''2023-01-01T00:00:00.000Z''
   \<and> (90001 / 2 :: real) \<noteq> 0 \<and> \<bar>90001 / 2 :: real\<bar> \<le> 1000000
   \<and> parseLinkedInDateTime noStrDate (RawNumber (Finite (90001 / 2))) = Some (ValidDate 1678881600000)
   \<and> \<bar>real_of_int 1678881600000
        - (real_of_int (Date_UTC 1899 11 30 0 0) + 90001 / 2 * real_of_int msPerDay)\<bar> < 11 / 10
   \<and> toISOString (ValidDate 1678881600000) = Inr ''2023-03-15T12:00:00.000Z''
   \<and> splitWhitespace (trim ''1/15/2024 12:30 AM'') = [''1/15/2024'', ''12:30'', ''AM'']
   \<and> parseLinkedInDateTime noStrDate (RawString ''1/15/2024 12:30 AM'') = Some (ValidDate 1705278600000)
   \<and> toISOString (ValidDate 1705278600000) = Inr ''2024-01-15T00:30:00.000Z''
   \<and> parseLinkedInDateTime noStrDate (RawString ''1/15/2024 12:30 PM'') = Some (ValidDate 1705321800000)
   \<and> toISOString (ValidDate 1705321800000) = Inr ''2024-01-15T12:30:00.000Z''
   \<and> parseLinkedInDateTime noStrDate (RawString ''1/15/2024 3:05 pm'') = Some (ValidDate 1705331100000)
   \<and> toISOString (ValidDate 1705331100000) = Inr ''2024-01-15T15:05:00.000Z''"
proof -
  have k: "(44927::int) \<noteq> 0 \<and> \<bar>- 2209161600000 + 44927 * msPerDay\<bar> \<le> 8640000000000000"
    by (simp add: msPerDay_def)
  from k parseLinkedInDateTime_spec [of 44927 noStrDate]
  have "parseLinkedInDateTime noStrDate (RawNumber (Finite (real_of_int 44927)))
      = Some (ValidDate (Date_UTC 1899 11 30 0 0 + 44927 * msPerDay))"
    by blast
  then have serial: "parseLinkedInDateTime noStrDate (RawNumber (Finite 44927)) = Some (ValidDate 1672531200000)"
    by (simp add: epoch_1899 msPerDay_def)
  have i0: "toISOString (ValidDate 1672531200000) = Inr ''2023-01-01T00:00:00.000Z''" by code_simp
  have n: "(90001 / 2 :: real) \<noteq> 0 \<and> \<bar>90001 / 2 :: real\<bar> \<le> 1000000" by simp
  have half: "parseLinkedInDateTime noStrDate (RawNumber (Finite (90001 / 2))) = Some (ValidDate 1678881600000)"
    by code_simp
  have near: "\<bar>real_of_int 1678881600000
        - (real_of_int (Date_UTC 1899 11 30 0 0) + 90001 / 2 * real_of_int msPerDay)\<bar> < 11 / 10"
    by (simp add: epoch_1899 msPerDay_def)
  have ih: "toISOString (ValidDate 1678881600000) = Inr ''2023-03-15T12:00:00.000Z''" by code_simp
  have w1: "splitWhitespace (trim ''1/15/2024 12:30 AM'') = [''1/15/2024'', ''12:30'', ''AM'']"
    by code_simp
  have w2: "splitWhitespace (trim ''1/15/2024 3:05 pm'') = [''1/15/2024'', ''3:05'', ''pm'']"
    by code_simp
  have w3: "splitWhitespace (trim ''1/15/2024 12:30 PM'') = [''1/15/2024'', ''12:30'', ''PM'']"
    by code_simp
  have dp: "splitOn (CHR ''/'') ''1/15/2024'' = [''1'', ''15'', ''2024'']" by code_simp
  have n1: "Number ''1'' = Finite 1" and n15: "Number ''15'' = Finite 15"
    and n2024: "Number ''2024'' = Finite 2024" and n12: "Number ''12'' = Finite 12"
    and n30: "Number ''30'' = Finite 30" and n3: "Number ''3'' = Finite 3"
    and n05: "Number ''05'' = Finite 5"
    by code_simp+
  have t1: "splitOn (CHR '':'') ''12:30'' = [''12'', ''30'']" by code_simp
  have t2: "splitOn (CHR '':'') ''3:05'' = [''3'', ''05'']" by code_simp
  have c1: "CHR '':'' \<in> set ''12:30''" and c2: "CHR '':'' \<in> set ''3:05''" by simp_all
  have u1: "toUpperCase ''AM'' = ''AM''" and u2: "toUpperCase ''pm'' = ''PM''"
    and u3: "toUpperCase ''PM'' = ''PM''" by code_simp+
  from w1 dp n1 n15 n2024 c1 t1 n12 n30 u1
    parseLinkedInDateTime_spec [where strDate = noStrDate and s = "''1/15/2024 12:30 AM''"
      and datePart = "''1/15/2024''" and timePart = "''12:30''" and ampmPart = "''AM''"
      and rest = "[]" and a = "''1''" and b = "''15''" and c = "''2024''"
      and ?p1.0 = "Finite 1" and ?p2.0 = "Finite 15" and ?p3.0 = "Finite 2024" and hs = "''12''"
      and ms = "''30''" and others = "[]" and h = "Finite 12" and mi = "Finite 30"]
  have am: "parseLinkedInDateTime noStrDate (RawString ''1/15/2024 12:30 AM'')
      = Some (newDate (Date_UTC_value (Finite 2024) (jsSub (Finite 1) (Finite 1)) (Finite 15) (Finite 0) (Finite 30)))"
    by simp
  from w3 dp n1 n15 n2024 c1 t1 n12 n30 u3
    parseLinkedInDateTime_spec [where strDate = noStrDate and s = "''1/15/2024 12:30 PM''"
      and datePart = "''1/15/2024''" and timePart = "''12:30''" and ampmPart = "''PM''"
      and rest = "[]" and a = "''1''" and b = "''15''" and c = "''2024''"
      and ?p1.0 = "Finite 1" and ?p2.0 = "Finite 15" and ?p3.0 = "Finite 2024" and hs = "''12''"
      and ms = "''30''" and others = "[]" and h = "Finite 12" and mi = "Finite 30"]
  have noon: "parseLinkedInDateTime noStrDate (RawString ''1/15/2024 12:30 PM'')
      = Some (newDate (Date_UTC_value (Finite 2024) (jsSub (Finite 1) (Finite 1)) (Finite 15) (Finite 12) (Finite 30)))"
    by simp
  from w2 dp n1 n15 n2024 c2 t2 n3 n05 u2
    parseLinkedInDateTime_spec [where strDate = noStrDate and s = "''1/15/2024 3:05 pm''"
      and datePart = "''1/15/2024''" and timePart = "''3:05''" and ampmPart = "''pm''"
      and rest = "[]" and a = "''1''" and b = "''15''" and c = "''2024''"
      and ?p1.0 = "Finite 1" and ?p2.0 = "Finite 15" and ?p3.0 = "Finite 2024" and hs = "''3''"
      and ms = "''05''" and others = "[]" and h = "Finite 3" and mi = "Finite 5" and i = 3]
  have pm: "parseLinkedInDateTime noStrDate (RawString ''1/15/2024 3:05 pm'')
      = Some (newDate (Date_UTC_value (Finite 2024) (jsSub (Finite 1) (Finite 1)) (Finite 15)
                (Finite (real_of_int (3 + 12))) (Finite 5)))"
    by simp
  have d1: "newDate (Date_UTC_value (Finite 2024) (jsSub (Finite 1) (Finite 1)) (Finite 15) (Finite 0) (Finite 30))
      = ValidDate 1705278600000" by code_simp
  have d2: "newDate (Date_UTC_value (Finite 2024) (jsSub (Finite 1) (Finite 1)) (Finite 15)
                (Finite (real_of_int (3 + 12))) (Finite 5)) = ValidDate 1705331100000" by code_simp
  have d3: "newDate (Date_UTC_value (Finite 2024) (jsSub (Finite 1) (Finite 1)) (Finite 15) (Finite 12) (Finite 30))
      = ValidDate 1705321800000" by code_simp
  have i1: "toISOString (ValidDate 1705278600000) = Inr ''2024-01-15T00:30:00.000Z''" by code_simp
  have i2: "toISOString (ValidDate 1705331100000) = Inr ''2024-01-15T15:05:00.000Z''" by code_simp
  have i3: "toISOString (ValidDate 1705321800000) = Inr ''2024-01-15T12:30:00.000Z''" by code_simp
  show ?thesis
    using k serial n half near w1 am pm noon unfolding d1 d2 d3 i0 ih i1 i2 i3 by simp
qed

text \<open>
  The claim C7 as stated fails on the serial 0, which parses to null and not to
  1899-12-30T00:00:00Z, and on the double nearest to 45000 + 1/24 (01:00 on
  2023-03-15), which parses to 2023-03-15T01:00:00.000Z while 1899-12-30T00:00:00Z plus
  that many days is not a whole millisecond.  A suffix written without a blank is not
  read: \<^verbatim>\<open>1/15/2024 12:30AM\<close> parses to 12:00 on that day.
\<close>

theorem parseLinkedInDateTime_counterexample:
  "parseLinkedInDateTime noStrDate (RawNumber (Finite 0)) = None
   \<and> parseLinkedInDateTime noStrDate (RawNumber (Finite 0)) \<noteq> Some (ValidDate (Date_UTC 1899 11 30 0 0))
   \<and> roundToDouble (45000 + 1 / 24) = Finite (6184758632863061 / 137438953472)
   \<and> parseLinkedInDateTime noStrDate (RawNumber (Finite (6184758632863061 / 137438953472)))
       = Some (ValidDate 1678842000000)
   \<and> real_of_int 1678842000000
       \<noteq> real_of_int (Date_UTC 1899 11 30 0 0) + 6184758632863061 / 137438953472 * real_of_int msPerDay
   \<and> parseLinkedInDateTime noStrDate (RawString ''1/15/2024 12:30AM'') = Some (ValidDate 1705320000000)
   \<and> toISOString (ValidDate 1705320000000) = Inr ''2024-01-15T12:00:00.000Z''"
proof -
  have a: "parseLinkedInDateTime noStrDate (RawNumber (Finite 0)) = None"
    by (simp add: parseLinkedInDateTime_def)
  have b: "roundToDouble (45000 + 1 / 24) = Finite (6184758632863061 / 137438953472)" by code_simp
  have c: "parseLinkedInDateTime noStrDate (RawNumber (Finite (6184758632863061 / 137438953472)))
       = Some (ValidDate 1678842000000)" by code_simp
  have d: "real_of_int 1678842000000
       \<noteq> real_of_int (Date_UTC 1899 11 30 0 0) + 6184758632863061 / 137438953472 * real_of_int msPerDay"
    by (simp add: epoch_1899 msPerDay_def)
  have e: "parseLinkedInDateTime noStrDate (RawString ''1/15/2024 12:30AM'') = Some (ValidDate 1705320000000)"
    by code_simp
  have f: "toISOString (ValidDate 1705320000000) = Inr ''2024-01-15T12:00:00.000Z''" by code_simp
  show ?thesis using a b c d e f by simp
qed

subsection \<open>Engagement rate\<close>

text \<open>
  C6.  The engagement-rate fallback is \<open>(likes + comments + reposts) / impressions\<close> when
  impressions are positive and null when they are zero; impressions 200 with 10 likes,
  5 comments and 5 reposts give one tenth.
\<close>

theorem calculateEngagementRate_spec:
  "(0 < i \<longrightarrow>
      calculateEngagementRate i l c r = Some ((l + c + r) / i))
   \<and> calculateEngagementRate 0 l c r = None
   \<and> calculateEngagementRate 200 10 5 5 = Some (1 / 10)"
  by (simp add: calculateEngagementRate_def)

theorem calculateEngagementRate_witness:
  "(0::real) < 200 \<and> calculateEngagementRate 200 10 5 5 = Some ((10 + 5 + 5) / 200)"
  using calculateEngagementRate_spec [of 200 10 5 5] by simp

end
